(* ===== verification/Prelude.thy ===== *)
theory Prelude
  imports Main
begin

text \<open>
  Shared vocabulary of the development: the Python runtime errors the solvers can raise,
  the score type extended with Python's \<open>float('-inf')\<close>, the semantics of the builtins
  \<open>min(xs, key=...)\<close> and \<open>max(...)\<close> that the solvers call, and the generic lemmas on
  lists, maps and sums that the component theories share.
\<close>

named_theorems csp_simps "unfolding equations of the search model used by the component proofs"

section \<open>Python errors\<close>

text \<open>
  \<open>KeyError k\<close> is a dictionary read \<open>d[k]\<close> of a missing key; \<open>ValueError\<close> is
  \<open>min\<close> or \<open>max\<close> of an empty sequence, or \<open>random.sample\<close> and
  \<open>random.randrange\<close> on too small a range; \<open>IndexError\<close> is a list read past its end;
  \<open>ZeroDivisionError\<close> is a float division by zero; \<open>AttributeError\<close> is the pandas
  \<open>.str\<close> accessor on a column that holds no strings.
\<close>

datatype 'k py_error = KeyError 'k | ValueError | IndexError | ZeroDivisionError | AttributeError

text \<open>
  Sequencing of statements that may raise: \<open>bind_sum m f\<close> runs \<open>f\<close> on the value of
  \<open>m\<close> and passes an exception on unchanged.
\<close>

definition bind_sum :: "'e + 'a \<Rightarrow> ('a \<Rightarrow> 'e + 'b) \<Rightarrow> 'e + 'b" where
  "bind_sum m f = (case m of Inl e \<Rightarrow> Inl e | Inr x \<Rightarrow> f x)"

section \<open>Scores extended with minus infinity\<close>

text \<open>
  \<open>best_score\<close> starts at \<open>float('-inf')\<close>, which compares below every finite score.
\<close>

datatype 'a ext_score = NegInf | Fin 'a

instantiation ext_score :: (linorder) linorder
begin

fun less_eq_ext_score :: "'a ext_score \<Rightarrow> 'a ext_score \<Rightarrow> bool" where
  "less_eq_ext_score NegInf y = True"
| "less_eq_ext_score (Fin x) NegInf = False"
| "less_eq_ext_score (Fin x) (Fin y) = (x \<le> y)"

definition less_ext_score :: "'a ext_score \<Rightarrow> 'a ext_score \<Rightarrow> bool" where
  "less_ext_score x y = (x \<le> y \<and> \<not> y \<le> x)"

instance
proof
  fix x y z :: "'a ext_score"
  show "(x < y) = (x \<le> y \<and> \<not> y \<le> x)" by (simp add: less_ext_score_def)
  show "x \<le> x" by (cases x) simp_all
  show "x \<le> y \<Longrightarrow> y \<le> z \<Longrightarrow> x \<le> z"
    by (cases x; cases y; cases z) auto
  show "x \<le> y \<Longrightarrow> y \<le> x \<Longrightarrow> x = y"
    by (cases x; cases y) auto
  show "x \<le> y \<or> y \<le> x"
    by (cases x; cases y) auto
qed

end

lemma ext_score_less_simps [simp]:
  "NegInf < Fin x"
  "\<not> z < NegInf"
  "(Fin x < Fin y) = (x < y)"
  "(z \<le> NegInf) = (z = NegInf)"
  by (cases z; auto simp: less_ext_score_def)+

section \<open>The builtins \<open>min\<close> with a key and \<open>max\<close>\<close>

text \<open>
  CPython's \<open>min(xs, key=f)\<close> scans left to right and replaces the current minimum
  only when the new key is strictly smaller, so it returns the first element of minimal
  key. \<open>min_key f m ys\<close> is that scan with current minimum \<open>m\<close>.
\<close>

fun min_key :: "('a \<Rightarrow> 'k::linorder) \<Rightarrow> 'a \<Rightarrow> 'a list \<Rightarrow> 'a" where
  "min_key f m [] = m"
| "min_key f m (y # ys) = min_key f (if f y < f m then y else m) ys"

text \<open>
  \<open>max(xs, key=f)\<close> likewise keeps the first element of maximal key: it replaces the
  current maximum only when the new key is strictly larger.
\<close>

fun max_key :: "('a \<Rightarrow> 'k::linorder) \<Rightarrow> 'a \<Rightarrow> 'a list \<Rightarrow> 'a" where
  "max_key f m [] = m"
| "max_key f m (y # ys) = max_key f (if f m < f y then y else m) ys"

text \<open>\<open>max(f x for x in xs)\<close> on a non-empty list.\<close>

fun max_of :: "('a \<Rightarrow> 'k::linorder) \<Rightarrow> 'a list \<Rightarrow> 'k" where
  "max_of f [] = undefined"
| "max_of f (x # xs) = fold (\<lambda>y m. max (f y) m) xs (f x)"

section \<open>Generic lemmas\<close>

lemma bind_sum_simps [simp]:
  "bind_sum (Inl e) f = Inl e"
  "bind_sum (Inr x) f = f x"
  by (simp_all add: bind_sum_def)

lemma bind_sum_Inr:
  "bind_sum m f = Inr y \<longleftrightarrow> (\<exists>x. m = Inr x \<and> f x = Inr y)"
  by (cases m) simp_all

lemma max_key_in: "max_key f m ys \<in> insert m (set ys)"
  by (induction ys arbitrary: m) force+

lemma max_key_ge: "f m \<le> f (max_key f m ys) \<and> (\<forall>y \<in> set ys. f y \<le> f (max_key f m ys))"
proof (induction ys arbitrary: m)
  case Nil
  then show ?case by simp
next
  case (Cons y ys)
  let ?m' = "if f m < f y then y else m"
  let ?r = "max_key f ?m' ys"
  have m1: "f m \<le> f ?m'" and m2: "f y \<le> f ?m'" by auto
  from Cons.IH [of ?m'] have r: "f ?m' \<le> f ?r" and rs: "\<forall>z \<in> set ys. f z \<le> f ?r"
    by blast+
  from m1 r have "f m \<le> f ?r" by (rule order_trans)
  moreover from m2 r have "f y \<le> f ?r" by (rule order_trans)
  ultimately show ?case using rs by simp
qed

lemma min_key_in: "min_key f m ys \<in> insert m (set ys)"
  by (induction ys arbitrary: m) force+

lemma min_key_le: "f (min_key f m ys) \<le> f m \<and> (\<forall>y \<in> set ys. f (min_key f m ys) \<le> f y)"
proof (induction ys arbitrary: m)
  case Nil
  then show ?case by simp
next
  case (Cons y ys)
  let ?m' = "if f y < f m then y else m"
  let ?r = "min_key f ?m' ys"
  have m1: "f ?m' \<le> f m" and m2: "f ?m' \<le> f y" by auto
  from Cons.IH [of ?m'] have r: "f ?r \<le> f ?m'" and rs: "\<forall>z \<in> set ys. f ?r \<le> f z"
    by blast+
  from r m1 have "f ?r \<le> f m" by (rule order_trans)
  moreover from r m2 have "f ?r \<le> f y" by (rule order_trans)
  ultimately show ?case using rs by simp
qed

lemma filter_map_option_True [simp]: "map_option (filter (\<lambda>x. True)) m = m"
  by (cases m) simp_all

lemma fold_max_ge_init: "(a::'k::linorder) \<le> fold (\<lambda>y m. max (f y) m) xs a"
proof (induction xs arbitrary: a)
  case Nil
  then show ?case by simp
next
  case (Cons x xs)
  from Cons.IH [of "max (f x) a"] show ?case by simp
qed

lemma fold_max_ge: "y \<in> set xs \<Longrightarrow> f y \<le> fold (\<lambda>y m. max (f y) m) xs (a::'k::linorder)"
proof (induction xs arbitrary: a)
  case Nil
  then show ?case by simp
next
  case (Cons x xs)
  show ?case
  proof (cases "y = x")
    case True
    then show ?thesis
      using fold_max_ge_init [of "max (f x) a" f xs] by simp
  next
    case False
    with Cons show ?thesis by simp
  qed
qed

lemma fold_max_in: "fold (\<lambda>y m. max (f y) m) xs (a::'k::linorder) \<in> insert a (f ` set xs)"
  by (induction xs arbitrary: a) (auto simp: max_def)

lemma max_of_ge: "y \<in> set xs \<Longrightarrow> f y \<le> max_of f xs"
  by (cases xs) (auto intro: fold_max_ge order_trans [OF _ fold_max_ge_init])

lemma max_of_in: "xs \<noteq> [] \<Longrightarrow> max_of f xs \<in> f ` set xs"
  using fold_max_in [of f] by (cases xs) fastforce+

end
