(* ===== verification/CSP_Ops.thy ===== *)
theory CSP_Ops
  imports Prelude "HOL-Library.Multiset"
begin

text \<open>
  The helpers of \<open>backtracking_csp\<close> in \<open>src/Backtracking_CSP/back_CSP.py\<close>: the
  problem data, the initial domain copy (line 14), the unassigned variables (lines 19
  and 34), the MRV choice \<open>mrv\<close> (lines 18--20), the optimistic bound (lines 35--38), the
  consistency loop (lines 53--58), \<open>forward_check\<close> (lines 22--29), the wipe-out test
  (line 65) and the value ordering (line 50). Each dictionary read of the source is a
  lookup that may raise \<open>KeyError\<close>; each lemma here gives the functional behaviour of
  one helper and the condition under which it does not raise.
\<close>

section \<open>Problem data\<close>

type_synonym ('v, 'd) constraint = "'v \<times> 'v \<times> ('d \<Rightarrow> 'd \<Rightarrow> bool)"
type_synonym ('v, 'd) domains = "'v \<rightharpoonup> 'd list"
type_synonym ('v, 'd) assignment = "'v \<rightharpoonup> 'd"

text \<open>The arguments of \<open>backtracking_csp\<close> that the nested functions capture.\<close>

record ('v, 'd, 'c) csp =
  variables :: "'v list"
  constraints :: "('v, 'd) constraint list"
  soft_score :: "'v \<Rightarrow> 'd \<Rightarrow> 'c"

section \<open>Operations\<close>

text \<open>\<open>init_domains = {v: list(domains.get(v, [])) for v in variables}\<close>\<close>

definition init_domains :: "'v list \<Rightarrow> ('v, 'd) domains \<Rightarrow> ('v, 'd) domains" where
  "init_domains vs doms =
     (\<lambda>v. if v \<in> set vs then Some (case doms v of None \<Rightarrow> [] | Some d \<Rightarrow> d) else None)"

text \<open>\<open>[v for v in variables if v not in assignment]\<close>\<close>

definition unassigned :: "'v list \<Rightarrow> ('v, 'd) assignment \<Rightarrow> 'v list" where
  "unassigned vs a = filter (\<lambda>v. a v = None) vs"

text \<open>
  \<open>min(unassigned, key=lambda v: len(curr_domains[v]))\<close>: the scan of CPython's
  \<open>min\<close>, reading the key of each element in turn.
\<close>

fun mrv_scan :: "('v, 'd) domains \<Rightarrow> 'v \<Rightarrow> nat \<Rightarrow> 'v list \<Rightarrow> 'v py_error + 'v" where
  "mrv_scan ds m k [] = Inr m"
| "mrv_scan ds m k (y # ys) =
     (case ds y of
        None \<Rightarrow> Inl (KeyError y)
      | Some d \<Rightarrow> if length d < k then mrv_scan ds y (length d) ys else mrv_scan ds m k ys)"

definition mrv :: "'v list \<Rightarrow> ('v, 'd) domains \<Rightarrow> ('v, 'd) assignment \<Rightarrow> 'v py_error + 'v" where
  "mrv vs ds a =
     (case unassigned vs a of
        [] \<Rightarrow> Inl ValueError
      | v # rest \<Rightarrow>
          (case ds v of None \<Rightarrow> Inl (KeyError v) | Some d \<Rightarrow> mrv_scan ds v (length d) rest))"

text \<open>
  Lines 35--38: \<open>rem_upper\<close> accumulates, for each unassigned variable with a non-empty
  domain, the largest soft score of its domain.
\<close>

fun rem_upper ::
  "('v \<Rightarrow> 'd \<Rightarrow> 'c::linordered_ab_group_add) \<Rightarrow> ('v, 'd) domains \<Rightarrow> 'c \<Rightarrow> 'v list \<Rightarrow> 'v py_error + 'c"
where
  "rem_upper s ds acc [] = Inr acc"
| "rem_upper s ds acc (v # vs) =
     (case ds v of
        None \<Rightarrow> Inl (KeyError v)
      | Some d \<Rightarrow> rem_upper s ds (if d = [] then acc else acc + max_of (s v) d) vs)"

text \<open>Lines 53--58: the loop that breaks at the first violated constraint.\<close>

fun consistent :: "('v, 'd) constraint list \<Rightarrow> 'v \<Rightarrow> 'd \<Rightarrow> ('v, 'd) assignment \<Rightarrow> bool" where
  "consistent [] var val a = True"
| "consistent ((X, Y, c) # cs) var val a =
     (if X = var \<and> (case a Y of Some y \<Rightarrow> \<not> c val y | None \<Rightarrow> False) then False
      else if Y = var \<and> (case a X of Some x \<Rightarrow> \<not> c x val | None \<Rightarrow> False) then False
      else consistent cs var val a)"

text \<open>\<open>new_domains[Y] = [w for w in new_domains[Y] if p(w)]\<close>\<close>

definition restrict_dom ::
  "('v, 'd) domains \<Rightarrow> 'v \<Rightarrow> ('d \<Rightarrow> bool) \<Rightarrow> 'v py_error + ('v, 'd) domains" where
  "restrict_dom nd v p = (case nd v of None \<Rightarrow> Inl (KeyError v) | Some d \<Rightarrow> Inr (nd(v \<mapsto> filter p d)))"

text \<open>
  Lines 22--29, the loop over the constraints applied to the copy \<open>new_domains\<close> of
  \<open>curr_domains\<close>; \<open>a\<close> is the assignment that already holds \<open>var \<mapsto> val\<close>.
\<close>

fun forward_check ::
  "('v, 'd) constraint list \<Rightarrow> 'v \<Rightarrow> 'd \<Rightarrow> ('v, 'd) assignment \<Rightarrow> ('v, 'd) domains
     \<Rightarrow> 'v py_error + ('v, 'd) domains"
where
  "forward_check [] var val a nd = Inr nd"
| "forward_check ((X, Y, c) # cs) var val a nd =
     (case (if X = var \<and> a Y = None then restrict_dom nd Y (c val) else Inr nd) of
        Inl e \<Rightarrow> Inl e
      | Inr nd1 \<Rightarrow>
          (case (if Y = var \<and> a X = None then restrict_dom nd1 X (\<lambda>w. c w val) else Inr nd1) of
             Inl e \<Rightarrow> Inl e
           | Inr nd2 \<Rightarrow> forward_check cs var val a nd2))"

text \<open>Line 65: \<open>all(pruned[w] for w in variables if w not in assignment)\<close>.\<close>

fun domains_nonempty :: "('v, 'd) domains \<Rightarrow> 'v list \<Rightarrow> 'v py_error + bool" where
  "domains_nonempty pr [] = Inr True"
| "domains_nonempty pr (w # ws) =
     (case pr w of
        None \<Rightarrow> Inl (KeyError w)
      | Some d \<Rightarrow> if d = [] then Inr False else domains_nonempty pr ws)"

text \<open>
  Line 50: \<open>sorted(d, key=lambda x: soft_score(var, x), reverse=True)\<close>. Python's sort is
  stable also with \<open>reverse=True\<close>, so this is the stable sort by the negated key.
\<close>

definition order_values :: "('d \<Rightarrow> 'c::linordered_ab_group_add) \<Rightarrow> 'd list \<Rightarrow> 'd list" where
  "order_values f d = sort_key (\<lambda>x. - f x) d"

section \<open>Specification helpers\<close>

text \<open>
  \<open>fc_keep cs var val a v w\<close>: value \<open>w\<close> of variable \<open>v\<close> survives forward
  checking after \<open>var \<mapsto> val\<close>; \<open>fc_defined\<close>: every domain that forward checking reads
  exists; \<open>dom_max\<close>: the summand of the optimistic bound for one variable.
\<close>

definition fc_keep :: "('v, 'd) constraint list \<Rightarrow> 'v \<Rightarrow> 'd \<Rightarrow> ('v, 'd) assignment \<Rightarrow> 'v \<Rightarrow> 'd \<Rightarrow> bool" where
  "fc_keep cs var val a v w =
     (\<forall>(X, Y, c) \<in> set cs. (X = var \<and> Y = v \<and> a v = None \<longrightarrow> c val w)
                        \<and> (Y = var \<and> X = v \<and> a v = None \<longrightarrow> c w val))"

definition fc_defined :: "('v, 'd) constraint list \<Rightarrow> 'v \<Rightarrow> ('v, 'd) assignment \<Rightarrow> ('v, 'd) domains \<Rightarrow> bool" where
  "fc_defined cs var a nd =
     (\<forall>(X, Y, c) \<in> set cs. (X = var \<and> a Y = None \<longrightarrow> nd Y \<noteq> None)
                        \<and> (Y = var \<and> a X = None \<longrightarrow> nd X \<noteq> None))"

definition dom_max :: "('v \<Rightarrow> 'd \<Rightarrow> 'c::linordered_ab_group_add) \<Rightarrow> ('v, 'd) domains \<Rightarrow> 'v \<Rightarrow> 'c" where
  "dom_max s ds v = (case ds v of Some d \<Rightarrow> if d = [] then 0 else max_of (s v) d | None \<Rightarrow> 0)"

section \<open>Lemmas: unassigned variables\<close>

lemma unassigned_upd:
  "unassigned vs (a(x \<mapsto> y)) = filter (\<lambda>v. v \<noteq> x) (unassigned vs a)"
  by (induction vs) (auto simp: unassigned_def)

lemma length_unassigned_upd:
  "length (unassigned vs (a(x \<mapsto> y))) \<le> length (unassigned vs a)"
  "x \<in> set (unassigned vs a) \<Longrightarrow> length (unassigned vs (a(x \<mapsto> y))) < length (unassigned vs a)"
  by (simp_all add: unassigned_upd length_filter_less)

lemma unassigned_upd_same:
  "x \<notin> set (unassigned vs a) \<Longrightarrow> unassigned vs (a(x \<mapsto> y)) = unassigned vs a"
  by (auto simp: unassigned_upd intro: filter_True)

lemma unassigned_upd_measure:
  "x \<in> set (unassigned vs a) \<Longrightarrow> Suc (2 * length (unassigned vs (a(x \<mapsto> y)))) < 2 * length (unassigned vs a)"
  using length_unassigned_upd(2) [of x vs a y] by simp

section \<open>Lemmas: MRV\<close>

lemma mrv_scan_min_key:
  "\<forall>y \<in> set ys. ds y \<noteq> None \<Longrightarrow> ds m = Some dm \<Longrightarrow>
    mrv_scan ds m (length dm) ys = Inr (min_key (\<lambda>v. length (the (ds v))) m ys)"
proof (induction ys arbitrary: m dm)
  case Nil
  then show ?case by simp
next
  case (Cons y ys)
  then obtain dy where dy: "ds y = Some dy" by auto
  show ?case
  proof (cases "length dy < length dm")
    case True
    with Cons.IH [of y dy] Cons.prems dy show ?thesis by simp
  next
    case False
    with Cons.IH [of m dm] Cons.prems dy show ?thesis by simp
  qed
qed

lemma min_key_first:
  "\<forall>w \<in> set (takeWhile (\<lambda>x. x \<noteq> min_key f m ys) (m # ys)). f (min_key f m ys) < f w"
proof (induction ys arbitrary: m)
  case Nil
  then show ?case by simp
next
  case (Cons y ys)
  let ?m' = "if f y < f m then y else m"
  let ?r = "min_key f ?m' ys"
  have r: "min_key f m (y # ys) = ?r" by simp
  have IH: "\<forall>w \<in> set (takeWhile (\<lambda>x. x \<noteq> ?r) (?m' # ys)). f ?r < f w"
    by (rule Cons.IH)
  show ?case
  proof (cases "f y < f m")
    case True
    then show ?thesis using IH by (auto simp: r)
  next
    case False
    show ?thesis
    proof (cases "?r = m")
      case True
      then show ?thesis by (simp add: r)
    next
      case ne: False
      with IH False have "f ?r < f m" and tl: "\<forall>w \<in> set (takeWhile (\<lambda>x. x \<noteq> ?r) ys). f ?r < f w"
        by auto
      with False ne show ?thesis by (auto simp: r)
    qed
  qed
qed

lemma mrv_min_key:
  assumes "set (unassigned vs a) \<subseteq> dom ds" and "unassigned vs a = v # rest"
  shows "mrv vs ds a = Inr (min_key (\<lambda>w. length (the (ds w))) v rest)"
proof -
  from assms obtain d where d: "ds v = Some d" by auto
  from assms have all: "\<forall>y \<in> set rest. ds y \<noteq> None" by auto
  have "mrv_scan ds v (length d) rest = Inr (min_key (\<lambda>w. length (the (ds w))) v rest)"
    using mrv_scan_min_key [OF all d] .
  with assms(2) d show ?thesis by (simp add: mrv_def)
qed

lemma mrv_Inr:
  assumes "set (unassigned vs a) \<subseteq> dom ds" and "unassigned vs a \<noteq> []"
  shows "\<exists>v. mrv vs ds a = Inr v"
proof -
  from assms(2) obtain u rest where u: "unassigned vs a = u # rest"
    by (cases "unassigned vs a") auto
  with mrv_min_key [OF assms(1) u] show ?thesis by blast
qed

text \<open>
  C10: when every unassigned variable has a domain and one is unassigned, \<open>mrv\<close> (lines
  18--20) returns an unassigned variable whose current domain is smallest, and every unassigned
  variable listed before it in \<open>variables\<close> has a strictly larger domain: ties go to the
  first variable.
\<close>

theorem mrv_choice:
  assumes "set (unassigned vs a) \<subseteq> dom ds" and "unassigned vs a \<noteq> []"
  shows "\<exists>v. mrv vs ds a = Inr v \<and> v \<in> set (unassigned vs a)
    \<and> (\<forall>w \<in> set (unassigned vs a). length (the (ds v)) \<le> length (the (ds w)))
    \<and> (\<forall>w \<in> set (takeWhile (\<lambda>x. x \<noteq> v) (unassigned vs a)). length (the (ds v)) < length (the (ds w)))"
proof -
  from assms(2) obtain u rest where u: "unassigned vs a = u # rest"
    by (cases "unassigned vs a") auto
  let ?f = "\<lambda>w. length (the (ds w))"
  let ?v = "min_key ?f u rest"
  have "mrv vs ds a = Inr ?v" using assms(1) u by (rule mrv_min_key)
  moreover have "?v \<in> set (unassigned vs a)" using min_key_in [of ?f u rest] u by auto
  moreover have "\<forall>w \<in> set (unassigned vs a). ?f ?v \<le> ?f w" using min_key_le [of ?f u rest] u by auto
  moreover have "\<forall>w \<in> set (takeWhile (\<lambda>x. x \<noteq> ?v) (unassigned vs a)). ?f ?v < ?f w"
    using min_key_first [of ?f u rest] u by simp
  ultimately show ?thesis by blast
qed

lemma mrv_in_unassigned: "mrv vs ds a = Inr v \<Longrightarrow> v \<in> set (unassigned vs a)"
proof -
  assume m: "mrv vs ds a = Inr v"
  have scan: "mrv_scan ds u k ys = Inr r \<Longrightarrow> r \<in> insert u (set ys)" for u k ys r
    by (induction ys arbitrary: u k) (auto split: option.splits if_splits)
  from m show ?thesis
    by (auto simp: mrv_def split: list.splits option.splits dest!: scan)
qed

section \<open>Lemmas: consistency, wipe-out test, forward checking\<close>

lemma consistent_iff:
  "consistent cs var val a \<longleftrightarrow>
    (\<forall>(X, Y, c) \<in> set cs. (X = var \<longrightarrow> (case a Y of Some y \<Rightarrow> c val y | None \<Rightarrow> True))
                        \<and> (Y = var \<longrightarrow> (case a X of Some x \<Rightarrow> c x val | None \<Rightarrow> True)))"
  by (induction cs var val a rule: consistent.induct) (auto split: option.splits)

lemma domains_nonempty_iff:
  "set ws \<subseteq> dom pr \<Longrightarrow> domains_nonempty pr ws = Inr (\<forall>w \<in> set ws. the (pr w) \<noteq> [])"
  by (induction ws) auto

lemma restrict_dom_cond:
  "(P \<Longrightarrow> nd Y \<noteq> None) \<Longrightarrow>
    (if P then restrict_dom nd Y q else Inr nd) = Inr (\<lambda>v. map_option (filter (\<lambda>w. P \<and> v = Y \<longrightarrow> q w)) (nd v))"
  by (auto simp: restrict_dom_def fun_eq_iff split: option.splits)

lemma fc_keep_Cons:
  "fc_keep ((X, Y, c) # cs) var val a v = (\<lambda>w.
    (((X = var \<and> a Y = None) \<and> v = Y \<longrightarrow> c val w) \<and> ((Y = var \<and> a X = None) \<and> v = X \<longrightarrow> c w val))
     \<and> fc_keep cs var val a v w)"
  by (auto simp: fc_keep_def fun_eq_iff)

lemma forward_check_result:
  "fc_defined cs var a nd \<Longrightarrow>
    forward_check cs var val a nd = Inr (\<lambda>v. map_option (filter (fc_keep cs var val a v)) (nd v))"
proof (induction cs arbitrary: nd)
  case Nil
  then show ?case by (simp add: fc_keep_def option.map_ident)
next
  case (Cons con cs)
  obtain X Y c where con: "con = (X, Y, c)" by (cases con)
  let ?Q1 = "\<lambda>v w. (X = var \<and> a Y = None) \<and> v = Y \<longrightarrow> c val w"
  let ?Q2 = "\<lambda>v w. (Y = var \<and> a X = None) \<and> v = X \<longrightarrow> c w val"
  let ?nd1 = "\<lambda>v. map_option (filter (?Q1 v)) (nd v)"
  let ?nd2 = "\<lambda>v. map_option (filter (\<lambda>w. ?Q1 v w \<and> ?Q2 v w)) (nd v)"
  have s1: "(if X = var \<and> a Y = None then restrict_dom nd Y (c val) else Inr nd) = Inr ?nd1"
    using Cons.prems by (intro restrict_dom_cond) (auto simp: con fc_defined_def)
  have s2: "(if Y = var \<and> a X = None then restrict_dom ?nd1 X (\<lambda>w. c w val) else Inr ?nd1) = Inr ?nd2"
  proof -
    have "(if Y = var \<and> a X = None then restrict_dom ?nd1 X (\<lambda>w. c w val) else Inr ?nd1)
        = Inr (\<lambda>v. map_option (filter (?Q2 v)) (?nd1 v))"
      using Cons.prems by (intro restrict_dom_cond) (auto simp: con fc_defined_def)
    then show ?thesis by (simp add: option.map_comp filter_filter comp_def)
  qed
  have def2: "fc_defined cs var a ?nd2"
    using Cons.prems by (auto simp: con fc_defined_def)
  have "forward_check (con # cs) var val a nd = forward_check cs var val a ?nd2"
    by (simp only: con forward_check.simps s1 s2 sum.case(2))
  also have "\<dots> = Inr (\<lambda>v. map_option (filter (fc_keep cs var val a v)) (?nd2 v))"
    using def2 by (rule Cons.IH)
  also have "\<dots> = Inr (\<lambda>v. map_option (filter (fc_keep (con # cs) var val a v)) (nd v))"
    by (simp add: con fc_keep_Cons option.map_comp filter_filter comp_def)
  finally show ?case .
qed

lemma restrict_step_Inr:
  "(if P then restrict_dom nd v p else Inr nd) = Inr nd' \<Longrightarrow> (P \<longrightarrow> nd v \<noteq> None) \<and> dom nd' = dom nd"
  by (auto simp: restrict_dom_def split: if_splits option.splits)

lemma forward_check_defined:
  "forward_check cs var val a nd = Inr pr \<Longrightarrow> fc_defined cs var a nd"
proof (induction cs arbitrary: nd)
  case Nil
  then show ?case by (simp add: fc_defined_def)
next
  case (Cons con cs)
  obtain X Y c where con: "con = (X, Y, c)" by (cases con)
  note fc = Cons.prems [unfolded con forward_check.simps]
  obtain nd1 where s1: "(if X = var \<and> a Y = None then restrict_dom nd Y (c val) else Inr nd) = Inr nd1"
    using fc by (cases "if X = var \<and> a Y = None then restrict_dom nd Y (c val) else Inr nd")
      (simp_all only: sum.simps)
  obtain nd2 where s2: "(if Y = var \<and> a X = None then restrict_dom nd1 X (\<lambda>w. c w val) else Inr nd1) = Inr nd2"
    using fc s1 by (cases "if Y = var \<and> a X = None then restrict_dom nd1 X (\<lambda>w. c w val) else Inr nd1")
      (simp_all only: sum.simps)
  have r: "forward_check cs var val a nd2 = Inr pr"
    using fc s1 s2 by (simp only: sum.simps)
  from restrict_step_Inr [OF s1] restrict_step_Inr [OF s2] Cons.IH [OF r] show ?case
    by (auto simp: con fc_defined_def)
qed

lemma forward_check_Inr:
  "forward_check cs var val a nd = Inr pr \<Longrightarrow> pr = (\<lambda>v. map_option (filter (fc_keep cs var val a v)) (nd v))"
  using forward_check_result [OF forward_check_defined] by fastforce

section \<open>Lemmas: bound and value ordering\<close>

lemma rem_upper_sum:
  "set vs \<subseteq> dom ds \<Longrightarrow> rem_upper s ds acc vs = Inr (acc + sum_list (map (dom_max s ds) vs))"
  by (induction vs arbitrary: acc) (auto simp: dom_max_def add.assoc)

lemma dom_max_ge: "ds v = Some d \<Longrightarrow> x \<in> set d \<Longrightarrow> s v x \<le> dom_max s ds v"
  by (auto simp: dom_max_def intro: max_of_ge)

lemma sum_dom_max_ge:
  "\<forall>v \<in> set vs. \<exists>d. ds v = Some d \<and> g v \<in> set d \<Longrightarrow>
    sum_list (map (\<lambda>v. s v (g v)) vs) \<le> sum_list (map (dom_max s ds) vs)"
  by (rule sum_list_mono) (auto intro: dom_max_ge)

lemma order_values_mset: "mset (order_values f d) = mset d"
  by (simp add: order_values_def)

lemma order_values_set [simp]: "set (order_values f d) = set d"
  by (simp add: order_values_def)

lemma order_values_desc: "sorted_wrt (\<lambda>x y. f y \<le> f x) (order_values f d)"
proof -
  have "sorted (map (\<lambda>x. - f x) (order_values f d))"
    by (simp add: order_values_def)
  then show ?thesis by (simp add: sorted_map)
qed

lemma order_values_stable:
  "filter (\<lambda>y. f y = k) (order_values f d) = filter (\<lambda>y. f y = k) d"
  using sort_key_stable [of "\<lambda>x. - f x" "- k" d] by (simp add: order_values_def)

section \<open>Contracts of the helpers\<close>

text \<open>
  C11: \<open>forward_check\<close> (lines 22--29) returns without a \<open>KeyError\<close> exactly when
  every domain it reads exists, and then the domain of every variable \<open>v\<close> is the old domain
  filtered to the values \<open>w\<close> that every constraint between the newly assigned \<open>var\<close> and an
  unassigned \<open>v\<close> accepts, in either orientation; no other domain changes.
\<close>

theorem forward_check_iff:
  "forward_check cs var val a nd = Inr pr \<longleftrightarrow>
    fc_defined cs var a nd \<and> pr = (\<lambda>v. map_option (filter (fc_keep cs var val a v)) (nd v))"
  using forward_check_result [of cs var a nd val] forward_check_defined [of cs var val a nd pr]
    forward_check_Inr [of cs var val a nd pr] by blast

text \<open>
  The value order of line 50 is a permutation of the domain, sorted by descending soft
  score, and stable: values of equal score keep their order in the domain.
\<close>

theorem order_values_correct:
  "mset (order_values f d) = mset d
   \<and> sorted_wrt (\<lambda>x y. f y \<le> f x) (order_values f d)
   \<and> (\<forall>k. filter (\<lambda>y. f y = k) (order_values f d) = filter (\<lambda>y. f y = k) d)"
  using order_values_mset [of f d] order_values_desc [of f d] order_values_stable [of f _ d] by blast

end
