(* ===== verification/CSP_Search.thy ===== *)
theory CSP_Search
  imports CSP_Ops
begin

text \<open>
  The search of \<open>backtracking_csp\<close> (\<open>src/Backtracking_CSP/back_CSP.py\<close>, lines 13--71).
  The nonlocal pair \<open>best_assignment, best_score\<close> is the record \<open>best\<close>, threaded
  through the search and returned. The recursive \<open>backtrack\<close> (lines 31--67) and its
  loop over the ordered values (lines 51--67) are the mutually recursive \<open>backtrack\<close> and
  \<open>try_vals\<close>. The in-place \<open>assignment[var] = val\<close> \<dots> \<open>del assignment[var]\<close>
  pair is the argument \<open>a(var \<mapsto> val)\<close> of the recursive call, the loop itself continuing
  with \<open>a\<close>; the deep copy made by \<open>forward_check\<close> is the value semantics of HOL.
  Termination: every call of \<open>backtrack\<close> from the loop assigns one more variable.
\<close>

section \<open>The search\<close>

record ('v, 'd, 'c) best =
  best_assignment :: "('v, 'd) assignment"
  best_score :: "'c ext_score"

function backtrack ::
  "('v, 'd, 'c::linordered_ab_group_add) csp \<Rightarrow> ('v, 'd) assignment \<Rightarrow> ('v, 'd) domains \<Rightarrow> 'c
     \<Rightarrow> ('v, 'd, 'c) best \<Rightarrow> 'v py_error + ('v, 'd, 'c) best"
and try_vals ::
  "('v, 'd, 'c::linordered_ab_group_add) csp \<Rightarrow> 'v \<Rightarrow> ('v, 'd) assignment \<Rightarrow> ('v, 'd) domains \<Rightarrow> 'c
     \<Rightarrow> 'd list \<Rightarrow> ('v, 'd, 'c) best \<Rightarrow> 'v py_error + ('v, 'd, 'c) best"
where
  "backtrack P a ds sc b =
     (let un = unassigned (variables P) a in
      case rem_upper (soft_score P) ds 0 un of
        Inl e \<Rightarrow> Inl e
      | Inr ru \<Rightarrow>
          if Fin (sc + ru) \<le> best_score b then Inr b
          else if un = [] then
            (if best_score b < Fin sc then Inr (b\<lparr>best_score := Fin sc, best_assignment := a\<rparr>)
             else Inr b)
          else
            (case mrv (variables P) ds a of
               Inl e \<Rightarrow> Inl e
             | Inr var \<Rightarrow>
                 (case ds var of
                    None \<Rightarrow> Inl (KeyError var)
                  | Some d \<Rightarrow> try_vals P var a ds sc (order_values (soft_score P var) d) b)))"
| "try_vals P var a ds sc [] b = Inr b"
| "try_vals P var a ds sc (val # vals) b =
     (if \<not> consistent (constraints P) var val a then try_vals P var a ds sc vals b
      else
        (let a' = a(var \<mapsto> val); new_score = sc + soft_score P var val in
         case forward_check (constraints P) var val a' ds of
           Inl e \<Rightarrow> Inl e
         | Inr pruned \<Rightarrow>
             (case domains_nonempty pruned (unassigned (variables P) a') of
                Inl e \<Rightarrow> Inl e
              | Inr ok \<Rightarrow>
                  (case (if ok then backtrack P a' pruned new_score b else Inr b) of
                     Inl e \<Rightarrow> Inl e
                   | Inr b' \<Rightarrow> try_vals P var a ds sc vals b'))))"
  by pat_completeness auto

termination
  by (relation "measures
    [\<lambda>x. case x of
        Inl (P, a, ds, sc, b) \<Rightarrow> 2 * length (unassigned (variables P) a) + 3
      | Inr (P, var, a, ds, sc, vals, b) \<Rightarrow>
          2 * length (unassigned (variables P) a) + (if var \<in> set (unassigned (variables P) a) then 2 else 4),
     \<lambda>x. case x of Inl _ \<Rightarrow> 0 | Inr (P, var, a, ds, sc, vals, b) \<Rightarrow> length vals]")
     (auto simp: mrv_in_unassigned unassigned_upd_measure unassigned_upd_same)

declare backtrack.simps [simp del]

text \<open>Lines 13--16 and 69--71: the entry point.\<close>

definition backtracking_csp ::
  "'v list \<Rightarrow> ('v, 'd) domains \<Rightarrow> ('v, 'd) constraint list \<Rightarrow> ('v \<Rightarrow> 'd \<Rightarrow> 'c::linordered_ab_group_add)
     \<Rightarrow> 'v py_error + (('v, 'd) assignment \<times> 'c ext_score)"
where
  "backtracking_csp vs doms cs s =
     (case backtrack \<lparr>variables = vs, constraints = cs, soft_score = s\<rparr> Map.empty (init_domains vs doms) 0
             \<lparr>best_assignment = Map.empty, best_score = NegInf\<rparr> of
        Inl e \<Rightarrow> Inl e
      | Inr b \<Rightarrow> Inr (best_assignment b, best_score b))"

end
