(* ===== verification/CSP_Invariants.thy ===== *)
theory CSP_Invariants
  imports CSP_Search
begin

text \<open>
  The invariant of a call \<open>backtrack(assignment, curr_domains, curr_score)\<close> of
  \<open>src/Backtracking_CSP/back_CSP.py\<close> and the notions the correctness proofs are stated in:
  \<^item> \<open>search_inv\<close>: the variables are distinct, the assignment only binds variables,
    every variable has a domain entry, \<open>curr_score\<close> is the soft score of the assigned
    variables (spec: "current_score equals the exact sum of soft_score over the variables
    currently assigned"), and the assignment satisfies every constraint between two distinct
    assigned variables;
  \<^item> \<open>completes vs a ds c\<close>: \<open>c\<close> is a complete assignment extending \<open>a\<close> whose value for each
    unassigned variable lies in its current domain;
  \<^item> \<open>improves P a ds b b'\<close>: the record \<open>b'\<close> holds a strictly better, complete, consistent
    completion of the call's state than \<open>b\<close>.
  The lemmas show that one iteration of the value loop (lines 52--66) keeps the invariant and
  relate completions of a call to completions of its recursive calls.
\<close>

section \<open>Definitions\<close>

definition pair_ok :: "('v, 'd) constraint list \<Rightarrow> ('v, 'd) assignment \<Rightarrow> bool" where
  "pair_ok cs a \<longleftrightarrow>
     (\<forall>(X, Y, p) \<in> set cs. X \<noteq> Y \<longrightarrow>
        (case a X of None \<Rightarrow> True | Some x \<Rightarrow> (case a Y of None \<Rightarrow> True | Some y \<Rightarrow> p x y)))"

definition assigned_score :: "('v, 'd, 'c::linordered_ab_group_add) csp \<Rightarrow> ('v, 'd) assignment \<Rightarrow> 'c" where
  "assigned_score P a =
     sum_list (map (\<lambda>v. soft_score P v (the (a v))) (filter (\<lambda>v. a v \<noteq> None) (variables P)))"

definition total_score :: "('v, 'd, 'c::linordered_ab_group_add) csp \<Rightarrow> ('v, 'd) assignment \<Rightarrow> 'c" where
  "total_score P c = sum_list (map (\<lambda>v. soft_score P v (the (c v))) (variables P))"

definition search_inv ::
  "('v, 'd, 'c::linordered_ab_group_add) csp \<Rightarrow> ('v, 'd) assignment \<Rightarrow> ('v, 'd) domains \<Rightarrow> 'c \<Rightarrow> bool" where
  "search_inv P a ds sc \<longleftrightarrow>
     distinct (variables P) \<and> dom a \<subseteq> set (variables P) \<and> set (variables P) \<subseteq> dom ds
     \<and> sc = assigned_score P a \<and> pair_ok (constraints P) a"

definition completes :: "'v list \<Rightarrow> ('v, 'd) assignment \<Rightarrow> ('v, 'd) domains \<Rightarrow> ('v, 'd) assignment \<Rightarrow> bool" where
  "completes vs a ds c \<longleftrightarrow>
     (\<forall>v x. a v = Some x \<longrightarrow> c v = Some x)
     \<and> (\<forall>v \<in> set (unassigned vs a). \<exists>d w. ds v = Some d \<and> c v = Some w \<and> w \<in> set d)
     \<and> dom c \<subseteq> set vs"

definition improves ::
  "('v, 'd, 'c::linordered_ab_group_add) csp \<Rightarrow> ('v, 'd) assignment \<Rightarrow> ('v, 'd) domains
     \<Rightarrow> ('v, 'd, 'c) best \<Rightarrow> ('v, 'd, 'c) best \<Rightarrow> bool" where
  "improves P a ds b b' \<longleftrightarrow>
     best_score b < best_score b' \<and> best_score b' = Fin (total_score P (best_assignment b'))
     \<and> completes (variables P) a ds (best_assignment b') \<and> pair_ok (constraints P) (best_assignment b')"

definition cons_in_vars :: "('v, 'd, 'c) csp \<Rightarrow> bool" where
  "cons_in_vars P \<longleftrightarrow> (\<forall>(X, Y, p) \<in> set (constraints P). X \<in> set (variables P) \<and> Y \<in> set (variables P))"

section \<open>Sums\<close>

lemma sum_list_filter_partition:
  "sum_list (map f xs) = sum_list (map f (filter P xs)) + sum_list (map f (filter (\<lambda>x. \<not> P x) xs))"
  for f :: "'a \<Rightarrow> 'b::comm_monoid_add"
  by (induction xs) (simp_all add: ac_simps)

lemma sum_list_filter_cong:
  "(\<And>x. x \<in> set xs \<Longrightarrow> P x \<Longrightarrow> f x = g x) \<Longrightarrow> sum_list (map f (filter P xs)) = sum_list (map g (filter P xs))"
  by (induction xs) auto

lemma sum_assigned_upd_other:
  "var \<notin> set xs \<Longrightarrow>
    sum_list (map (\<lambda>v. s v (the ((a(var \<mapsto> val)) v))) (filter (\<lambda>v. (a(var \<mapsto> val)) v \<noteq> None) xs))
    = sum_list (map (\<lambda>v. s v (the (a v))) (filter (\<lambda>v. a v \<noteq> None) xs))"
  by (induction xs) auto

lemma assigned_score_upd:
  fixes P :: "('v, 'd, 'c::linordered_ab_group_add) csp"
  assumes "distinct (variables P)" and "var \<in> set (unassigned (variables P) a)"
  shows "assigned_score P (a(var \<mapsto> val)) = assigned_score P a + soft_score P var val"
proof -
  have "distinct vs \<Longrightarrow> var \<in> set vs \<Longrightarrow> a var = None \<Longrightarrow>
      sum_list (map (\<lambda>v. s v (the ((a(var \<mapsto> val)) v))) (filter (\<lambda>v. (a(var \<mapsto> val)) v \<noteq> None) vs))
      = sum_list (map (\<lambda>v. s v (the (a v))) (filter (\<lambda>v. a v \<noteq> None) vs)) + s var val"
    for vs and s :: "'v \<Rightarrow> 'd \<Rightarrow> 'c::linordered_ab_group_add"
  proof (induction vs)
    case Nil
    then show ?case by simp
  next
    case (Cons x xs)
    show ?case
    proof (cases "x = var")
      case True
      with Cons.prems have "var \<notin> set xs" by simp
      then have "sum_list (map (\<lambda>v. s v (the ((a(var \<mapsto> val)) v))) (filter (\<lambda>v. (a(var \<mapsto> val)) v \<noteq> None) xs))
          = sum_list (map (\<lambda>v. s v (the (a v))) (filter (\<lambda>v. a v \<noteq> None) xs))"
        by (rule sum_assigned_upd_other)
      with True Cons.prems show ?thesis by (simp add: add.commute)
    next
      case False
      with Cons show ?thesis by (simp add: ac_simps)
    qed
  qed
  with assms show ?thesis by (simp add: assigned_score_def unassigned_def)
qed

section \<open>The invariant\<close>

lemma pair_okD:
  "pair_ok cs c \<Longrightarrow> (X, Y, p) \<in> set cs \<Longrightarrow> X \<noteq> Y \<Longrightarrow> c X = Some x \<Longrightarrow> c Y = Some y \<Longrightarrow> p x y"
  unfolding pair_ok_def by fastforce

lemma pair_ok_upd:
  "pair_ok cs a \<Longrightarrow> consistent cs var val a \<Longrightarrow> a var = None \<Longrightarrow> pair_ok cs (a(var \<mapsto> val))"
  unfolding pair_ok_def consistent_iff
  by (fastforce split: option.splits)

lemma search_inv_dom:
  "search_inv P a ds sc \<Longrightarrow> set (unassigned (variables P) a) \<subseteq> dom ds"
  by (auto simp: search_inv_def unassigned_def)

lemma search_inv_step:
  assumes inv: "search_inv P a ds sc" and var: "var \<in> set (unassigned (variables P) a)"
    and con: "consistent (constraints P) var val a"
    and fc: "forward_check (constraints P) var val (a(var \<mapsto> val)) ds = Inr pr"
  shows "search_inv P (a(var \<mapsto> val)) pr (sc + soft_score P var val)"
proof -
  from fc have "dom pr = dom ds" by (auto dest!: forward_check_Inr)
  moreover from var have "var \<in> set (variables P)" and "a var = None" by (auto simp: unassigned_def)
  ultimately show ?thesis
    using inv var con by (auto simp: search_inv_def assigned_score_upd pair_ok_upd)
qed

lemma forward_check_total:
  "search_inv P a ds sc \<Longrightarrow> cons_in_vars P \<Longrightarrow>
    forward_check (constraints P) var val a' ds = Inr (\<lambda>v. map_option (filter (fc_keep (constraints P) var val a' v)) (ds v))"
  by (rule forward_check_result) (fastforce simp: fc_defined_def cons_in_vars_def search_inv_def)

lemma total_score_complete:
  "search_inv P a ds sc \<Longrightarrow> unassigned (variables P) a = [] \<Longrightarrow> total_score P a = sc"
proof -
  assume inv: "search_inv P a ds sc" and un: "unassigned (variables P) a = []"
  from un have "filter (\<lambda>v. a v \<noteq> None) (variables P) = variables P"
    by (simp add: unassigned_def filter_empty_conv)
  with inv show ?thesis by (simp add: search_inv_def assigned_score_def total_score_def)
qed

lemma total_split:
  assumes inv: "search_inv P a ds sc" and c: "completes (variables P) a ds c"
  shows "total_score P c = sc + sum_list (map (\<lambda>v. soft_score P v (the (c v))) (unassigned (variables P) a))"
proof -
  let ?f = "\<lambda>v. soft_score P v (the (c v))" and ?g = "\<lambda>v. soft_score P v (the (a v))"
  have "sum_list (map ?f (filter (\<lambda>v. a v \<noteq> None) (variables P)))
      = sum_list (map ?g (filter (\<lambda>v. a v \<noteq> None) (variables P)))"
    using c by (intro sum_list_filter_cong) (auto simp: completes_def)
  then have "sum_list (map ?f (filter (\<lambda>v. a v \<noteq> None) (variables P))) = sc"
    using inv by (simp add: search_inv_def assigned_score_def)
  then show ?thesis
    using sum_list_filter_partition [of ?f "variables P" "\<lambda>v. a v \<noteq> None"]
    by (simp add: total_score_def unassigned_def)
qed

lemma prune_sound:
  assumes inv: "search_inv P a ds sc" and c: "completes (variables P) a ds c"
    and ru: "rem_upper (soft_score P) ds 0 (unassigned (variables P) a) = Inr ru"
  shows "total_score P c \<le> sc + ru"
proof -
  have ru_eq: "ru = sum_list (map (dom_max (soft_score P) ds) (unassigned (variables P) a))"
    using ru rem_upper_sum [OF search_inv_dom [OF inv], of "soft_score P" 0] by simp
  from c have "\<forall>v \<in> set (unassigned (variables P) a). \<exists>d. ds v = Some d \<and> the (c v) \<in> set d"
    by (fastforce simp: completes_def)
  then have "sum_list (map (\<lambda>v. soft_score P v (the (c v))) (unassigned (variables P) a)) \<le> ru"
    unfolding ru_eq by (rule sum_dom_max_ge)
  with total_split [OF inv c] show ?thesis by simp
qed

section \<open>Completions\<close>

lemma completes_step:
  assumes c: "completes vs (a(var \<mapsto> val)) pr c" and var: "var \<in> set (unassigned vs a)"
    and d: "ds var = Some d" and val: "val \<in> set d"
    and pr: "pr = (\<lambda>v. map_option (filter (q v)) (ds v))"
  shows "completes vs a ds c"
proof -
  from var have av: "a var = None" by (simp add: unassigned_def)
  have "\<forall>v x. a v = Some x \<longrightarrow> c v = Some x"
  proof (intro allI impI)
    fix v x assume ax: "a v = Some x"
    with av have "v \<noteq> var" by auto
    with ax have "(a(var \<mapsto> val)) v = Some x" by simp
    with c show "c v = Some x" unfolding completes_def by blast
  qed
  moreover have "\<forall>v \<in> set (unassigned vs a). \<exists>d w. ds v = Some d \<and> c v = Some w \<and> w \<in> set d"
  proof
    fix v assume v: "v \<in> set (unassigned vs a)"
    show "\<exists>d w. ds v = Some d \<and> c v = Some w \<and> w \<in> set d"
    proof (cases "v = var")
      case True
      with c d val show ?thesis by (auto simp: completes_def)
    next
      case False
      with v have "v \<in> set (unassigned vs (a(var \<mapsto> val)))" by (simp add: unassigned_upd)
      with c pr show ?thesis by (auto simp: completes_def)
    qed
  qed
  moreover have "dom c \<subseteq> set vs" using c by (simp add: completes_def)
  ultimately show ?thesis by (simp add: completes_def)
qed

lemma completes_complete_eq:
  "search_inv P a ds sc \<Longrightarrow> unassigned (variables P) a = [] \<Longrightarrow> completes (variables P) a ds c \<Longrightarrow> c = a"
proof
  fix v
  assume inv: "search_inv P a ds sc" and un: "unassigned (variables P) a = []"
    and c: "completes (variables P) a ds c"
  show "c v = a v"
  proof (cases "a v")
    case None
    with un have "v \<notin> set (variables P)" by (auto simp: unassigned_def filter_empty_conv)
    with c None show ?thesis by (auto simp: completes_def)
  next
    case (Some x)
    with c show ?thesis by (auto simp: completes_def)
  qed
qed

lemma completes_step_down:
  assumes c: "completes vs a ds c" and ok: "pair_ok cs c" and cv: "c var = Some val"
    and var: "var \<in> set (unassigned vs a)"
    and fc: "forward_check cs var val (a(var \<mapsto> val)) ds = Inr pr"
  shows "completes vs (a(var \<mapsto> val)) pr c"
proof -
  have pr: "pr = (\<lambda>v. map_option (filter (fc_keep cs var val (a(var \<mapsto> val)) v)) (ds v))"
    using fc by (rule forward_check_Inr)
  have "\<forall>v x. (a(var \<mapsto> val)) v = Some x \<longrightarrow> c v = Some x"
    using c cv by (simp add: completes_def)
  moreover have "\<exists>d w. pr v = Some d \<and> c v = Some w \<and> w \<in> set d"
    if v: "v \<in> set (unassigned vs (a(var \<mapsto> val)))" for v
  proof -
    from v have vne: "v \<noteq> var" and v0: "v \<in> set (unassigned vs a)" by (auto simp: unassigned_upd)
    with c obtain d w where d: "ds v = Some d" and w: "c v = Some w" and wd: "w \<in> set d"
      by (auto simp: completes_def)
    have "fc_keep cs var val (a(var \<mapsto> val)) v w"
      unfolding fc_keep_def
    proof (intro ballI, clarify, intro conjI impI)
      fix X Y p
      assume con: "(X, Y, p) \<in> set cs"
      {
        assume "X = var \<and> Y = v \<and> (a(var \<mapsto> val)) v = None"
        with pair_okD [OF ok con] cv w vne show "p val w" by auto
      next
        assume "Y = var \<and> X = v \<and> (a(var \<mapsto> val)) v = None"
        with pair_okD [OF ok con] cv w vne show "p w val" by auto
      }
    qed
    with d w wd pr show ?thesis by auto
  qed
  moreover have "dom c \<subseteq> set vs" using c by (simp add: completes_def)
  ultimately show ?thesis by (simp add: completes_def)
qed

lemma consistent_of_completion:
  assumes c: "completes vs a ds c" and ok: "pair_ok cs c" and cv: "c var = Some val"
    and var: "var \<in> set (unassigned vs a)"
  shows "consistent cs var val a"
proof -
  from var have av: "a var = None" by (simp add: unassigned_def)
  have agree: "a v = Some x \<Longrightarrow> c v = Some x" for v x
    using c by (simp add: completes_def)
  show ?thesis
    unfolding consistent_iff
  proof (intro ballI, clarify, intro conjI impI)
    fix X Y p
    assume con: "(X, Y, p) \<in> set cs"
    {
      assume X: "X = var"
      show "case a Y of None \<Rightarrow> True | Some y \<Rightarrow> p val y"
      proof (cases "a Y")
        case (Some y)
        with av X have "X \<noteq> Y" by auto
        from pair_okD [OF ok con this] cv X agree [OF Some] Some show ?thesis by simp
      qed simp
    next
      assume Y: "Y = var"
      show "case a X of None \<Rightarrow> True | Some x \<Rightarrow> p x val"
      proof (cases "a X")
        case (Some x)
        with av Y have "X \<noteq> Y" by auto
        from pair_okD [OF ok con this] cv Y agree [OF Some] Some show ?thesis by simp
      qed simp
    }
  qed
qed

lemma domains_nonempty_completion:
  assumes inv: "search_inv P a ds sc" and c: "completes (variables P) a ds c"
  shows "domains_nonempty ds (unassigned (variables P) a) = Inr True"
proof -
  from inv have "set (unassigned (variables P) a) \<subseteq> dom ds"
    by (auto simp: search_inv_def unassigned_def)
  moreover have "\<forall>w \<in> set (unassigned (variables P) a). the (ds w) \<noteq> []"
  proof
    fix w assume "w \<in> set (unassigned (variables P) a)"
    with c obtain d x where "ds w = Some d" and "x \<in> set d" by (auto simp: completes_def)
    then show "the (ds w) \<noteq> []" by auto
  qed
  ultimately show ?thesis by (simp add: domains_nonempty_iff)
qed

lemma improves_trans:
  "improves P a ds b1 b' \<Longrightarrow> b1 = b \<or> improves P a ds b b1 \<Longrightarrow> improves P a ds b b'"
  by (auto simp: improves_def) (metis ext_score_less_simps(3) order.strict_trans)

lemma improves_complete:
  assumes inv: "search_inv P a ds sc" and un: "unassigned (variables P) a = []"
    and lt: "best_score b < Fin sc"
  shows "improves P a ds b (b\<lparr>best_score := Fin sc, best_assignment := a\<rparr>)"
proof -
  from un have all: "filter (\<lambda>v. a v \<noteq> None) (variables P) = variables P"
    by (simp add: unassigned_def filter_empty_conv)
  from inv all have "total_score P a = sc"
    by (simp add: search_inv_def assigned_score_def total_score_def)
  moreover from inv un have "completes (variables P) a ds a"
    by (simp add: search_inv_def completes_def)
  ultimately show ?thesis using inv lt by (simp add: improves_def search_inv_def)
qed

lemma improves_step:
  "improves P (a(var \<mapsto> val)) pr b b' \<Longrightarrow> var \<in> set (unassigned (variables P) a) \<Longrightarrow> ds var = Some d
    \<Longrightarrow> val \<in> set d \<Longrightarrow> pr = (\<lambda>v. map_option (filter (q v)) (ds v)) \<Longrightarrow> improves P a ds b b'"
  unfolding improves_def
  using completes_step [of "variables P" a var val pr "best_assignment b'" ds d q] by blast

end
