(* ===== verification/CSP_Reference.thy ===== *)
theory CSP_Reference
  imports CSP_Invariants
begin

text \<open>
  The reference search: the recursion of \<open>backtrack\<close> with the optimistic bound of
  lines 34--40 removed (the ablation of spec section 4.1, "removing steps \<dots> 7 should still
  yield the same answer") and the value order a parameter \<open>ord\<close>. It is not code of the
  repository; it is the specification the optimised search is proved equal to. Its lemmas:
  every change of the best record is a strict improvement by a consistent completion
  (\<open>search_nb_sound\<close>), every consistent completion is bounded by the final best score
  (\<open>search_nb_complete\<close>), it raises no error when the constraints only mention variables
  (\<open>search_nb_total\<close>), and a state whose bound does not beat the best score leaves the
  record unchanged (\<open>search_nb_pruned\<close>).
\<close>

function search_nb ::
  "('v \<Rightarrow> 'd list \<Rightarrow> 'd list) \<Rightarrow> ('v, 'd, 'c::linordered_ab_group_add) csp \<Rightarrow> ('v, 'd) assignment
     \<Rightarrow> ('v, 'd) domains \<Rightarrow> 'c \<Rightarrow> ('v, 'd, 'c) best \<Rightarrow> 'v py_error + ('v, 'd, 'c) best"
and try_nb ::
  "('v \<Rightarrow> 'd list \<Rightarrow> 'd list) \<Rightarrow> ('v, 'd, 'c::linordered_ab_group_add) csp \<Rightarrow> 'v \<Rightarrow> ('v, 'd) assignment
     \<Rightarrow> ('v, 'd) domains \<Rightarrow> 'c \<Rightarrow> 'd list \<Rightarrow> ('v, 'd, 'c) best \<Rightarrow> 'v py_error + ('v, 'd, 'c) best"
where
  "search_nb ord P a ds sc b =
     (if unassigned (variables P) a = [] then
        (if best_score b < Fin sc then Inr (b\<lparr>best_score := Fin sc, best_assignment := a\<rparr>) else Inr b)
      else
        (case mrv (variables P) ds a of
           Inl e \<Rightarrow> Inl e
         | Inr var \<Rightarrow>
             (case ds var of
                None \<Rightarrow> Inl (KeyError var)
              | Some d \<Rightarrow> try_nb ord P var a ds sc (ord var d) b)))"
| "try_nb ord P var a ds sc [] b = Inr b"
| "try_nb ord P var a ds sc (val # vals) b =
     (if \<not> consistent (constraints P) var val a then try_nb ord P var a ds sc vals b
      else
        (let a' = a(var \<mapsto> val); new_score = sc + soft_score P var val in
         case forward_check (constraints P) var val a' ds of
           Inl e \<Rightarrow> Inl e
         | Inr pruned \<Rightarrow>
             (case domains_nonempty pruned (unassigned (variables P) a') of
                Inl e \<Rightarrow> Inl e
              | Inr ok \<Rightarrow>
                  (case (if ok then search_nb ord P a' pruned new_score b else Inr b) of
                     Inl e \<Rightarrow> Inl e
                   | Inr b' \<Rightarrow> try_nb ord P var a ds sc vals b'))))"
  by pat_completeness auto

termination
  by (relation "measures
    [\<lambda>x. case x of
        Inl (ord, P, a, ds, sc, b) \<Rightarrow> 2 * length (unassigned (variables P) a) + 3
      | Inr (ord, P, var, a, ds, sc, vals, b) \<Rightarrow>
          2 * length (unassigned (variables P) a) + (if var \<in> set (unassigned (variables P) a) then 2 else 4),
     \<lambda>x. case x of Inl _ \<Rightarrow> 0 | Inr (ord, P, var, a, ds, sc, vals, b) \<Rightarrow> length vals]")
     (auto simp: mrv_in_unassigned unassigned_upd_measure unassigned_upd_same)

declare search_nb.simps(1) [simp del]

text \<open>The entry point of the reference search, as \<open>backtracking_csp\<close> starts \<open>backtrack\<close>.\<close>

definition solve_nb ::
  "('v \<Rightarrow> 'd list \<Rightarrow> 'd list) \<Rightarrow> 'v list \<Rightarrow> ('v, 'd) domains \<Rightarrow> ('v, 'd) constraint list
     \<Rightarrow> ('v \<Rightarrow> 'd \<Rightarrow> 'c::linordered_ab_group_add) \<Rightarrow> 'v py_error + (('v, 'd) assignment \<times> 'c ext_score)"
where
  "solve_nb ord vs doms cs s =
     (case search_nb ord \<lparr>variables = vs, constraints = cs, soft_score = s\<rparr> Map.empty (init_domains vs doms) 0
             \<lparr>best_assignment = Map.empty, best_score = NegInf\<rparr> of
        Inl e \<Rightarrow> Inl e
      | Inr b \<Rightarrow> Inr (best_assignment b, best_score b))"

lemma search_nb_sound:
  "search_inv P a ds sc \<Longrightarrow> \<forall>v d. set (ord v d) \<subseteq> set d \<Longrightarrow> search_nb ord P a ds sc b = Inr b'
    \<Longrightarrow> b' = b \<or> improves P a ds b b'"
  "search_inv P a ds sc \<Longrightarrow> \<forall>v d. set (ord v d) \<subseteq> set d \<Longrightarrow> var \<in> set (unassigned (variables P) a)
    \<Longrightarrow> ds var = Some d \<Longrightarrow> set vals \<subseteq> set d \<Longrightarrow> try_nb ord P var a ds sc vals b = Inr b'
    \<Longrightarrow> b' = b \<or> improves P a ds b b'"
proof (induction ord P a ds sc b and ord P var a ds sc vals b arbitrary: b' and d b'
    rule: search_nb_try_nb.induct)
  case (1 ord P a ds sc b)
  show ?case
  proof (cases "unassigned (variables P) a = []")
    case True
    with "1.prems"(3) show ?thesis
      by (auto simp: search_nb.simps [of ord P a ds sc b] intro: improves_complete [OF "1.prems"(1)]
          split: if_splits)
  next
    case False
    from "1.prems"(3) False obtain var d where m: "mrv (variables P) ds a = Inr var"
      and d: "ds var = Some d" and t: "try_nb ord P var a ds sc (ord var d) b = Inr b'"
      by (auto simp: search_nb.simps [of ord P a ds sc b] split: sum.splits option.splits)
    from m have var: "var \<in> set (unassigned (variables P) a)" by (rule mrv_in_unassigned)
    from "1.prems"(2) have "set (ord var d) \<subseteq> set d" by blast
    with "1.IH" [OF False m d "1.prems"(1,2) var d _ t] show ?thesis by blast
  qed
next
  case (2 ord P var a ds sc b)
  then show ?case by simp
next
  case (3 ord P var a ds sc val vals b)
  note prems = "3.prems"
  from prems(5) have val: "val \<in> set d" and vals: "set vals \<subseteq> set d" by auto
  show ?case
  proof (cases "consistent (constraints P) var val a")
    case False
    with prems have "try_nb ord P var a ds sc vals b = Inr b'" by simp
    with "3.IH"(1) [OF False prems(1-4) vals] show ?thesis by blast
  next
    case con: True
    let ?a' = "a(var \<mapsto> val)" and ?sc' = "sc + soft_score P var val"
    from prems(6) con obtain pr ok b1 where
        fc: "forward_check (constraints P) var val ?a' ds = Inr pr"
      and dn: "domains_nonempty pr (unassigned (variables P) ?a') = Inr ok"
      and s: "(if ok then search_nb ord P ?a' pr ?sc' b else Inr b) = Inr b1"
      and t: "try_nb ord P var a ds sc vals b1 = Inr b'"
      by (simp add: Let_def split: sum.splits)
    have inv': "search_inv P ?a' pr ?sc'"
      using prems(1,3) con fc by (rule search_inv_step)
    have step1: "b1 = b \<or> improves P a ds b b1"
    proof (cases ok)
      case ok: True
      with s have sb: "search_nb ord P ?a' pr ?sc' b = Inr b1" by simp
      from "3.IH"(2) [of ?a' ?sc' pr ok b1] con fc dn ok inv' prems(2) sb
      have "b1 = b \<or> improves P ?a' pr b b1" by blast
      then show ?thesis
      proof
        assume "improves P ?a' pr b b1"
        then have "improves P a ds b b1"
          by (rule improves_step [OF _ prems(3,4) val forward_check_Inr [OF fc]])
        then show ?thesis ..
      qed simp
    next
      case False
      with s show ?thesis by simp
    qed
    from "3.IH"(3) [of ?a' ?sc' pr ok b1 d b'] con fc dn s prems(1-4) vals t
    have "b' = b1 \<or> improves P a ds b1 b'" by blast
    with step1 show ?thesis using improves_trans by blast
  qed
qed

lemma search_nb_mono:
  assumes "search_inv P a ds sc" "\<forall>v d. set (ord v d) \<subseteq> set d" "var \<in> set (unassigned (variables P) a)"
    "ds var = Some d" "set vals \<subseteq> set d" "try_nb ord P var a ds sc vals b = Inr b'"
  shows "best_score b \<le> best_score b'"
  using search_nb_sound(2) [OF assms] by (auto simp: improves_def)

lemma search_nb_complete:
  "search_inv P a ds sc \<Longrightarrow> \<forall>v d. set (ord v d) = set d \<Longrightarrow> search_nb ord P a ds sc b = Inr b'
    \<Longrightarrow> completes (variables P) a ds c \<Longrightarrow> pair_ok (constraints P) c
    \<Longrightarrow> Fin (total_score P c) \<le> best_score b'"
  "search_inv P a ds sc \<Longrightarrow> \<forall>v d. set (ord v d) = set d \<Longrightarrow> var \<in> set (unassigned (variables P) a)
    \<Longrightarrow> ds var = Some d \<Longrightarrow> set vals \<subseteq> set d \<Longrightarrow> try_nb ord P var a ds sc vals b = Inr b'
    \<Longrightarrow> completes (variables P) a ds c \<Longrightarrow> pair_ok (constraints P) c \<Longrightarrow> c var \<in> Some ` set vals
    \<Longrightarrow> Fin (total_score P c) \<le> best_score b'"
proof (induction ord P a ds sc b and ord P var a ds sc vals b arbitrary: b' and d b'
    rule: search_nb_try_nb.induct)
  case (1 ord P a ds sc b)
  note prems = "1.prems"
  show ?case
  proof (cases "unassigned (variables P) a = []")
    case True
    from prems(1) True prems(4) have "c = a" by (rule completes_complete_eq)
    moreover from prems(1) True have "total_score P a = sc" by (rule total_score_complete)
    ultimately show ?thesis
      using prems(3) True by (auto simp: search_nb.simps [of ord P a ds sc b] split: if_splits)
  next
    case False
    from prems(3) False obtain var d where m: "mrv (variables P) ds a = Inr var"
      and d: "ds var = Some d" and t: "try_nb ord P var a ds sc (ord var d) b = Inr b'"
      by (auto simp: search_nb.simps [of ord P a ds sc b] split: sum.splits option.splits)
    from m have var: "var \<in> set (unassigned (variables P) a)" by (rule mrv_in_unassigned)
    from prems(2) have sub: "set (ord var d) \<subseteq> set d" by blast
    from prems(4) var d have "c var \<in> Some ` set d" by (auto simp: completes_def)
    with prems(2) have cv: "c var \<in> Some ` set (ord var d)" by blast
    from "1.IH" [OF False m d prems(1,2) var d sub t prems(4,5) cv] show ?thesis .
  qed
next
  case (2 ord P var a ds sc b)
  then show ?case by simp
next
  case (3 ord P var a ds sc val vals b)
  note prems = "3.prems"
  from prems(2) have ord_sub: "\<forall>v d. set (ord v d) \<subseteq> set d" by blast
  from prems(5) have val: "val \<in> set d" and vals: "set vals \<subseteq> set d" by auto
  from prems(9) obtain w where cw: "c var = Some w" and w: "w \<in> set (val # vals)" by auto
  show ?case
  proof (cases "consistent (constraints P) var val a")
    case False
    have "w \<noteq> val"
    proof
      assume "w = val"
      with cw have "c var = Some val" by simp
      with prems(7,8) have "consistent (constraints P) var val a" using prems(3)
        by (rule consistent_of_completion)
      with False show False ..
    qed
    with w cw have cv: "c var \<in> Some ` set vals" by auto
    from prems(6) False have "try_nb ord P var a ds sc vals b = Inr b'" by simp
    from "3.IH"(1) [OF False prems(1-4) vals this prems(7,8) cv] show ?thesis .
  next
    case con: True
    let ?a' = "a(var \<mapsto> val)" and ?sc' = "sc + soft_score P var val"
    from prems(6) con obtain pr ok b1 where
        fc: "forward_check (constraints P) var val ?a' ds = Inr pr"
      and dn: "domains_nonempty pr (unassigned (variables P) ?a') = Inr ok"
      and s: "(if ok then search_nb ord P ?a' pr ?sc' b else Inr b) = Inr b1"
      and t: "try_nb ord P var a ds sc vals b1 = Inr b'"
      by (simp add: Let_def split: sum.splits)
    have inv': "search_inv P ?a' pr ?sc'"
      using prems(1,3) con fc by (rule search_inv_step)
    have b1b': "best_score b1 \<le> best_score b'"
      using prems(1) ord_sub prems(3,4) vals t by (rule search_nb_mono)
    show ?thesis
    proof (cases "w = val")
      case True
      with cw have cv: "c var = Some val" by simp
      have c': "completes (variables P) ?a' pr c"
        using prems(7,8) cv prems(3) fc by (rule completes_step_down)
      from domains_nonempty_completion [OF inv' c'] dn have ok by simp
      with s have sb: "search_nb ord P ?a' pr ?sc' b = Inr b1" by simp
      from "3.IH"(2) [of ?a' ?sc' pr ok b1] con fc dn \<open>ok\<close> inv' prems(2) sb c' prems(8)
      have "Fin (total_score P c) \<le> best_score b1" by blast
      then show ?thesis using b1b' by (rule order_trans)
    next
      case False
      with w cw have cv: "c var \<in> Some ` set vals" by auto
      from "3.IH"(3) [of ?a' ?sc' pr ok b1 d b'] con fc dn s prems(1-4) vals t prems(7,8) cv
      show ?thesis by blast
    qed
  qed
qed

lemma search_nb_total:
  "search_inv P a ds sc \<Longrightarrow> cons_in_vars P \<Longrightarrow> \<exists>b'. search_nb ord P a ds sc b = Inr b'"
  "search_inv P a ds sc \<Longrightarrow> cons_in_vars P \<Longrightarrow> var \<in> set (unassigned (variables P) a)
    \<Longrightarrow> \<exists>b'. try_nb ord P var a ds sc vals b = Inr b'"
proof (induction ord P a ds sc b and ord P var a ds sc vals b rule: search_nb_try_nb.induct)
  case (1 ord P a ds sc b)
  show ?case
  proof (cases "unassigned (variables P) a = []")
    case True
    then show ?thesis by (simp add: search_nb.simps [of ord P a ds sc b])
  next
    case False
    from mrv_Inr [OF search_inv_dom [OF "1.prems"(1)] False] obtain var
      where m: "mrv (variables P) ds a = Inr var" by blast
    then have var: "var \<in> set (unassigned (variables P) a)" by (rule mrv_in_unassigned)
    with "1.prems"(1) obtain d where d: "ds var = Some d"
      by (auto simp: search_inv_def unassigned_def)
    from "1.IH" [OF False m d "1.prems" var] False m d show ?thesis
      by (simp add: search_nb.simps [of ord P a ds sc b])
  qed
next
  case (2 ord P var a ds sc b)
  then show ?case by simp
next
  case (3 ord P var a ds sc val vals b)
  note prems = "3.prems"
  show ?case
  proof (cases "consistent (constraints P) var val a")
    case False
    with "3.IH"(1) [OF False prems] show ?thesis by simp
  next
    case con: True
    let ?a' = "a(var \<mapsto> val)" and ?sc' = "sc + soft_score P var val"
    let ?pr = "\<lambda>v. map_option (filter (fc_keep (constraints P) var val ?a' v)) (ds v)"
    have fc: "forward_check (constraints P) var val ?a' ds = Inr ?pr"
      using prems(1,2) by (rule forward_check_total)
    have inv': "search_inv P ?a' ?pr ?sc'"
      using prems(1,3) con fc by (rule search_inv_step)
    have dn: "domains_nonempty ?pr (unassigned (variables P) ?a')
        = Inr (\<forall>w \<in> set (unassigned (variables P) ?a'). the (?pr w) \<noteq> [])"
      using search_inv_dom [OF inv'] by (rule domains_nonempty_iff)
    from con have nn: "\<not> \<not> consistent (constraints P) var val a" by simp
    let ?ok = "\<forall>w \<in> set (unassigned (variables P) ?a'). the (?pr w) \<noteq> []"
    obtain b1 where s: "(if ?ok then search_nb ord P ?a' ?pr ?sc' b else Inr b) = Inr b1"
    proof (cases ?ok)
      case True
      from "3.IH"(2) [OF nn refl refl fc dn True inv' prems(2)] obtain b1
        where "search_nb ord P ?a' ?pr ?sc' b = Inr b1" by blast
      with True that show ?thesis by simp
    next
      case False
      with that show ?thesis by simp
    qed
    from "3.IH"(3) [OF nn refl refl fc dn s prems] obtain b' where
      "try_nb ord P var a ds sc vals b1 = Inr b'" by blast
    with con fc dn s show ?thesis by (auto simp: Let_def)
  qed
qed

lemma search_nb_pruned:
  assumes inv: "search_inv P a ds sc" and cv: "cons_in_vars P" and ord: "\<forall>v d. set (ord v d) \<subseteq> set d"
    and ru: "rem_upper (soft_score P) ds 0 (unassigned (variables P) a) = Inr ru"
    and le: "Fin (sc + ru) \<le> best_score b"
  shows "search_nb ord P a ds sc b = Inr b"
proof -
  from search_nb_total(1) [OF inv cv] obtain b' where r: "search_nb ord P a ds sc b = Inr b'" by blast
  from search_nb_sound(1) [OF inv ord r] have "b' = b \<or> improves P a ds b b'" .
  moreover have "\<not> improves P a ds b b'"
  proof
    assume imp: "improves P a ds b b'"
    then have "completes (variables P) a ds (best_assignment b')" by (simp add: improves_def)
    from prune_sound [OF inv this ru] have tle: "total_score P (best_assignment b') \<le> sc + ru" .
    from imp have "best_score b < Fin (total_score P (best_assignment b'))" by (auto simp: improves_def)
    also from tle have "\<dots> \<le> Fin (sc + ru)" by simp
    also note le
    finally show False by simp
  qed
  ultimately show ?thesis using r by simp
qed

end
