(* ===== verification/CSP_Equivalence.thy ===== *)
theory CSP_Equivalence
  imports CSP_Reference
begin

text \<open>
  The optimised search \<open>backtrack\<close> of \<open>src/Backtracking_CSP/back_CSP.py\<close>, with its
  optimistic-bound pruning and its descending value order, computes exactly the result of
  the reference search without pruning that uses the same value order. The properties of the
  reference search carry over to \<open>backtrack\<close> through this equation.
\<close>

lemma backtrack_eq_search_nb:
  "search_inv P a ds sc \<Longrightarrow> cons_in_vars P \<Longrightarrow>
    backtrack P a ds sc b = search_nb (\<lambda>v. order_values (soft_score P v)) P a ds sc b"
  "search_inv P a ds sc \<Longrightarrow> cons_in_vars P \<Longrightarrow> var \<in> set (unassigned (variables P) a) \<Longrightarrow>
    try_vals P var a ds sc vals b = try_nb (\<lambda>v. order_values (soft_score P v)) P var a ds sc vals b"
proof (induction P a ds sc b and P var a ds sc vals b rule: backtrack_try_vals.induct)
  case (1 P a ds sc b)
  note prems = "1.prems"
  let ?ord = "\<lambda>v. order_values (soft_score P v)"
  let ?un = "unassigned (variables P) a"
  let ?ru = "0 + sum_list (map (dom_max (soft_score P) ds) ?un)"
  have ru: "rem_upper (soft_score P) ds 0 ?un = Inr ?ru"
    using search_inv_dom [OF prems(1)] by (rule rem_upper_sum)
  have ord: "\<forall>v d. set (?ord v d) \<subseteq> set d" by simp
  show ?case
  proof (cases "Fin (sc + ?ru) \<le> best_score b")
    case True
    with ru have "backtrack P a ds sc b = Inr b"
      by (simp add: backtrack.simps [of P a ds sc b])
    moreover from search_nb_pruned [OF prems ord ru True] have "search_nb ?ord P a ds sc b = Inr b" .
    ultimately show ?thesis by simp
  next
    case nprune: False
    show ?thesis
    proof (cases "?un = []")
      case True
      with ru nprune show ?thesis
        by (simp add: backtrack.simps [of P a ds sc b] search_nb.simps [of ?ord P a ds sc b])
    next
      case False
      from mrv_Inr [OF search_inv_dom [OF prems(1)] False] obtain var
        where m: "mrv (variables P) ds a = Inr var" by blast
      then have var: "var \<in> set ?un" by (rule mrv_in_unassigned)
      with prems(1) obtain d where d: "ds var = Some d"
        by (auto simp: search_inv_def unassigned_def)
      from "1.IH" [OF refl ru nprune False m d prems var] ru nprune False m d show ?thesis
        by (simp add: backtrack.simps [of P a ds sc b] search_nb.simps [of ?ord P a ds sc b])
    qed
  qed
next
  case (2 P var a ds sc b)
  then show ?case by simp
next
  case (3 P var a ds sc val vals b)
  note prems = "3.prems"
  let ?ord = "\<lambda>v. order_values (soft_score P v)"
  show ?case
  proof (cases "consistent (constraints P) var val a")
    case False
    with "3.IH"(1) [OF False prems] show ?thesis by simp
  next
    case con: True
    from con have nn: "\<not> \<not> consistent (constraints P) var val a" by simp
    let ?a' = "a(var \<mapsto> val)" and ?sc' = "sc + soft_score P var val"
    let ?pr = "\<lambda>v. map_option (filter (fc_keep (constraints P) var val ?a' v)) (ds v)"
    have fc: "forward_check (constraints P) var val ?a' ds = Inr ?pr"
      using prems(1,2) by (rule forward_check_total)
    have inv': "search_inv P ?a' ?pr ?sc'"
      using prems(1,3) con fc by (rule search_inv_step)
    let ?ok = "\<forall>w \<in> set (unassigned (variables P) ?a'). the (?pr w) \<noteq> []"
    have dn: "domains_nonempty ?pr (unassigned (variables P) ?a') = Inr ?ok"
      using search_inv_dom [OF inv'] by (rule domains_nonempty_iff)
    have rec: "(if ?ok then backtrack P ?a' ?pr ?sc' b else Inr b)
        = (if ?ok then search_nb ?ord P ?a' ?pr ?sc' b else Inr b)"
    proof (cases ?ok)
      case True
      have eq: "backtrack P ?a' ?pr ?sc' b = search_nb ?ord P ?a' ?pr ?sc' b"
        by (rule "3.IH"(2) [of ?a' ?sc' ?pr ?ok, OF nn refl refl fc dn True inv' prems(2)])
      show ?thesis by (simp only: if_P [OF True] eq)
    next
      case False
      show ?thesis by (simp only: if_not_P [OF False])
    qed
    obtain b1 where s: "(if ?ok then search_nb ?ord P ?a' ?pr ?sc' b else Inr b) = Inr b1"
    proof (cases ?ok)
      case True
      from search_nb_total(1) [OF inv' prems(2)] obtain b1
        where "search_nb ?ord P ?a' ?pr ?sc' b = Inr b1" by blast
      with True that show ?thesis by simp
    next
      case False
      with that show ?thesis by simp
    qed
    have "try_vals P var a ds sc vals b1 = try_nb ?ord P var a ds sc vals b1"
      using "3.IH"(3) [of ?a' ?sc' ?pr ?ok b1, OF nn refl refl fc dn] rec s prems by simp
    then show ?thesis
      using con fc dn rec s by (simp add: Let_def)
  qed
qed

end
