(* ===== verification/CSP_Spec.thy ===== *)
theory CSP_Spec
  imports CSP_Ops
begin

text \<open>
  The contract of \<open>solve(variables, domains, constraints, soft_score)\<close> in spec section 4.1,
  independent of the search: a feasible assignment binds exactly the variables, takes each
  value from the variable's domain (a missing domain is empty) and satisfies every constraint;
  the objective is the sum of the soft scores. \<open>brute_force\<close> is the exhaustive enumeration
  of spec section 8 ("optimality vs brute force"): the best objective over all consistent
  complete assignments, \<open>NegInf\<close> when there is none. It is executable.
\<close>

section \<open>Definitions\<close>

definition domain_of :: "('v, 'd) domains \<Rightarrow> 'v \<Rightarrow> 'd list" where
  "domain_of doms v = (case doms v of None \<Rightarrow> [] | Some d \<Rightarrow> d)"

definition constraints_hold :: "('v, 'd) constraint list \<Rightarrow> ('v, 'd) assignment \<Rightarrow> bool" where
  "constraints_hold cs c \<longleftrightarrow> (\<forall>(X, Y, p) \<in> set cs. p (the (c X)) (the (c Y)))"

definition feasible ::
  "'v list \<Rightarrow> ('v, 'd) domains \<Rightarrow> ('v, 'd) constraint list \<Rightarrow> ('v, 'd) assignment \<Rightarrow> bool" where
  "feasible vs doms cs c \<longleftrightarrow>
     dom c = set vs \<and> (\<forall>v \<in> set vs. the (c v) \<in> set (domain_of doms v)) \<and> constraints_hold cs c"

definition objective :: "'v list \<Rightarrow> ('v \<Rightarrow> 'd \<Rightarrow> 'c::comm_monoid_add) \<Rightarrow> ('v, 'd) assignment \<Rightarrow> 'c" where
  "objective vs s c = sum_list (map (\<lambda>v. s v (the (c v))) vs)"

definition candidates :: "'v list \<Rightarrow> ('v, 'd) domains \<Rightarrow> ('v, 'd) assignment list" where
  "candidates vs doms = map (\<lambda>xs. map_of (zip vs xs)) (product_lists (map (domain_of doms) vs))"

definition brute_force ::
  "'v list \<Rightarrow> ('v, 'd) domains \<Rightarrow> ('v, 'd) constraint list \<Rightarrow> ('v \<Rightarrow> 'd \<Rightarrow> 'c::linordered_ab_group_add)
     \<Rightarrow> 'c ext_score" where
  "brute_force vs doms cs s =
     fold (\<lambda>c m. max (Fin (objective vs s c)) m) (filter (constraints_hold cs) (candidates vs doms)) NegInf"

section \<open>Lemmas\<close>

lemma candidates_feasible:
  assumes dist: "distinct vs"
  shows "c \<in> set (filter (constraints_hold cs) (candidates vs doms)) \<longleftrightarrow> feasible vs doms cs c"
proof
  assume "c \<in> set (filter (constraints_hold cs) (candidates vs doms))"
  then obtain xs where xs: "xs \<in> set (product_lists (map (domain_of doms) vs))"
    and c: "c = map_of (zip vs xs)" and h: "constraints_hold cs c"
    by (auto simp: candidates_def)
  from xs have all2: "list_all2 (\<lambda>x ys. x \<in> set ys) xs (map (domain_of doms) vs)"
    by (simp add: product_lists_set)
  then have len: "length xs = length vs" by (simp add: list_all2_lengthD)
  have "\<forall>v \<in> set vs. the (c v) \<in> set (domain_of doms v)"
  proof
    fix v assume "v \<in> set vs"
    then obtain i where i: "i < length vs" and v: "v = vs ! i" by (auto simp: in_set_conv_nth)
    with dist len have "c v = Some (xs ! i)" by (simp add: c map_of_zip_nth)
    moreover from all2 i len have "xs ! i \<in> set (domain_of doms (vs ! i))"
      by (auto dest: list_all2_nthD)
    ultimately show "the (c v) \<in> set (domain_of doms v)" using v by simp
  qed
  with len h show "feasible vs doms cs c" by (simp add: feasible_def c)
next
  assume f: "feasible vs doms cs c"
  let ?xs = "map (\<lambda>v. the (c v)) vs"
  from f have dc: "dom c = set vs" by (simp add: feasible_def)
  have "map_of (zip vs ?xs) = c"
  proof
    fix v
    show "map_of (zip vs ?xs) v = c v"
    proof (cases "v \<in> set vs")
      case True
      with dc obtain w where "c v = Some w" by blast
      with True show ?thesis by (simp add: map_of_zip_map)
    next
      case False
      with dc have "c v = None" by blast
      with False show ?thesis by (simp add: map_of_zip_map)
    qed
  qed
  moreover have "?xs \<in> set (product_lists (map (domain_of doms) vs))"
    using f by (auto simp: product_lists_set list_all2_map1 list_all2_map2 list_all2_refl feasible_def
        intro!: list_all2_all_nthI)
  ultimately show "c \<in> set (filter (constraints_hold cs) (candidates vs doms))"
    using f by (force simp: candidates_def feasible_def)
qed

lemma brute_force_ge:
  assumes "distinct vs" and "feasible vs doms cs c"
  shows "Fin (objective vs s c) \<le> brute_force vs doms cs s"
proof -
  from assms have "c \<in> set (filter (constraints_hold cs) (candidates vs doms))"
    using candidates_feasible by blast
  then show ?thesis unfolding brute_force_def by (rule fold_max_ge)
qed

lemma brute_force_attained:
  assumes "distinct vs"
  shows "brute_force vs doms cs s = NegInf \<or>
     (\<exists>c. feasible vs doms cs c \<and> brute_force vs doms cs s = Fin (objective vs s c))"
proof -
  let ?cs = "filter (constraints_hold cs) (candidates vs doms)"
  have "brute_force vs doms cs s \<in> insert NegInf ((\<lambda>c. Fin (objective vs s c)) ` set ?cs)"
    unfolding brute_force_def by (rule fold_max_in)
  then show ?thesis
    using candidates_feasible [OF assms] by blast
qed

lemma brute_force_NegInf:
  "distinct vs \<Longrightarrow> brute_force vs doms cs s = NegInf \<longleftrightarrow> (\<forall>c. \<not> feasible vs doms cs c)"
  by (metis brute_force_attained brute_force_ge ext_score.distinct(1) ext_score_less_simps(4))

end
