(* ===== verification/CSP_Correct.thy ===== *)
theory CSP_Correct
  imports CSP_Equivalence CSP_Spec
begin

text \<open>
  The bridge between the search's own notions (\<open>search_inv\<close>, \<open>completes\<close>,
  \<open>pair_ok\<close>, \<open>total_score\<close>) at the root call \<open>backtrack({}, init_domains, 0.0)\<close> and the
  contract of \<open>CSP_Spec\<close> (\<open>feasible\<close>, \<open>objective\<close>), and the summary of what the root
  call returns.
\<close>

lemma search_inv_root:
  "distinct vs \<Longrightarrow>
    search_inv \<lparr>variables = vs, constraints = cs, soft_score = s\<rparr> Map.empty (init_domains vs doms) 0"
  by (auto simp: search_inv_def assigned_score_def pair_ok_def init_domains_def)

lemma init_domains_eq:
  "init_domains vs doms = (\<lambda>v. if v \<in> set vs then Some (domain_of doms v) else None)"
  by (simp add: fun_eq_iff init_domains_def domain_of_def)

lemma completes_root:
  "completes vs Map.empty (init_domains vs doms) c \<longleftrightarrow>
    dom c = set vs \<and> (\<forall>v \<in> set vs. the (c v) \<in> set (domain_of doms v))"
proof
  assume c: "completes vs Map.empty (init_domains vs doms) c"
  then have vals: "\<forall>v \<in> set vs. \<exists>w. c v = Some w \<and> w \<in> set (domain_of doms v)"
    and sub: "dom c \<subseteq> set vs"
    by (auto simp: completes_def unassigned_def init_domains_eq)
  from vals sub have "dom c = set vs" by blast
  with vals show "dom c = set vs \<and> (\<forall>v \<in> set vs. the (c v) \<in> set (domain_of doms v))" by auto
next
  assume h: "dom c = set vs \<and> (\<forall>v \<in> set vs. the (c v) \<in> set (domain_of doms v))"
  have "\<exists>d w. init_domains vs doms v = Some d \<and> c v = Some w \<and> w \<in> set d" if v: "v \<in> set vs" for v
  proof -
    from h v obtain w where "c v = Some w" by blast
    with h v show ?thesis by (auto simp: init_domains_eq)
  qed
  with h show "completes vs Map.empty (init_domains vs doms) c"
    by (auto simp: completes_def unassigned_def)
qed

lemma pair_ok_of_constraints_hold: "constraints_hold cs c \<Longrightarrow> pair_ok cs c"
  unfolding pair_ok_def
proof (intro ballI, clarify)
  fix X Y p
  assume h: "constraints_hold cs c" and con: "(X, Y, p) \<in> set cs"
  from h con have "p (the (c X)) (the (c Y))" by (auto simp: constraints_hold_def)
  then show "case c X of None \<Rightarrow> True | Some x \<Rightarrow> (case c Y of None \<Rightarrow> True | Some y \<Rightarrow> p x y)"
    by (auto split: option.split)
qed

lemma constraints_hold_of_pair_ok:
  assumes ok: "pair_ok cs c" and dc: "dom c = set vs"
    and cs: "\<forall>(X, Y, p) \<in> set cs. X \<in> set vs \<and> Y \<in> set vs \<and> X \<noteq> Y"
  shows "constraints_hold cs c"
  unfolding constraints_hold_def
proof (intro ballI, clarify)
  fix X Y p
  assume con: "(X, Y, p) \<in> set cs"
  with cs have X: "X \<in> set vs" and Y: "Y \<in> set vs" and ne: "X \<noteq> Y" by auto
  from X Y dc obtain x y where x: "c X = Some x" and y: "c Y = Some y" by blast
  from pair_okD [OF ok con ne x y] x y show "p (the (c X)) (the (c Y))" by simp
qed

lemma total_score_objective:
  "total_score \<lparr>variables = vs, constraints = cs, soft_score = s\<rparr> c = objective vs s c"
  by (simp add: total_score_def objective_def)

lemma backtracking_csp_reference:
  assumes "distinct vs" and "\<forall>(X, Y, p) \<in> set cs. X \<in> set vs \<and> Y \<in> set vs"
  shows "backtracking_csp vs doms cs s = solve_nb (\<lambda>v. order_values (s v)) vs doms cs s"
proof -
  let ?P = "\<lparr>variables = vs, constraints = cs, soft_score = s\<rparr>"
  have cv: "cons_in_vars ?P" using assms(2) by (simp add: cons_in_vars_def)
  have inv: "search_inv ?P Map.empty (init_domains vs doms) 0" using assms(1) by (rule search_inv_root)
  show ?thesis
    by (simp add: backtracking_csp_def solve_nb_def backtrack_eq_search_nb(1) [OF inv cv])
qed

lemma solve_nb_result:
  assumes "distinct vs" and "\<forall>(X, Y, p) \<in> set cs. X \<in> set vs \<and> Y \<in> set vs"
    and "\<forall>v d. set (ord v d) = set d"
  shows "\<exists>a r. solve_nb ord vs doms cs s = Inr (a, r)
    \<and> ((a = Map.empty \<and> r = NegInf) \<or>
       (r = Fin (objective vs s a) \<and> dom a = set vs \<and> (\<forall>v \<in> set vs. the (a v) \<in> set (domain_of doms v))
        \<and> pair_ok cs a))
    \<and> (\<forall>c. feasible vs doms cs c \<longrightarrow> Fin (objective vs s c) \<le> r)"
proof -
  let ?P = "\<lparr>variables = vs, constraints = cs, soft_score = s\<rparr>"
  let ?b0 = "\<lparr>best_assignment = Map.empty, best_score = NegInf\<rparr> :: ('v, 'd, 'c) best"
  have inv: "search_inv ?P Map.empty (init_domains vs doms) 0" using assms(1) by (rule search_inv_root)
  have cv: "cons_in_vars ?P" using assms(2) by (simp add: cons_in_vars_def)
  from search_nb_total(1) [OF inv cv] obtain b' where
    r: "search_nb ord ?P Map.empty (init_domains vs doms) 0 ?b0 = Inr b'" by blast
  have ord: "\<forall>v d. set (ord v d) \<subseteq> set d" using assms(3) by blast
  from search_nb_sound(1) [OF inv ord r]
  have sound: "b' = ?b0 \<or> improves ?P Map.empty (init_domains vs doms) ?b0 b'" .
  have complete: "Fin (objective vs s c) \<le> best_score b'" if "feasible vs doms cs c" for c
  proof -
    from that have "completes vs Map.empty (init_domains vs doms) c"
      by (simp add: completes_root feasible_def)
    moreover from that have "pair_ok cs c"
      by (simp add: feasible_def pair_ok_of_constraints_hold)
    ultimately show ?thesis
      using search_nb_complete(1) [OF inv assms(3) r] by (simp add: total_score_objective)
  qed
  have shape: "(best_assignment b' = Map.empty \<and> best_score b' = NegInf) \<or>
      (best_score b' = Fin (objective vs s (best_assignment b')) \<and> dom (best_assignment b') = set vs
       \<and> (\<forall>v \<in> set vs. the (best_assignment b' v) \<in> set (domain_of doms v))
       \<and> pair_ok cs (best_assignment b'))"
    using sound
  proof
    assume "b' = ?b0"
    then show ?thesis by simp
  next
    assume imp: "improves ?P Map.empty (init_domains vs doms) ?b0 b'"
    then have "completes vs Map.empty (init_domains vs doms) (best_assignment b')"
      and "pair_ok cs (best_assignment b')"
      and "best_score b' = Fin (objective vs s (best_assignment b'))"
      by (simp_all add: improves_def total_score_objective)
    then show ?thesis by (simp add: completes_root)
  qed
  from r have eq: "solve_nb ord vs doms cs s = Inr (best_assignment b', best_score b')"
    by (simp add: solve_nb_def)
  show ?thesis
  proof (intro exI conjI)
    show "solve_nb ord vs doms cs s = Inr (best_assignment b', best_score b')" by (rule eq)
  next
    show "\<forall>c. feasible vs doms cs c \<longrightarrow> Fin (objective vs s c) \<le> best_score b'"
      using complete by blast
  qed (rule shape)
qed

lemma backtracking_csp_result:
  assumes "distinct vs" and "\<forall>(X, Y, p) \<in> set cs. X \<in> set vs \<and> Y \<in> set vs"
  shows "\<exists>a r. backtracking_csp vs doms cs s = Inr (a, r)
    \<and> ((a = Map.empty \<and> r = NegInf) \<or>
       (r = Fin (objective vs s a) \<and> dom a = set vs \<and> (\<forall>v \<in> set vs. the (a v) \<in> set (domain_of doms v))
        \<and> pair_ok cs a))
    \<and> (\<forall>c. feasible vs doms cs c \<longrightarrow> Fin (objective vs s c) \<le> r)"
proof -
  have "\<forall>v d. set (order_values (s v) d) = set d" by simp
  from solve_nb_result [OF assms this, of doms] backtracking_csp_reference [OF assms, of doms s]
  show ?thesis by simp
qed


lemma result_brute_force:
  assumes vs: "distinct vs" and cs: "\<forall>(X, Y, p) \<in> set cs. X \<in> set vs \<and> Y \<in> set vs \<and> X \<noteq> Y"
    and shape: "(a = Map.empty \<and> r = NegInf) \<or>
       (r = Fin (objective vs s a) \<and> dom a = set vs \<and> (\<forall>v \<in> set vs. the (a v) \<in> set (domain_of doms v))
        \<and> pair_ok cs a)"
    and opt: "\<forall>c. feasible vs doms cs c \<longrightarrow> Fin (objective vs s c) \<le> r"
  shows "r = brute_force vs doms cs s"
proof (rule order_antisym)
  from brute_force_attained [OF vs, of doms cs s] opt
  show "brute_force vs doms cs s \<le> r" by auto
next
  show "r \<le> brute_force vs doms cs s"
    using shape
  proof
    assume "a = Map.empty \<and> r = NegInf"
    then show ?thesis by simp
  next
    assume h: "r = Fin (objective vs s a) \<and> dom a = set vs
      \<and> (\<forall>v \<in> set vs. the (a v) \<in> set (domain_of doms v)) \<and> pair_ok cs a"
    then have "feasible vs doms cs a"
      using constraints_hold_of_pair_ok [of cs a vs] cs by (simp add: feasible_def)
    with h brute_force_ge [OF vs] show ?thesis by simp
  qed
qed

end
