(* ===== verification/CSP_Calls.thy ===== *)
theory CSP_Calls
  imports CSP_Correct
begin

text \<open>
  The recursive calls of \<open>backtrack\<close> as a step relation. \<open>call_step P s t\<close> holds when
  the call with state \<open>s = (assignment, curr_domains, curr_score)\<close> can make the recursive call
  \<open>backtrack(assignment, pruned, new_score)\<close> of line 66: a variable is unassigned, \<open>var\<close> is
  the MRV choice (line 48), \<open>val\<close> is one of its values (line 51), the consistency loop accepts
  it (lines 53--60), forward checking returns \<open>pruned\<close> (line 64) and no domain is wiped out
  (line 65). The bound test of line 39 is left out, so the relation covers every call the
  search can make, pruned or not. \<open>reachable_call P doms\<close> are the states reachable from
  the root call \<open>backtrack({}, init_domains, 0.0)\<close> of line 70.
\<close>

type_synonym ('v, 'd, 'c) call_state = "('v, 'd) assignment \<times> ('v, 'd) domains \<times> 'c"

inductive call_step :: "('v, 'd, 'c::linordered_ab_group_add) csp \<Rightarrow> ('v, 'd, 'c) call_state \<Rightarrow> ('v, 'd, 'c) call_state \<Rightarrow> bool"
  for P :: "('v, 'd, 'c) csp"
where
  call: "unassigned (variables P) a \<noteq> [] \<Longrightarrow> mrv (variables P) ds a = Inr var \<Longrightarrow> ds var = Some d
    \<Longrightarrow> val \<in> set d \<Longrightarrow> consistent (constraints P) var val a
    \<Longrightarrow> forward_check (constraints P) var val (a(var \<mapsto> val)) ds = Inr pr
    \<Longrightarrow> domains_nonempty pr (unassigned (variables P) (a(var \<mapsto> val))) = Inr True
    \<Longrightarrow> call_step P (a, ds, sc) (a(var \<mapsto> val), pr, sc + soft_score P var val)"

inductive reachable_call ::
  "('v, 'd, 'c::linordered_ab_group_add) csp \<Rightarrow> ('v, 'd) domains \<Rightarrow> ('v, 'd, 'c) call_state \<Rightarrow> bool"
  for P :: "('v, 'd, 'c) csp" and doms :: "('v, 'd) domains"
where
  root: "reachable_call P doms (Map.empty, init_domains (variables P) doms, 0)"
| step: "reachable_call P doms s \<Longrightarrow> call_step P s t \<Longrightarrow> reachable_call P doms t"

text \<open>
  The domains the spec promises: a value \<open>x\<close> of an unassigned \<open>v\<close> is supported by the
  assignment when every constraint between \<open>v\<close> and an assigned variable holds of \<open>x\<close>
  (in its orientation); \<open>domains_exact\<close> says every unassigned variable's current domain is
  exactly its initial domain filtered by support.
\<close>

definition supported :: "('v, 'd) constraint list \<Rightarrow> ('v, 'd) assignment \<Rightarrow> 'v \<Rightarrow> 'd \<Rightarrow> bool" where
  "supported cs a v x \<longleftrightarrow>
     (\<forall>(X, Y, p) \<in> set cs. (X \<noteq> v \<and> Y = v \<longrightarrow> (case a X of Some y \<Rightarrow> p y x | None \<Rightarrow> True))
                        \<and> (X = v \<and> Y \<noteq> v \<longrightarrow> (case a Y of Some y \<Rightarrow> p x y | None \<Rightarrow> True)))"

definition domains_exact :: "('v, 'd, 'c) csp \<Rightarrow> ('v, 'd) domains \<Rightarrow> ('v, 'd) assignment \<Rightarrow> ('v, 'd) domains \<Rightarrow> bool" where
  "domains_exact P doms a ds \<longleftrightarrow>
     (\<forall>v \<in> set (variables P). a v = None \<longrightarrow>
        ds v = Some (filter (supported (constraints P) a v) (domain_of doms v)))"

inductive_cases call_stepE: "call_step P s t"

lemma search_inv_init:
  "distinct (variables P) \<Longrightarrow> search_inv P Map.empty (init_domains (variables P) doms) 0"
  by (auto simp: search_inv_def assigned_score_def pair_ok_def init_domains_def)

lemma call_step_inv:
  assumes "call_step P s t" and "case s of (a, ds, sc) \<Rightarrow> search_inv P a ds sc"
  shows "case t of (a, ds, sc) \<Rightarrow> search_inv P a ds sc"
  using assms(1)
proof (cases rule: call_step.cases)
  case (call a ds var d val sc pr)
  from \<open>mrv (variables P) ds a = Inr var\<close> have "var \<in> set (unassigned (variables P) a)"
    by (rule mrv_in_unassigned)
  with assms(2) call show ?thesis by (simp add: search_inv_step)
qed

text \<open>C7: every state the search reaches satisfies the search invariant.\<close>

theorem reachable_call_inv:
  assumes "distinct (variables P)" and "reachable_call P doms s"
  shows "case s of (a, ds, sc) \<Rightarrow> search_inv P a ds sc"
  using assms(2)
proof (induction rule: reachable_call.induct)
  case root
  show ?case using assms(1) by (simp add: search_inv_init)
next
  case (step s t)
  from step.hyps(2) step.IH show ?case by (rule call_step_inv)
qed

lemma supported_empty: "supported cs Map.empty v x"
  by (auto simp: supported_def)

lemma supported_upd:
  assumes "a v = None" and "a var = None" and "var \<noteq> v"
  shows "supported cs (a(var \<mapsto> val)) v x \<longleftrightarrow> supported cs a v x \<and> fc_keep cs var val (a(var \<mapsto> val)) v x"
proof -
  have "(X \<noteq> v \<and> Y = v \<longrightarrow> (case (a(var \<mapsto> val)) X of Some y \<Rightarrow> p y x | None \<Rightarrow> True))
        \<and> (X = v \<and> Y \<noteq> v \<longrightarrow> (case (a(var \<mapsto> val)) Y of Some y \<Rightarrow> p x y | None \<Rightarrow> True))
    \<longleftrightarrow> ((X \<noteq> v \<and> Y = v \<longrightarrow> (case a X of Some y \<Rightarrow> p y x | None \<Rightarrow> True))
        \<and> (X = v \<and> Y \<noteq> v \<longrightarrow> (case a Y of Some y \<Rightarrow> p x y | None \<Rightarrow> True)))
      \<and> ((X = var \<and> Y = v \<and> (a(var \<mapsto> val)) v = None \<longrightarrow> p val x)
        \<and> (Y = var \<and> X = v \<and> (a(var \<mapsto> val)) v = None \<longrightarrow> p x val))" for X Y p
    using assms by (cases "X = var"; cases "Y = var"; cases "X = v"; cases "Y = v") auto
  then show ?thesis
    unfolding supported_def fc_keep_def ball_conj_distrib [symmetric] by (intro ball_cong) auto
qed

lemma call_step_domains:
  assumes "call_step P s t" and "case s of (a, ds, sc) \<Rightarrow> domains_exact P doms a ds"
  shows "case t of (a, ds, sc) \<Rightarrow> domains_exact P doms a ds"
  using assms(1)
proof (cases rule: call_step.cases)
  case (call a ds var d val pr sc)
  from call have ex: "domains_exact P doms a ds" using assms(2) by simp
  from forward_check_Inr [OF call(8)]
  have pr: "pr = (\<lambda>v. map_option (filter (fc_keep (constraints P) var val (a(var \<mapsto> val)) v)) (ds v))" .
  have "domains_exact P doms (a(var \<mapsto> val)) pr"
    unfolding domains_exact_def
  proof (intro ballI impI)
    fix v assume v: "v \<in> set (variables P)" and un: "(a(var \<mapsto> val)) v = None"
    then have av: "a v = None" and ne: "var \<noteq> v" by (auto split: if_splits)
    from \<open>mrv (variables P) ds a = Inr var\<close> have "var \<in> set (unassigned (variables P) a)"
      by (rule mrv_in_unassigned)
    then have avar: "a var = None" by (simp add: unassigned_def)
    have eq: "supported (constraints P) (a(var \<mapsto> val)) v
      = (\<lambda>x. supported (constraints P) a v x \<and> fc_keep (constraints P) var val (a(var \<mapsto> val)) v x)"
      using supported_upd [OF av avar ne] by (intro ext) simp
    from ex v av have "ds v = Some (filter (supported (constraints P) a v) (domain_of doms v))"
      by (simp add: domains_exact_def)
    with pr eq show "pr v = Some (filter (supported (constraints P) (a(var \<mapsto> val)) v) (domain_of doms v))"
      by (simp add: filter_filter conj_commute)
  qed
  with call show ?thesis by simp
qed

text \<open>In every call the search reaches, the current domain of each unassigned variable is
  exactly the values of its initial domain that agree with every constraint linking it to an
  assigned variable: forward checking prunes what is unsupported and nothing else.\<close>

theorem reachable_call_domains:
  assumes "reachable_call P doms s"
  shows "case s of (a, ds, sc) \<Rightarrow> domains_exact P doms a ds"
  using assms
proof (induction rule: reachable_call.induct)
  case root
  show ?case by (simp add: domains_exact_def init_domains_eq supported_empty)
next
  case (step s t)
  from step.hyps(2) step.IH show ?case by (rule call_step_domains)
qed

end
