(* ===== verification/CSP_Main.thy ===== *)
theory CSP_Main
  imports CSP_Correct
begin

text \<open>
  The instance the driver of the search (\<open>src/Backtracking_CSP/test.py\<close>, lines 59--62)
  builds from a scenario table: one variable per student, every tutor in every domain and no
  hard constraint, so that a tutor may serve several students. On such an instance the
  search decouples: the optimum gives each student a tutor of highest score for that student,
  and the optimal score is the sum of the per-student maxima.
\<close>

definition bc_instance :: "nat \<Rightarrow> nat \<Rightarrow> nat list \<times> (nat, nat) domains \<times> (nat, nat) constraint list" where
  "bc_instance n_students n_tutors =
     (let variables = [0..<n_students] in
      (variables, map_of (map (\<lambda>i. (i, [0..<n_tutors])) variables), []))"

section \<open>Lemmas\<close>

lemma bc_domain_of:
  "domain_of (map_of (map (\<lambda>i. (i, [0..<m])) [0..<n])) v = (if v < n then [0..<m] else [])"
  by (simp add: domain_of_def map_of_map_restrict restrict_map_def)

lemma sum_list_eq_termwise:
  fixes f g :: "'a \<Rightarrow> 'c::ordered_cancel_comm_monoid_add"
  assumes "distinct xs" and "\<forall>x \<in> set xs. f x \<le> g x"
    and "sum_list (map f xs) = sum_list (map g xs)" and "x \<in> set xs"
  shows "f x = g x"
proof (rule ccontr)
  assume "f x \<noteq> g x"
  with assms(2,4) have "\<exists>y \<in> set xs. f y < g y" by (auto simp: order.strict_iff_order)
  from sum_strict_mono_ex1 [OF finite_set assms(2) this] assms(1,3) show False
    by (simp add: sum_list_distinct_conv_sum_set)
qed

lemma unconstrained_optimum:
  fixes s :: "nat \<Rightarrow> nat \<Rightarrow> 'c::linordered_ab_group_add"
  assumes m: "0 < m"
  shows "\<exists>a. backtracking_csp [0..<n] (map_of (map (\<lambda>i. (i, [0..<m])) [0..<n])) [] s
           = Inr (a, Fin (\<Sum>v\<leftarrow>[0..<n]. Max (s v ` {..<m})))
         \<and> (\<forall>v < n. \<exists>x < m. a v = Some x \<and> (\<forall>y < m. s v y \<le> s v x))"
proof -
  let ?doms = "map_of (map (\<lambda>i. (i, [0..<m])) [0..<n])"
  let ?M = "\<lambda>v. Max (s v ` {..<m})"
  have ge: "y < m \<Longrightarrow> s v y \<le> ?M v" for v y by (simp add: Max_ge)
  have "\<exists>x < m. s v x = ?M v" for v
  proof -
    have "?M v \<in> s v ` {..<m}" using m by (intro Max_in) auto
    then show ?thesis by auto
  qed
  then obtain pick where pick: "\<And>v. pick v < m \<and> s v (pick v) = ?M v" by metis
  let ?c = "\<lambda>v. if v < n then Some (pick v) else None"
  have fc: "feasible [0..<n] ?doms [] ?c"
    using pick by (auto simp: feasible_def constraints_hold_def bc_domain_of split: if_splits)
  have oc: "objective [0..<n] s ?c = (\<Sum>v\<leftarrow>[0..<n]. ?M v)"
    unfolding objective_def using pick by (intro arg_cong [where f = sum_list] map_cong) auto
  from backtracking_csp_result [of "[0..<n]" "[]" ?doms s] obtain a r where
      res: "backtracking_csp [0..<n] ?doms [] s = Inr (a, r)"
    and shape: "(a = Map.empty \<and> r = NegInf) \<or>
       (r = Fin (objective [0..<n] s a) \<and> dom a = set [0..<n] \<and> (\<forall>v \<in> set [0..<n]. the (a v) \<in> set (domain_of ?doms v))
        \<and> pair_ok [] a)"
    and opt: "\<forall>c. feasible [0..<n] ?doms [] c \<longrightarrow> Fin (objective [0..<n] s c) \<le> r"
    by auto
  from opt fc have "Fin (objective [0..<n] s ?c) \<le> r" by blast
  with oc have low: "Fin (\<Sum>v\<leftarrow>[0..<n]. ?M v) \<le> r" by simp
  then have "r \<noteq> NegInf" by auto
  with shape have r: "r = Fin (objective [0..<n] s a)" and da: "dom a = {..<n}"
    and inr: "\<forall>v < n. the (a v) < m"
    by (auto simp: bc_domain_of)
  have le: "\<forall>v \<in> set [0..<n]. s v (the (a v)) \<le> ?M v" using inr ge by auto
  then have "objective [0..<n] s a \<le> (\<Sum>v\<leftarrow>[0..<n]. ?M v)"
    unfolding objective_def by (intro sum_list_mono) blast
  with low r have eq: "objective [0..<n] s a = (\<Sum>v\<leftarrow>[0..<n]. ?M v)" by simp
  have best: "s v (the (a v)) = ?M v" if "v < n" for v
    using sum_list_eq_termwise [OF distinct_upt le, of v] eq that by (simp add: objective_def)
  have "\<forall>v < n. \<exists>x < m. a v = Some x \<and> (\<forall>y < m. s v y \<le> s v x)"
  proof (intro allI impI)
    fix v assume v: "v < n"
    with da have "v \<in> dom a" by simp
    then have "a v = Some (the (a v))" by auto
    with inr v best [OF v] ge show "\<exists>x < m. a v = Some x \<and> (\<forall>y < m. s v y \<le> s v x)" by metis
  qed
  with res r eq show ?thesis by auto
qed

text \<open>
  C35: on the instance the driver builds for \<open>n\<close> students and \<open>m > 0\<close> tutors,
  \<open>backtracking_csp\<close> gives every student a tutor of highest score for that student
  (tutors may repeat) and returns the sum of the per-student maxima as its score.
\<close>

theorem bc_instance_independent:
  fixes s :: "nat \<Rightarrow> nat \<Rightarrow> 'c::linordered_ab_group_add"
  assumes "0 < m"
  shows "case bc_instance n m of (vs, doms, cs) \<Rightarrow>
           \<exists>a. backtracking_csp vs doms cs s = Inr (a, Fin (\<Sum>v\<leftarrow>[0..<n]. Max (s v ` {..<m})))
             \<and> (\<forall>v < n. \<exists>x < m. a v = Some x \<and> (\<forall>y < m. s v y \<le> s v x))"
  using unconstrained_optimum [OF assms, of n s] by (simp add: bc_instance_def Let_def)

end
