(* ===== verification/CSP_Simple.thy ===== *)
theory CSP_Simple
  imports CSP_Correct
begin

text \<open>
  The simple variant of the search in \<open>src/tests/Back_CSP.py\<close> (lines 5--93), which the
  worked example of that file calls: the same MRV choice, consistency loop and forward
  checking as \<open>back_CSP.py\<close>, but no optimistic bound, values tried in domain order, a
  completeness test on \<open>len(assignment) == len(variables)\<close> (line 60) and initial domains
  read with \<open>domains[v]\<close> (line 26), which raises \<open>KeyError\<close> for a variable without a
  domain. \<open>recurse P a n ds sc b\<close> is the call with \<open>len(assignment) = n\<close>: the variable
  MRV picks is unassigned, so each assignment of line 79 adds a key. The main result: on
  distinct variables the variant computes exactly the reference search \<open>search_nb\<close> with
  the identity order, hence the brute-force optimum, unless a domain is missing.
\<close>

function recurse ::
  "('v, 'd, 'c::linordered_ab_group_add) csp \<Rightarrow> ('v, 'd) assignment \<Rightarrow> nat \<Rightarrow> ('v, 'd) domains \<Rightarrow> 'c
     \<Rightarrow> ('v, 'd, 'c) best \<Rightarrow> 'v py_error + ('v, 'd, 'c) best"
and try_rec ::
  "('v, 'd, 'c::linordered_ab_group_add) csp \<Rightarrow> 'v \<Rightarrow> ('v, 'd) assignment \<Rightarrow> nat \<Rightarrow> ('v, 'd) domains \<Rightarrow> 'c
     \<Rightarrow> 'd list \<Rightarrow> ('v, 'd, 'c) best \<Rightarrow> 'v py_error + ('v, 'd, 'c) best"
where
  "recurse P a n ds sc b =
     (if n = length (variables P) then
        (if best_score b < Fin sc then Inr (b\<lparr>best_score := Fin sc, best_assignment := a\<rparr>) else Inr b)
      else
        (case mrv (variables P) ds a of
           Inl e \<Rightarrow> Inl e
         | Inr var \<Rightarrow>
             (case ds var of
                None \<Rightarrow> Inl (KeyError var)
              | Some d \<Rightarrow> try_rec P var a n ds sc d b)))"
| "try_rec P var a n ds sc [] b = Inr b"
| "try_rec P var a n ds sc (val # vals) b =
     (if \<not> consistent (constraints P) var val a then try_rec P var a n ds sc vals b
      else
        (let a' = a(var \<mapsto> val); new_score = sc + soft_score P var val in
         case forward_check (constraints P) var val a' ds of
           Inl e \<Rightarrow> Inl e
         | Inr pruned \<Rightarrow>
             (case domains_nonempty pruned (unassigned (variables P) a') of
                Inl e \<Rightarrow> Inl e
              | Inr ok \<Rightarrow>
                  (case (if ok then recurse P a' (Suc n) pruned new_score b else Inr b) of
                     Inl e \<Rightarrow> Inl e
                   | Inr b' \<Rightarrow> try_rec P var a n ds sc vals b'))))"
  by pat_completeness auto

termination
  by (relation "measures
    [\<lambda>x. case x of
        Inl (P, a, n, ds, sc, b) \<Rightarrow> 2 * length (unassigned (variables P) a) + 3
      | Inr (P, var, a, n, ds, sc, vals, b) \<Rightarrow>
          2 * length (unassigned (variables P) a) + (if var \<in> set (unassigned (variables P) a) then 2 else 4),
     \<lambda>x. case x of Inl _ \<Rightarrow> 0 | Inr (P, var, a, n, ds, sc, vals, b) \<Rightarrow> length vals]")
     (auto simp: mrv_in_unassigned unassigned_upd_measure unassigned_upd_same)

declare recurse.simps(1) [simp del]

text \<open>Line 26: \<open>{v: list(domains[v]) for v in variables}\<close>.\<close>

fun init_domains_strict :: "'v list \<Rightarrow> ('v, 'd) domains \<Rightarrow> 'v py_error + ('v, 'd) domains" where
  "init_domains_strict [] doms = Inr Map.empty"
| "init_domains_strict (v # vs) doms =
     (case doms v of
        None \<Rightarrow> Inl (KeyError v)
      | Some d \<Rightarrow> bind_sum (init_domains_strict vs doms) (\<lambda>m. Inr (m(v \<mapsto> d))))"

text \<open>Lines 5--93: the entry point.\<close>

definition backtracking_csp_simple ::
  "'v list \<Rightarrow> ('v, 'd) domains \<Rightarrow> ('v, 'd) constraint list \<Rightarrow> ('v \<Rightarrow> 'd \<Rightarrow> 'c::linordered_ab_group_add)
     \<Rightarrow> 'v py_error + (('v, 'd) assignment \<times> 'c ext_score)" where
  "backtracking_csp_simple vs doms cs s =
     bind_sum (init_domains_strict vs doms) (\<lambda>ds.
       case recurse \<lparr>variables = vs, constraints = cs, soft_score = s\<rparr> Map.empty 0 ds 0
              \<lparr>best_assignment = Map.empty, best_score = NegInf\<rparr> of
         Inl e \<Rightarrow> Inl e
       | Inr b \<Rightarrow> Inr (best_assignment b, best_score b))"

section \<open>Lemmas\<close>

lemma init_domains_strict_eq:
  "init_domains_strict vs doms =
     (case find (\<lambda>v. doms v = None) vs of Some v \<Rightarrow> Inl (KeyError v) | None \<Rightarrow> Inr (init_domains vs doms))"
proof (induction vs)
  case Nil
  then show ?case by (simp add: init_domains_def fun_eq_iff)
next
  case (Cons v vs)
  then show ?case
    by (auto simp: init_domains_def fun_eq_iff split: option.splits)
qed

text \<open>With distinct variables the count of assigned keys decides completeness as
  \<open>search_nb\<close>'s test \<open>unassigned = []\<close> does.\<close>

lemma complete_iff_count:
  assumes vs: "distinct vs" and sub: "dom a \<subseteq> set vs" and n: "n = card (dom a)"
  shows "n = length vs \<longleftrightarrow> unassigned vs a = []"
proof -
  have "n = length vs \<longleftrightarrow> card (dom a) = card (set vs)" by (simp add: n distinct_card [OF vs])
  also have "\<dots> \<longleftrightarrow> dom a = set vs"
    using card_subset_eq [OF finite_set sub] by (rule iffI) simp_all
  also have "\<dots> \<longleftrightarrow> set vs \<subseteq> dom a" using sub by blast
  also have "\<dots> \<longleftrightarrow> unassigned vs a = []" by (auto simp: unassigned_def filter_empty_conv)
  finally show ?thesis .
qed

lemma recurse_eq_search_nb:
  "distinct (variables P) \<Longrightarrow> dom a \<subseteq> set (variables P) \<Longrightarrow> n = card (dom a)
     \<Longrightarrow> recurse P a n ds sc b = search_nb (\<lambda>v d. d) P a ds sc b"
  "distinct (variables P) \<Longrightarrow> dom a \<subseteq> set (variables P) \<Longrightarrow> n = card (dom a)
     \<Longrightarrow> var \<in> set (unassigned (variables P) a)
     \<Longrightarrow> try_rec P var a n ds sc vals b = try_nb (\<lambda>v d. d) P var a ds sc vals b"
proof (induction P a n ds sc b and P var a n ds sc vals b rule: recurse_try_rec.induct)
  case (1 P a n ds sc b)
  have c: "n = length (variables P) \<longleftrightarrow> unassigned (variables P) a = []"
    using complete_iff_count [OF "1.prems"] .
  show ?case
  proof (cases "unassigned (variables P) a = []")
    case True
    with c show ?thesis by (simp add: recurse.simps(1) search_nb.simps(1))
  next
    case False
    with c have ne: "n \<noteq> length (variables P)" by simp
    show ?thesis
    proof (cases "mrv (variables P) ds a")
      case (Inl e)
      with False ne show ?thesis by (simp add: recurse.simps(1) search_nb.simps(1))
    next
      case (Inr var)
      have "var \<in> set (unassigned (variables P) a)" using Inr by (rule mrv_in_unassigned)
      with "1.IH" [OF ne Inr] "1.prems" False ne Inr show ?thesis
        by (simp add: recurse.simps(1) search_nb.simps(1) split: option.splits)
    qed
  qed
next
  case (2 P var a n ds sc b)
  then show ?case by simp
next
  case (3 P var a n ds sc val vals b)
  let ?a' = "a(var \<mapsto> val)"
  have av: "a var = None" and vv: "var \<in> set (variables P)" using "3.prems"(4) by (auto simp: unassigned_def)
  have d': "dom ?a' \<subseteq> set (variables P)" using "3.prems"(2) vv by auto
  have n': "Suc n = card (dom ?a')"
    using "3.prems"(3) av card_insert_disjoint [of "dom a" var] finite_subset [OF "3.prems"(2)]
    by (auto simp: domIff)
  let ?ns = "sc + soft_score P var val"
  show ?case
  proof (cases "consistent (constraints P) var val a")
    case False
    with "3.IH"(1) [OF False "3.prems"] show ?thesis by simp
  next
    case True
    show ?thesis
    proof (cases "forward_check (constraints P) var val ?a' ds")
      case (Inl e)
      with True show ?thesis by (simp add: Let_def)
    next
      case (Inr pruned)
      note fc = this
      show ?thesis
      proof (cases "domains_nonempty pruned (unassigned (variables P) ?a')")
        case (Inl e)
        with True fc show ?thesis by (simp add: Let_def)
      next
        case (Inr ok)
        note dn = this
        let ?r = "if ok then recurse P ?a' (Suc n) pruned ?ns b else Inr b"
        have eq: "?r = (if ok then search_nb (\<lambda>v d. d) P ?a' pruned ?ns b else Inr b)"
          using "3.IH"(2) [OF _ refl refl fc dn _ "3.prems"(1) d' n'] True by (cases ok) (simp_all add: fun_upd_def)
        have tl: "try_rec P var a n ds sc vals b' = try_nb (\<lambda>v d. d) P var a ds sc vals b'"
          if "?r = Inr b'" for b'
          using "3.IH"(3) [OF _ refl refl fc dn that "3.prems"] True by (simp add: fun_upd_def)
        have L: "try_rec P var a n ds sc (val # vals) b
            = (case ?r of Inl e \<Rightarrow> Inl e | Inr b' \<Rightarrow> try_rec P var a n ds sc vals b')"
          using True fc dn by (simp add: Let_def del: if_split)
        have R: "try_nb (\<lambda>v d. d) P var a ds sc (val # vals) b
            = (case (if ok then search_nb (\<lambda>v d. d) P ?a' pruned ?ns b else Inr b) of
                 Inl e \<Rightarrow> Inl e | Inr b' \<Rightarrow> try_nb (\<lambda>v d. d) P var a ds sc vals b')"
          using True fc dn by (simp add: Let_def del: if_split)
        show ?thesis unfolding L R eq [symmetric] by (cases ?r) (simp_all add: tl)
      qed
    qed
  qed
qed

lemma simple_eq_solve_nb:
  assumes "distinct vs" and "\<forall>v \<in> set vs. doms v \<noteq> None"
  shows "backtracking_csp_simple vs doms cs s = solve_nb (\<lambda>v d. d) vs doms cs s"
proof -
  have "find (\<lambda>v. doms v = None) vs = None" using assms(2) by (simp add: find_None_iff)
  then have i: "init_domains_strict vs doms = Inr (init_domains vs doms)" by (simp add: init_domains_strict_eq)
  have "dom (Map.empty :: ('a, 'b) assignment) \<subseteq> set vs" by simp
  from recurse_eq_search_nb(1) [of "\<lparr>variables = vs, constraints = cs, soft_score = s\<rparr>" Map.empty 0] assms(1)
  show ?thesis by (simp add: backtracking_csp_simple_def solve_nb_def i)
qed


text \<open>
  C14: the simple variant of \<open>tests/Back_CSP.py\<close> refines the specification: on distinct
  variables with constraints between two different variables of the instance it raises
  \<open>KeyError\<close> for the first variable without a domain, and otherwise returns the
  brute-force optimum over all feasible complete assignments (minus infinity if none).
\<close>

theorem simple_variant_brute_force:
  assumes vs: "distinct vs" and cs: "\<forall>(X, Y, p) \<in> set cs. X \<in> set vs \<and> Y \<in> set vs \<and> X \<noteq> Y"
  shows "map_sum id snd (backtracking_csp_simple vs doms cs s)
    = (case find (\<lambda>v. doms v = None) vs of
         Some v \<Rightarrow> Inl (KeyError v)
       | None \<Rightarrow> Inr (brute_force vs doms cs s))"
proof (cases "find (\<lambda>v. doms v = None) vs")
  case (Some v)
  then show ?thesis by (simp add: backtracking_csp_simple_def init_domains_strict_eq)
next
  case None
  then have all: "\<forall>v \<in> set vs. doms v \<noteq> None" by (simp add: find_None_iff)
  have cv: "\<forall>(X, Y, p) \<in> set cs. X \<in> set vs \<and> Y \<in> set vs" using cs by blast
  from solve_nb_result [OF vs cv, of "\<lambda>v d. d" doms s] obtain a r where
      res: "solve_nb (\<lambda>v d. d) vs doms cs s = Inr (a, r)"
    and shape: "(a = Map.empty \<and> r = NegInf) \<or>
       (r = Fin (objective vs s a) \<and> dom a = set vs \<and> (\<forall>v \<in> set vs. the (a v) \<in> set (domain_of doms v))
        \<and> pair_ok cs a)"
    and opt: "\<forall>c. feasible vs doms cs c \<longrightarrow> Fin (objective vs s c) \<le> r"
    by auto
  from result_brute_force [OF vs cs shape opt] res simple_eq_solve_nb [OF vs all, of cs s] None
  show ?thesis by simp
qed

end
