(* ===== verification/Fitness.thy ===== *)
theory Fitness
  imports Complex_Main Prelude
begin

text \<open>
  The fitness module \<open>src/Backtracking_CSP/fitness.py\<close>: \<open>time_score\<close>, \<open>score_pair\<close>
  and \<open>compute_fitness\<close>. A pandas row (\<open>df.loc[i]\<close>, a Series indexed by column name)
  is a map from column names to cells; a cell is one of the values \<open>pd.read_csv\<close>
  produces, compared with Python's \<open>==\<close> and tested with Python's \<open>bool\<close>. The
  weights dictionary is an association list with distinct keys, so that \<open>len(weights)\<close>
  is its length. Floats are reals: rounding is not modelled.
\<close>

section \<open>Cells, rows and keys\<close>

datatype cell = CStr string | CBool bool | CInt int | CFloat real | CNaN

text \<open>
  Python's \<open>==\<close> on cells: numbers compare by value (\<open>True == 1\<close>), strings by
  content, a string never equals a number, and \<open>NaN\<close> equals nothing, itself included.
\<close>

fun num_of :: "cell \<Rightarrow> real option" where
  "num_of (CBool b) = Some (if b then 1 else 0)"
| "num_of (CInt i) = Some (of_int i)"
| "num_of (CFloat r) = Some r"
| "num_of _ = None"

fun py_eq :: "cell \<Rightarrow> cell \<Rightarrow> bool" where
  "py_eq (CStr a) (CStr b) = (a = b)"
| "py_eq (CStr a) y = False"
| "py_eq x (CStr b) = False"
| "py_eq x y = (case (num_of x, num_of y) of (Some u, Some v) \<Rightarrow> u = v | _ \<Rightarrow> False)"

text \<open>Python's \<open>bool(x)\<close>: empty strings and zero are false, \<open>NaN\<close> is true.\<close>

fun truthy :: "cell \<Rightarrow> bool" where
  "truthy (CStr s) = (s \<noteq> [])"
| "truthy (CBool b) = b"
| "truthy (CInt i) = (i \<noteq> 0)"
| "truthy (CFloat r) = (r \<noteq> 0)"
| "truthy CNaN = True"

text \<open>The keys a lookup can miss: a column name or a row label.\<close>

datatype pykey = KStr string | KInt int

type_synonym row = "string \<rightharpoonup> cell"
type_synonym weights = "(string \<times> real) list"
type_synonym 'a result = "pykey py_error + 'a"

text \<open>\<open>s[k]\<close> on a row, \<open>weights[k]\<close> on the weights and \<open>df.loc[i]\<close> on a frame.\<close>

definition col :: "row \<Rightarrow> string \<Rightarrow> cell result" where
  "col r k = (case r k of None \<Rightarrow> Inl (KeyError (KStr k)) | Some x \<Rightarrow> Inr x)"

definition weight :: "weights \<Rightarrow> string \<Rightarrow> real result" where
  "weight w k = (case map_of w k of None \<Rightarrow> Inl (KeyError (KStr k)) | Some x \<Rightarrow> Inr x)"

definition loc :: "row list \<Rightarrow> int \<Rightarrow> row result" where
  "loc df i = (if 0 \<le> i \<and> nat i < length df then Inr (df ! nat i) else Inl (KeyError (KInt i)))"

record fitness =
  total_score :: real
  pct_satisfied :: real

section \<open>The module\<close>

text \<open>Line 12.\<close>

definition time_score :: "cell \<Rightarrow> cell \<Rightarrow> bool \<Rightarrow> real" where
  "time_score student_time tutor_time fleksibel =
     (if py_eq student_time tutor_time \<or> fleksibel then 1 else 0)"

text \<open>\<open>1 if s[k] == t[k] else 0\<close>, reading \<open>s[k]\<close> first (lines 27--30).\<close>

definition match_col :: "row \<Rightarrow> row \<Rightarrow> string \<Rightarrow> nat result" where
  "match_col s t k = bind_sum (col s k) (\<lambda>x. bind_sum (col t k) (\<lambda>y. Inr (if py_eq x y then 1 else 0)))"

text \<open>Line 32: \<open>bool(s.get('fleksibilitas_waktu', False))\<close>.\<close>

definition fleks_of :: "row \<Rightarrow> bool" where
  "fleks_of s = (case s ''fleksibilitas_waktu'' of None \<Rightarrow> False | Some x \<Rightarrow> truthy x)"

text \<open>Lines 15--45, statement by statement and operand by operand.\<close>

definition score_pair :: "row \<Rightarrow> row \<Rightarrow> weights \<Rightarrow> (real \<times> nat) result" where
  "score_pair s t weights =
     bind_sum (match_col s t ''mata_kuliah'') (\<lambda>subj_match.
     bind_sum (match_col s t ''subbab'') (\<lambda>topic_match.
     bind_sum (match_col s t ''gaya_belajar'') (\<lambda>style_match.
     bind_sum (match_col s t ''mode'') (\<lambda>mode_match.
     (let fleks = fleks_of s in
     bind_sum (col s ''waktu'') (\<lambda>sw.
     bind_sum (col t ''waktu'') (\<lambda>tw.
     (let time_match = (if py_eq sw tw \<or> fleks then 1 else 0 :: nat) in
     bind_sum (weight weights ''mata_kuliah'') (\<lambda>w1.
     bind_sum (weight weights ''subbab'') (\<lambda>w2.
     bind_sum (weight weights ''gaya_belajar'') (\<lambda>w3.
     bind_sum (weight weights ''mode'') (\<lambda>w4.
     bind_sum (weight weights ''waktu'') (\<lambda>w5.
       Inr (w1 * real subj_match + w2 * real topic_match + w3 * real style_match
              + w4 * real mode_match + w5 * real time_match,
            subj_match + topic_match + style_match + mode_match + time_match))))))))))))))"

text \<open>
  The loop of lines 64--70 over \<open>enumerate(chromosome)\<close>: \<open>i\<close> is the student index,
  the pair the running \<open>(total_score, total_pct)\<close>; \<open>count_sat / num_constraints\<close> is
  a float division, which raises on a zero divisor.
\<close>

fun fitness_loop ::
  "row list \<Rightarrow> row list \<Rightarrow> weights \<Rightarrow> nat \<Rightarrow> int list \<Rightarrow> real \<times> real \<Rightarrow> (real \<times> real) result"
where
  "fitness_loop S T w i [] acc = Inr acc"
| "fitness_loop S T w i (tut_id # rest) (ts, tp) =
     bind_sum (loc S (int i)) (\<lambda>s.
     bind_sum (loc T tut_id) (\<lambda>t.
     bind_sum (score_pair s t w) (\<lambda>(sc, count_sat).
       if length w = 0 then Inl ZeroDivisionError
       else fitness_loop S T w (Suc i) rest (ts + sc, tp + real count_sat / real (length w)))))"

text \<open>Lines 48--78.\<close>

definition compute_fitness :: "int list \<Rightarrow> row list \<Rightarrow> row list \<Rightarrow> weights \<Rightarrow> fitness result" where
  "compute_fitness chromosome S T weights =
     bind_sum (fitness_loop S T weights 0 chromosome (0, 0)) (\<lambda>(ts, tp).
       (let n = length chromosome in
        Inr \<lparr>total_score = ts, pct_satisfied = (if n > 0 then tp / real n else 0)\<rparr>))"

section \<open>What a pair satisfies\<close>

text \<open>
  The five criteria in the order \<open>score_pair\<close> reads the weights; \<open>satisfied s t k\<close>:
  the two rows agree on \<open>k\<close>, or \<open>k\<close> is the time and the student is flexible;
  \<open>has_cols\<close> and \<open>has_weights\<close>: every criterion is a column of the row and a key of
  the weights; \<open>pair_score\<close> and \<open>pair_count\<close>: the weighted sum and the number of the
  satisfied criteria.
\<close>

definition criteria :: "string list" where
  "criteria = [''mata_kuliah'', ''subbab'', ''gaya_belajar'', ''mode'', ''waktu'']"

definition satisfied :: "row \<Rightarrow> row \<Rightarrow> string \<Rightarrow> bool" where
  "satisfied s t k = (py_eq (the (s k)) (the (t k)) \<or> (k = ''waktu'' \<and> fleks_of s))"

definition has_cols :: "row \<Rightarrow> bool" where
  "has_cols r = (\<forall>k \<in> set criteria. r k \<noteq> None)"

definition has_weights :: "weights \<Rightarrow> bool" where
  "has_weights w = (\<forall>k \<in> set criteria. map_of w k \<noteq> None)"

definition pair_score :: "row \<Rightarrow> row \<Rightarrow> weights \<Rightarrow> real" where
  "pair_score s t w = sum_list (map (\<lambda>k. the (map_of w k) * (if satisfied s t k then 1 else 0)) criteria)"

definition pair_count :: "row \<Rightarrow> row \<Rightarrow> nat" where
  "pair_count s t = length (filter (satisfied s t) criteria)"

section \<open>Lemmas\<close>

lemma col_Some: "r k = Some x \<Longrightarrow> col r k = Inr x"
  by (simp add: col_def)

lemma weight_Some: "map_of w k = Some x \<Longrightarrow> weight w k = Inr x"
  by (simp add: weight_def)

lemma match_col_Some: "s k = Some x \<Longrightarrow> t k = Some y \<Longrightarrow> match_col s t k = Inr (if py_eq x y then 1 else 0)"
  by (simp add: match_col_def col_def)

lemma score_pair_ok:
  assumes "has_cols s" and "has_cols t" and "has_weights w"
  shows "score_pair s t w = Inr (pair_score s t w, pair_count s t)"
proof -
  from assms obtain s1 s2 s3 s4 s5 t1 t2 t3 t4 t5 w1 w2 w3 w4 w5 where
    s: "s ''mata_kuliah'' = Some s1" "s ''subbab'' = Some s2" "s ''gaya_belajar'' = Some s3"
       "s ''mode'' = Some s4" "s ''waktu'' = Some s5" and
    t: "t ''mata_kuliah'' = Some t1" "t ''subbab'' = Some t2" "t ''gaya_belajar'' = Some t3"
       "t ''mode'' = Some t4" "t ''waktu'' = Some t5" and
    w: "map_of w ''mata_kuliah'' = Some w1" "map_of w ''subbab'' = Some w2" "map_of w ''gaya_belajar'' = Some w3"
       "map_of w ''mode'' = Some w4" "map_of w ''waktu'' = Some w5"
    by (auto simp: has_cols_def has_weights_def criteria_def)
  show ?thesis
    by (simp add: score_pair_def match_col_Some col_Some weight_Some s t w criteria_def satisfied_def pair_score_def pair_count_def)
qed

lemma score_pair_Inr_iff:
  "(\<exists>r. score_pair s t w = Inr r) \<longleftrightarrow> has_cols s \<and> has_cols t \<and> has_weights w"
proof
  assume "\<exists>r. score_pair s t w = Inr r"
  then show "has_cols s \<and> has_cols t \<and> has_weights w"
    by (auto simp: score_pair_def match_col_def col_def weight_def has_cols_def has_weights_def criteria_def
        split: option.splits)
next
  assume "has_cols s \<and> has_cols t \<and> has_weights w"
  then show "\<exists>r. score_pair s t w = Inr r" using score_pair_ok by blast
qed

lemma length_weights_ge:
  assumes "has_weights w" shows "length criteria \<le> length w"
proof -
  have "set criteria \<subseteq> dom (map_of w)"
    using assms by (auto simp: has_weights_def)
  then have "set criteria \<subseteq> set (map fst w)"
    by (simp add: dom_map_of_conv_image_fst)
  then have "card (set criteria) \<le> card (set (map fst w))" by (simp add: card_mono)
  also have "\<dots> \<le> length w" using card_length [of "map fst w"] by simp
  finally show ?thesis by (simp add: criteria_def)
qed

lemma pair_count_le: "pair_count s t \<le> length criteria"
  by (simp add: pair_count_def)

lemma score_pair_count:
  assumes "score_pair s t w = Inr (sc, cnt)"
  shows "cnt \<le> length w \<and> 0 < length w"
proof -
  from assms score_pair_Inr_iff [of s t w] have ok: "has_cols s" "has_cols t" "has_weights w" by blast+
  from score_pair_ok [OF ok] assms have "cnt = pair_count s t" by simp
  with pair_count_le [of s t] length_weights_ge [OF ok(3)] show ?thesis
    by (cases w) (simp_all add: criteria_def)
qed

lemma fitness_loop_ok:
  assumes "i + length chrom \<le> length S" and "\<forall>tid \<in> set chrom. 0 \<le> tid \<and> nat tid < length T"
    and "\<forall>r \<in> set S. has_cols r" and "\<forall>r \<in> set T. has_cols r" and "has_weights w"
  shows "fitness_loop S T w i chrom (ts, tp) =
    Inr (ts + sum_list (map (\<lambda>(j, tid). pair_score (S ! j) (T ! nat tid) w) (enumerate i chrom)),
         tp + sum_list (map (\<lambda>(j, tid). real (pair_count (S ! j) (T ! nat tid)) / real (length w))
                          (enumerate i chrom)))"
  using assms(1,2)
proof (induction chrom arbitrary: i ts tp)
  case Nil
  then show ?case by simp
next
  case (Cons tid rest)
  from Cons.prems have i: "i < length S" and tid: "0 \<le> tid" "nat tid < length T" by auto
  have sp: "score_pair (S ! i) (T ! nat tid) w = Inr (pair_score (S ! i) (T ! nat tid) w, pair_count (S ! i) (T ! nat tid))"
    using i tid assms(3,4,5) by (intro score_pair_ok) auto
  have w: "length w \<noteq> 0" using length_weights_ge [OF assms(5)] by (cases w) (simp_all add: criteria_def)
  have ih: "fitness_loop S T w (Suc i) rest (ts + pair_score (S ! i) (T ! nat tid) w,
              tp + real (pair_count (S ! i) (T ! nat tid)) / real (length w)) =
    Inr (ts + pair_score (S ! i) (T ! nat tid) w + sum_list (map (\<lambda>(j, tid). pair_score (S ! j) (T ! nat tid) w) (enumerate (Suc i) rest)),
         tp + real (pair_count (S ! i) (T ! nat tid)) / real (length w)
           + sum_list (map (\<lambda>(j, tid). real (pair_count (S ! j) (T ! nat tid)) / real (length w)) (enumerate (Suc i) rest)))"
    using Cons.prems by (intro Cons.IH) auto
  show ?case
    using i tid sp w ih by (simp add: loc_def add.assoc)
qed

lemma fitness_loop_pct:
  "fitness_loop S T w i chrom (ts, tp) = Inr (ts', tp') \<Longrightarrow> tp \<le> tp' \<and> tp' \<le> tp + real (length chrom)"
proof (induction chrom arbitrary: i ts tp)
  case Nil
  then show ?case by simp
next
  case (Cons tid rest)
  from Cons.prems obtain s t sc cnt where
      sp: "score_pair s t w = Inr (sc, cnt)" and w: "length w \<noteq> 0"
    and r: "fitness_loop S T w (Suc i) rest (ts + sc, tp + real cnt / real (length w)) = Inr (ts', tp')"
    by (auto simp: bind_sum_Inr split: if_splits)
  from score_pair_count [OF sp] have a: "real cnt / real (length w) \<le> 1"
    by simp
  have b: "0 \<le> real cnt / real (length w)" by simp
  from Cons.IH [OF r] b have "tp \<le> tp'" by linarith
  moreover from Cons.IH [OF r] a have "tp' \<le> tp + real (length (tid # rest))" by simp
  ultimately show ?case ..
qed



lemma compute_fitness_Inr:
  assumes "length chrom \<le> length S" and "\<forall>tid \<in> set chrom. 0 \<le> tid \<and> nat tid < length T"
    and "\<forall>r \<in> set S. has_cols r" and "\<forall>r \<in> set T. has_cols r" and "has_weights w"
  shows "\<exists>f. compute_fitness chrom S T w = Inr f"
  using fitness_loop_ok [OF _ assms(2-5), of 0 0 0] assms(1) by (simp add: compute_fitness_def)

section \<open>Contracts\<close>

text \<open>
  C18: \<open>score_pair\<close> returns without a \<open>KeyError\<close> exactly when both rows have the five
  criterion columns and the weights have the five keys, and then it returns the sum of the
  weights of the satisfied criteria and their number.
\<close>

theorem score_pair_correct:
  "score_pair s t w = Inr r \<longleftrightarrow>
     has_cols s \<and> has_cols t \<and> has_weights w \<and> r = (pair_score s t w, pair_count s t)"
proof
  assume r: "score_pair s t w = Inr r"
  then have ok: "has_cols s" "has_cols t" "has_weights w" using score_pair_Inr_iff by blast+
  with r score_pair_ok [OF ok] show "has_cols s \<and> has_cols t \<and> has_weights w \<and> r = (pair_score s t w, pair_count s t)"
    by simp
next
  assume "has_cols s \<and> has_cols t \<and> has_weights w \<and> r = (pair_score s t w, pair_count s t)"
  then show "score_pair s t w = Inr r" using score_pair_ok by blast
qed

text \<open>
  C19: on a chromosome whose students and tutors are rows of the frames, rows with the
  criterion columns and weights with the criterion keys, \<open>compute_fitness\<close> returns the sum
  of the pair scores as \<open>total_score\<close> and the mean share of satisfied criteria per pair
  (\<open>count / len(weights)\<close>) as \<open>pct_satisfied\<close>, \<open>0\<close> for the empty chromosome.
\<close>

theorem compute_fitness_correct:
  assumes "length chrom \<le> length S" and "\<forall>tid \<in> set chrom. 0 \<le> tid \<and> nat tid < length T"
    and "\<forall>r \<in> set S. has_cols r" and "\<forall>r \<in> set T. has_cols r" and "has_weights w"
  shows "compute_fitness chrom S T w = Inr
    \<lparr>total_score = sum_list (map (\<lambda>(j, tid). pair_score (S ! j) (T ! nat tid) w) (enumerate 0 chrom)),
     pct_satisfied =
       (if 0 < length chrom
        then sum_list (map (\<lambda>(j, tid). real (pair_count (S ! j) (T ! nat tid)) / real (length w))
                           (enumerate 0 chrom)) / real (length chrom)
        else 0)\<rparr>"
  using fitness_loop_ok [of 0 chrom S T w 0 0] assms by (simp add: compute_fitness_def)

text \<open>
  C20: whenever \<open>compute_fitness\<close> returns, \<open>pct_satisfied\<close> lies between 0 and 1: a pair
  satisfies at most five criteria and a weights dictionary that \<open>score_pair\<close> accepts has
  at least five keys.
\<close>

theorem compute_fitness_pct_bounds:
  "compute_fitness chrom S T w = Inr f \<Longrightarrow> 0 \<le> pct_satisfied f \<and> pct_satisfied f \<le> 1"
  by (auto simp: compute_fitness_def bind_sum_Inr Let_def divide_le_eq_1 dest!: fitness_loop_pct)

end
