(* ===== verification/Driver.thy ===== *)
theory Driver
  imports Fitness
begin

text \<open>
  The data handling the two driver scripts share (\<open>src/Genetic_Algorithm_Tutas/src/main.py\<close>
  and \<open>src/simulated_annealing/src/main.py\<close> hold the same code): the split of the
  preference table into students and tutors (\<open>load_preferences\<close>), the scenario key of a
  file path (\<open>os.path.splitext(os.path.basename(p))[0]\<close>), \<open>os.path.join\<close>, the scenario
  order and the title map, and the report a scenario run returns. A data frame after
  \<open>pd.read_csv(path, index_col=0)\<close> is its column names and its rows; reading the file is
  an input. Lower-casing is Python's \<open>str.lower\<close> on ASCII letters; paths are POSIX paths.
\<close>

section \<open>Data frames and \<open>load_preferences\<close>\<close>

record frame =
  columns :: "string list"
  rows :: "row list"

text \<open>\<open>df[k]\<close>: \<open>KeyError\<close> for a missing column; an empty cell is \<open>NaN\<close>.\<close>

definition get_column :: "frame \<Rightarrow> string \<Rightarrow> cell list result" where
  "get_column df k =
     (if k \<in> set (columns df) then Inr (map (\<lambda>r. case r k of Some c \<Rightarrow> c | None \<Rightarrow> CNaN) (rows df))
      else Inl (KeyError (KStr k)))"

definition lower_char :: "char \<Rightarrow> char" where
  "lower_char c = (let n = (of_char c :: nat) in if 65 \<le> n \<and> n \<le> 90 then char_of (n + 32) else c)"

definition lower :: "string \<Rightarrow> string" where
  "lower s = map lower_char s"

fun is_str :: "cell \<Rightarrow> bool" where
  "is_str (CStr s) = True"
| "is_str _ = False"

fun str_lower_cell :: "cell \<Rightarrow> cell" where
  "str_lower_cell (CStr s) = CStr (lower s)"
| "str_lower_cell _ = CNaN"

text \<open>
  \<open>series.str.lower()\<close>: strings are lower-cased and every other cell becomes \<open>NaN\<close>; a
  non-empty column without any string is typed by \<open>read_csv\<close> as a number column, on which
  the \<open>.str\<close> accessor raises \<open>AttributeError\<close>.
\<close>

definition str_lower :: "cell list \<Rightarrow> cell list result" where
  "str_lower cs = (if cs \<noteq> [] \<and> \<not> list_ex is_str cs then Inl AttributeError else Inr (map str_lower_cell cs))"

text \<open>
  \<open>df[df['Status'] == st].drop(columns=['Status']).reset_index(drop=True)\<close>: the rows
  whose status equals \<open>st\<close> in order, without their status, renumbered from 0.
\<close>

definition select_rows :: "string \<Rightarrow> row list \<Rightarrow> row list" where
  "select_rows st rs =
     map (\<lambda>r. r(''Status'' := None))
       (filter (\<lambda>r. case r ''Status'' of Some c \<Rightarrow> py_eq c (CStr st) | None \<Rightarrow> False) rs)"

text \<open>
  Lines 31--37 of the GA driver: read the status column, store it lower-cased (line 34), and
  split the rows into students (\<open>murid\<close>) and tutors.
\<close>

definition load_preferences :: "frame \<Rightarrow> (row list \<times> row list) result" where
  "load_preferences df =
     bind_sum (get_column df ''Status'') (\<lambda>status.
     bind_sum (str_lower status) (\<lambda>low.
     (let rs = map2 (\<lambda>r c. r(''Status'' \<mapsto> c)) (rows df) low in
      Inr (select_rows ''murid'' rs, select_rows ''tutor'' rs))))"

section \<open>Paths and scenario keys\<close>

text \<open>\<open>os.path.basename\<close>: the part after the last slash.\<close>

definition basename :: "string \<Rightarrow> string" where
  "basename p = rev (takeWhile (\<lambda>c. c \<noteq> CHR ''/'') (rev p))"

text \<open>
  \<open>os.path.splitext(p)[0]\<close> of a name without slash: cut at the last dot, unless only dots
  precede it (a leading-dot name such as \<open>.csv\<close> has no extension).
\<close>

definition splitext_root :: "string \<Rightarrow> string" where
  "splitext_root p =
     (case dropWhile (\<lambda>c. c \<noteq> CHR ''.'') (rev p) of
        [] \<Rightarrow> p
      | d # pre \<Rightarrow> if list_ex (\<lambda>c. c \<noteq> CHR ''.'') pre then rev pre else p)"

definition path_key :: "string \<Rightarrow> string" where
  "path_key p = splitext_root (basename p)"

text \<open>\<open>os.path.join(a, b)\<close> of POSIX paths.\<close>

definition path_join :: "string \<Rightarrow> string \<Rightarrow> string" where
  "path_join a b =
     (if take 1 b = ''/'' then b else if a = [] \<or> last a = CHR ''/'' then a @ b else a @ ''/'' @ b)"

section \<open>Scenarios and reports\<close>

text \<open>The en dash of the titles, in UTF-8.\<close>

definition en_dash :: string where
  "en_dash = [CHR 0xE2, CHR 0x80, CHR 0x93]"

definition title_map :: "(string \<times> string) list" where
  "title_map =
    [(''scenario1_fixed'', ''Skenario 1 '' @ en_dash @ '' Dataset Lengkap (10 pasang murid dan tutor)''),
     (''scenario 2_5_fixed'', ''Skenario 2 '' @ en_dash @ '' Perbandingan Metode Matching (5 pasang murid & tutor)''),
     (''scenario 2_10_fixed'', ''Skenario 2 '' @ en_dash @ '' Perbandingan Metode Matching (10 pasang murid & tutor)''),
     (''scenario 2_25_fixed'', ''Skenario 2 '' @ en_dash @ '' Perbandingan Metode Matching (25 pasang murid & tutor)''),
     (''scenario3_conflict_heavy_fleksibel'',
      ''Skenario 3 '' @ en_dash @ '' Konflik Preferensi Tinggi (Satu Tutor Diperebutkan Banyak Murid)'')]"

definition scenario_order :: "string list" where
  "scenario_order = [''scenario1_fixed'', ''scenario 2_5_fixed'', ''scenario 2_10_fixed'',
     ''scenario 2_25_fixed'', ''scenario3_conflict_heavy_fleksibel'']"

text \<open>\<open>title_map.get(key, key)\<close>.\<close>

definition title_get :: "string \<Rightarrow> string" where
  "title_get k = (case map_of title_map k of Some t \<Rightarrow> t | None \<Rightarrow> k)"

text \<open>
  The weights of both drivers (line 73 of the GA driver, line 69 of the SA driver).
\<close>

definition main_weights :: weights where
  "main_weights = [(''mata_kuliah'', 3/10), (''subbab'', 2/10), (''gaya_belajar'', 2/10),
     (''mode'', 1/10), (''waktu'', 2/10)]"

text \<open>
  The dictionary a scenario run returns; \<open>best_found\<close> is \<open>best_chromosome\<close> in the GA
  driver and \<open>best_assignment\<close> in the SA driver.
\<close>

record 'a scenario_report =
  scenario_key :: string
  best_found :: 'a
  best_fitness :: fitness
  exec_time :: real
  deterministic :: bool

section \<open>What the split promises\<close>

text \<open>
  A row has status \<open>st\<close> when its \<open>Status\<close> cell is a string that lower-cases to
  \<open>st\<close>; \<open>drop_status\<close> removes the column.
\<close>

definition status_is :: "string \<Rightarrow> row \<Rightarrow> bool" where
  "status_is st r = (case r ''Status'' of Some (CStr s) \<Rightarrow> lower s = st | _ \<Rightarrow> False)"

definition drop_status :: "row \<Rightarrow> row" where
  "drop_status r = r(''Status'' := None)"

definition has_status_str :: "frame \<Rightarrow> bool" where
  "has_status_str df = list_ex (\<lambda>r. case r ''Status'' of Some c \<Rightarrow> is_str c | None \<Rightarrow> False) (rows df)"

section \<open>Lemmas\<close>

lemma py_eq_lower_cell:
  "py_eq (str_lower_cell c) (CStr st) \<longleftrightarrow> (case c of CStr s \<Rightarrow> lower s = st | _ \<Rightarrow> False)"
  by (cases c) simp_all

lemma select_rows_lowered:
  "select_rows st (map (\<lambda>r. r(''Status'' \<mapsto> str_lower_cell (case r ''Status'' of Some c \<Rightarrow> c | None \<Rightarrow> CNaN))) rs)
     = map drop_status (filter (status_is st) rs)"
  by (induction rs) (auto simp: select_rows_def drop_status_def status_is_def py_eq_lower_cell
      split: option.splits cell.splits)

lemma select_rows_Nil: "select_rows st [] = []"
  by (simp add: select_rows_def)

lemma map2_map_same: "map2 f xs (map g xs) = map (\<lambda>x. f x (g x)) xs"
  by (induction xs) simp_all

lemma list_ex_status:
  "list_ex is_str (map (\<lambda>r. case r k of Some c \<Rightarrow> c | None \<Rightarrow> CNaN) rs)
     \<longleftrightarrow> list_ex (\<lambda>r. case r k of Some c \<Rightarrow> is_str c | None \<Rightarrow> False) rs"
  by (induction rs) (auto split: option.splits)

lemma no_slash_takeWhile:
  "CHR ''/'' \<notin> set b \<Longrightarrow> takeWhile (\<lambda>c. c \<noteq> CHR ''/'') (rev b @ ys) = rev b @ takeWhile (\<lambda>c. c \<noteq> CHR ''/'') ys"
  by (rule takeWhile_append2) auto

lemma basename_after_slash:
  "CHR ''/'' \<notin> set b \<Longrightarrow> basename (a @ CHR ''/'' # b) = b"
  using no_slash_takeWhile [of b "CHR ''/'' # rev a"] by (simp add: basename_def)

lemma basename_no_slash:
  assumes "CHR ''/'' \<notin> set b"
  shows "basename b = b"
proof -
  have t: "takeWhile (\<lambda>c. c \<noteq> CHR ''/'') (rev b) = rev b" using assms by auto
  show ?thesis by (simp only: basename_def t rev_rev_ident)
qed

lemma splitext_csv:
  "list_ex (\<lambda>c. c \<noteq> CHR ''.'') k \<Longrightarrow> splitext_root (k @ ''.csv'') = k"
  by (simp add: splitext_root_def list_ex_iff)

lemma path_key_join:
  assumes "CHR ''/'' \<notin> set k" and "list_ex (\<lambda>c. c \<noteq> CHR ''.'') k"
  shows "path_key (path_join d (k @ ''.csv'')) = k"
proof -
  have nb: "CHR ''/'' \<notin> set (k @ ''.csv'')" using assms(1) by simp
  have nt: "take 1 (k @ ''.csv'') \<noteq> ''/''" using assms(1) by (cases k) auto
  have "basename (path_join d (k @ ''.csv'')) = k @ ''.csv''"
  proof (cases "d = [] \<or> last d = CHR ''/''")
    case True
    then show ?thesis
    proof
      assume "d = []" then show ?thesis using nb nt by (simp add: path_join_def basename_no_slash)
    next
      assume l: "last d = CHR ''/''"
      show ?thesis
      proof (cases "d = []")
        case False
        then have "d = butlast d @ [CHR ''/'']" using l by (metis append_butlast_last_id)
        then have "path_join d (k @ ''.csv'') = butlast d @ CHR ''/'' # (k @ ''.csv'')"
          using nt l by (simp add: path_join_def)
        then show ?thesis by (simp only: basename_after_slash [OF nb])
      qed (use nb nt in \<open>simp add: path_join_def basename_no_slash\<close>)
    qed
  next
    case False
    then have "path_join d (k @ ''.csv'') = d @ CHR ''/'' # (k @ ''.csv'')" using nt by (simp add: path_join_def)
    then show ?thesis by (simp only: basename_after_slash [OF nb])
  qed
  then show ?thesis using assms(2) by (simp add: path_key_def splitext_csv)
qed

lemma scenario_order_keys:
  "k \<in> set scenario_order \<Longrightarrow> CHR ''/'' \<notin> set k \<and> list_ex (\<lambda>c. c \<noteq> CHR ''.'') k \<and> map_of title_map k \<noteq> None"
  by (auto simp: scenario_order_def title_map_def)

text \<open>
  C31: \<open>load_preferences\<close> raises \<open>KeyError\<close> without a status column and
  \<open>AttributeError\<close> when the column holds no string in a non-empty table; otherwise the
  students are the rows whose status is \<open>murid\<close> in any letter case and the tutors those
  whose status is \<open>tutor\<close>, each in table order and without the status column.
\<close>

theorem load_preferences_spec:
  "load_preferences df =
     (if ''Status'' \<notin> set (columns df) then Inl (KeyError (KStr ''Status''))
      else if rows df \<noteq> [] \<and> \<not> has_status_str df then Inl AttributeError
      else Inr (map drop_status (filter (status_is ''murid'') (rows df)),
                map drop_status (filter (status_is ''tutor'') (rows df))))"
  by (simp add: load_preferences_def get_column_def str_lower_def map2_map_same list_ex_status
      has_status_str_def select_rows_lowered select_rows_Nil Let_def)

text \<open>
  C32: the scenario key of the path the driver builds for a key is that key again, for every
  key without a slash that is not made of dots only.
\<close>

theorem path_key_roundtrip:
  assumes "CHR ''/'' \<notin> set k" and "list_ex (\<lambda>c. c \<noteq> CHR ''.'') k"
  shows "path_key (path_join d (k @ ''.csv'')) = k"
  using assms by (rule path_key_join)

end
