(* ===== verification/Fitness_Copies.thy ===== *)
theory Fitness_Copies
  imports Fitness
begin

text \<open>
  The genetic algorithm and the annealing import their own fitness modules,
  \<open>src/Genetic_Algorithm_Tutas/src/ga/fitness.py\<close> and
  \<open>src/simulated_annealing/src/fitness.py\<close>. Each is translated here from its own lines,
  with the subscript helpers (\<open>col\<close>, \<open>match_col\<close>, \<open>fleks_of\<close>, \<open>weight\<close>,
  \<open>loc\<close>) of \<open>Fitness\<close>, and proved equal to the module of \<open>Backtracking_CSP\<close>, so
  every lemma of \<open>Fitness\<close> holds of the copy each solver calls.
\<close>

section \<open>\<open>ga/fitness.py\<close>\<close>

text \<open>Lines 5--11.\<close>

definition time_score_ga :: "cell \<Rightarrow> cell \<Rightarrow> bool \<Rightarrow> real" where
  "time_score_ga student_time tutor_time fleksibel =
     (if py_eq student_time tutor_time \<or> fleksibel then 1 else 0)"

text \<open>Lines 14--45.\<close>

definition score_pair_ga :: "row \<Rightarrow> row \<Rightarrow> weights \<Rightarrow> (real \<times> nat) result" where
  "score_pair_ga s t weights =
     bind_sum (match_col s t ''mata_kuliah'') (\<lambda>subj_match.
     bind_sum (match_col s t ''subbab'') (\<lambda>topic_match.
     bind_sum (match_col s t ''gaya_belajar'') (\<lambda>style_match.
     bind_sum (match_col s t ''mode'') (\<lambda>mode_match.
     (let fleks = fleks_of s in
     bind_sum (col s ''waktu'') (\<lambda>sw.
     bind_sum (col t ''waktu'') (\<lambda>tw.
     (let time_match = (if py_eq sw tw \<or> fleks then 1 else 0 :: nat) in
     bind_sum (weight weights ''mata_kuliah'') (\<lambda>w1.
     bind_sum (weight weights ''subbab'') (\<lambda>w2.
     bind_sum (weight weights ''gaya_belajar'') (\<lambda>w3.
     bind_sum (weight weights ''mode'') (\<lambda>w4.
     bind_sum (weight weights ''waktu'') (\<lambda>w5.
       Inr (w1 * real subj_match + w2 * real topic_match + w3 * real style_match
              + w4 * real mode_match + w5 * real time_match,
            subj_match + topic_match + style_match + mode_match + time_match))))))))))))))"

text \<open>Lines 63--68.\<close>

fun fitness_loop_ga ::
  "row list \<Rightarrow> row list \<Rightarrow> weights \<Rightarrow> nat \<Rightarrow> int list \<Rightarrow> real \<times> real \<Rightarrow> (real \<times> real) result"
where
  "fitness_loop_ga S T w i [] acc = Inr acc"
| "fitness_loop_ga S T w i (tut_id # rest) (ts, tp) =
     bind_sum (loc S (int i)) (\<lambda>s.
     bind_sum (loc T tut_id) (\<lambda>t.
     bind_sum (score_pair_ga s t w) (\<lambda>(sc, count_sat).
       if length w = 0 then Inl ZeroDivisionError
       else fitness_loop_ga S T w (Suc i) rest (ts + sc, tp + real count_sat / real (length w)))))"

text \<open>Lines 48--76.\<close>

definition compute_fitness_ga :: "int list \<Rightarrow> row list \<Rightarrow> row list \<Rightarrow> weights \<Rightarrow> fitness result" where
  "compute_fitness_ga chromosome df_students df_tutors weights =
     bind_sum (fitness_loop_ga df_students df_tutors weights 0 chromosome (0, 0)) (\<lambda>(ts, tp).
       (let n = length chromosome in
        Inr \<lparr>total_score = ts, pct_satisfied = (if n > 0 then tp / real n else 0)\<rparr>))"

section \<open>\<open>simulated_annealing/src/fitness.py\<close>\<close>

text \<open>Lines 5--11.\<close>

definition time_score_sa :: "cell \<Rightarrow> cell \<Rightarrow> bool \<Rightarrow> real" where
  "time_score_sa student_time tutor_time fleksibel =
     (if py_eq student_time tutor_time \<or> fleksibel then 1 else 0)"

text \<open>Lines 13--39.\<close>

definition score_pair_sa :: "row \<Rightarrow> row \<Rightarrow> weights \<Rightarrow> (real \<times> nat) result" where
  "score_pair_sa s t weights =
     bind_sum (match_col s t ''mata_kuliah'') (\<lambda>subj_match.
     bind_sum (match_col s t ''subbab'') (\<lambda>topic_match.
     bind_sum (match_col s t ''gaya_belajar'') (\<lambda>style_match.
     bind_sum (match_col s t ''mode'') (\<lambda>mode_match.
     (let fleks = fleks_of s in
     bind_sum (col s ''waktu'') (\<lambda>sw.
     bind_sum (col t ''waktu'') (\<lambda>tw.
     (let time_match = (if py_eq sw tw \<or> fleks then 1 else 0 :: nat) in
     bind_sum (weight weights ''mata_kuliah'') (\<lambda>w1.
     bind_sum (weight weights ''subbab'') (\<lambda>w2.
     bind_sum (weight weights ''gaya_belajar'') (\<lambda>w3.
     bind_sum (weight weights ''mode'') (\<lambda>w4.
     bind_sum (weight weights ''waktu'') (\<lambda>w5.
       Inr (w1 * real subj_match + w2 * real topic_match + w3 * real style_match
              + w4 * real mode_match + w5 * real time_match,
            subj_match + topic_match + style_match + mode_match + time_match))))))))))))))"

text \<open>Lines 56--61.\<close>

fun fitness_loop_sa ::
  "row list \<Rightarrow> row list \<Rightarrow> weights \<Rightarrow> nat \<Rightarrow> int list \<Rightarrow> real \<times> real \<Rightarrow> (real \<times> real) result"
where
  "fitness_loop_sa S T w i [] acc = Inr acc"
| "fitness_loop_sa S T w i (tut_id # rest) (ts, tp) =
     bind_sum (loc S (int i)) (\<lambda>s.
     bind_sum (loc T tut_id) (\<lambda>t.
     bind_sum (score_pair_sa s t w) (\<lambda>(sc, count_sat).
       if length w = 0 then Inl ZeroDivisionError
       else fitness_loop_sa S T w (Suc i) rest (ts + sc, tp + real count_sat / real (length w)))))"

text \<open>Lines 41--67.\<close>

definition compute_fitness_sa :: "int list \<Rightarrow> row list \<Rightarrow> row list \<Rightarrow> weights \<Rightarrow> fitness result" where
  "compute_fitness_sa chromosome df_students df_tutors weights =
     bind_sum (fitness_loop_sa df_students df_tutors weights 0 chromosome (0, 0)) (\<lambda>(ts, tp).
       (let n = length chromosome in
        Inr \<lparr>total_score = ts, pct_satisfied = (if n > 0 then tp / real n else 0)\<rparr>))"

section \<open>The copies compute the reference module\<close>

lemma time_score_copies: "time_score_ga = time_score" "time_score_sa = time_score"
  by (simp_all add: fun_eq_iff time_score_ga_def time_score_sa_def time_score_def)

lemma score_pair_copies: "score_pair_ga = score_pair" "score_pair_sa = score_pair"
  by (simp_all add: fun_eq_iff score_pair_ga_def score_pair_sa_def score_pair_def)

lemma fitness_loop_copies:
  "fitness_loop_ga S T w i c acc = fitness_loop S T w i c acc"
  "fitness_loop_sa S T w i c acc = fitness_loop S T w i c acc"
   by (induction S T w i c acc rule: fitness_loop.induct) (simp_all add: score_pair_copies prod.case_eq_if cong: if_cong)

lemma compute_fitness_copies [simp]:
  "compute_fitness_ga = compute_fitness" "compute_fitness_sa = compute_fitness"
  by (simp_all add: fun_eq_iff compute_fitness_ga_def compute_fitness_sa_def compute_fitness_def
      fitness_loop_copies)

end
