(* ===== verification/GA.thy ===== *)
theory GA
  imports Fitness_Copies "HOL-Library.Multiset"
begin

text \<open>
  The genetic algorithm of \<open>src/Genetic_Algorithm_Tutas/src/ga/ga.py\<close>. Every call to
  \<open>random\<close> is an input: a record of draws per child, and a function from the generation
  and the child's position to those draws, so that the model is a function of its inputs.
  \<open>init_chromosome\<close> comes from a module \<open>ga.chromosome\<close> that the repository does not
  contain, so the initial population is an input too. The loop \<open>while gene in mapping1\<close>
  of \<open>pmx_crossover\<close> need not end, so the crossover and everything that calls it return
  an option: \<open>None\<close> is a run that never returns. Its fitness is \<open>compute_fitness\<close> of
  \<open>Fitness\<close>: \<open>ga/fitness.py\<close> is the same code as \<open>Backtracking_CSP/fitness.py\<close>.
\<close>

section \<open>Draws and parameters\<close>

text \<open>
  The draws one child of the \<open>while\<close> loop of \<open>run_ga\<close> consumes: the positions
  \<open>random.sample\<close> picks in the two tournaments, the \<open>random.random()\<close> that decides
  crossover, the two cut points of \<open>pmx_crossover\<close>, the \<open>random.random()\<close> that decides
  mutation and the two positions \<open>swap_mutation\<close> swaps.
\<close>

record child_draw =
  sel1 :: "nat list"
  sel2 :: "nat list"
  cross_r :: real
  cut :: "nat \<times> nat"
  mut_r :: real
  swap_pos :: "nat \<times> nat"

record ga_params =
  pop_size :: nat
  generations :: nat
  crossover_rate :: real
  mutation_rate :: real

type_synonym chromosome = "int list"
type_synonym 'a run = "'a result option"

text \<open>Sequencing of a computation that may raise or not return.\<close>

definition bind_run :: "'a run \<Rightarrow> ('a \<Rightarrow> 'b run) \<Rightarrow> 'b run" where
  "bind_run m f = (case m of None \<Rightarrow> None | Some (Inl e) \<Rightarrow> Some (Inl e) | Some (Inr x) \<Rightarrow> f x)"

text \<open>\<open>[f(x) for x in xs]\<close> where \<open>f\<close> may raise: the first exception propagates.\<close>

fun map_result :: "('a \<Rightarrow> 'b result) \<Rightarrow> 'a list \<Rightarrow> 'b list result" where
  "map_result f [] = Inr []"
| "map_result f (x # xs) = bind_sum (f x) (\<lambda>y. bind_sum (map_result f xs) (\<lambda>ys. Inr (y # ys)))"

section \<open>Operators\<close>

text \<open>
  Lines 14--18: \<open>random.sample(list(zip(pop, fitnesses)), k)\<close> raises \<open>ValueError\<close> when
  \<open>k\<close> exceeds the population; \<open>draw\<close> lists the sampled positions. \<open>max\<close> keeps the
  first of the highest \<open>total_score\<close>, and raises on an empty sample.
\<close>

definition tournament_selection ::
  "chromosome list \<Rightarrow> fitness list \<Rightarrow> nat \<Rightarrow> nat list \<Rightarrow> chromosome result" where
  "tournament_selection pop fitnesses k draw =
     (let cands = zip pop fitnesses in
      if length cands < k then Inl ValueError
      else (case map (\<lambda>i. cands ! i) draw of
              [] \<Rightarrow> Inl ValueError
            | x # xs \<Rightarrow> Inr (fst (max_key (\<lambda>p. total_score (snd p)) x xs))))"

text \<open>Line 30--31: \<open>while gene in mapping1: gene = mapping1[gene]\<close>.\<close>

partial_function (option) pmx_chase :: "(int \<rightharpoonup> int) \<Rightarrow> int \<Rightarrow> int option" where
  "pmx_chase m gene = (case m gene of None \<Rightarrow> Some gene | Some g \<Rightarrow> pmx_chase m g)"

declare pmx_chase.simps [code]

text \<open>Line 25: \<open>{c1[i]: c2[i] for i in range(a, b+1)}\<close>, a later key overwriting an earlier.\<close>

definition pmx_mapping :: "chromosome \<Rightarrow> chromosome \<Rightarrow> nat \<Rightarrow> nat \<Rightarrow> int \<rightharpoonup> int" where
  "pmx_mapping c1 c2 a b = fold (\<lambda>i m. m(c1 ! i \<mapsto> c2 ! i)) [a..<Suc b] Map.empty"

text \<open>Lines 28--32: the positions outside the cut, each filled with its chased gene.\<close>

fun pmx_fill :: "(int \<rightharpoonup> int) \<Rightarrow> chromosome \<Rightarrow> chromosome \<Rightarrow> nat list \<Rightarrow> chromosome run" where
  "pmx_fill m c2 child [] = Some (Inr child)"
| "pmx_fill m c2 child (i # ks) =
     (if i < length c2 then
        (case pmx_chase m (c2 ! i) of
           None \<Rightarrow> None
         | Some gene \<Rightarrow> pmx_fill m c2 (child[i := gene]) ks)
      else Some (Inl IndexError))"

text \<open>
  Lines 20--33. \<open>cut\<close> is the pair \<open>random.sample(range(size), 2)\<close> returns, which
  raises \<open>ValueError\<close> when \<open>size < 2\<close>; the comprehension of line 25 reads \<open>c2[i]\<close>
  up to \<open>b\<close> and raises \<open>IndexError\<close> past the end of \<open>parent2\<close>.
\<close>

definition pmx_crossover :: "chromosome \<Rightarrow> chromosome \<Rightarrow> nat \<times> nat \<Rightarrow> chromosome run" where
  "pmx_crossover parent1 parent2 cutp =
     (let size = length parent1 in
      if size < 2 then Some (Inl ValueError)
      else
        (let a = min (fst cutp) (snd cutp); b = max (fst cutp) (snd cutp) in
         if length parent2 \<le> b then Some (Inl IndexError)
         else
           (let mapping1 = pmx_mapping parent1 parent2 a b;
                child = map (\<lambda>i. if a \<le> i \<and> i \<le> b then parent1 ! i else -1) [0..<size]
            in pmx_fill mapping1 parent2 child ([0..<a] @ [Suc b..<size]))))"

text \<open>
  Lines 35--41: with probability \<open>rate\<close> (the parameter \<open>mutation_rate\<close>) swap two positions drawn by
  \<open>random.sample(range(len(child)), 2)\<close>, which raises when the chromosome is shorter than 2.
\<close>

definition swap_mutation :: "chromosome \<Rightarrow> real \<Rightarrow> real \<Rightarrow> nat \<times> nat \<Rightarrow> chromosome result" where
  "swap_mutation chrom rate r ij =
     (if r < rate then
        (if length chrom < 2 then Inl ValueError
         else (let (i, j) = ij in Inr (chrom[i := chrom ! j, j := chrom ! i])))
      else Inr chrom)"

section \<open>Generations\<close>

text \<open>One pass of the \<open>while\<close> body of lines 63--70.\<close>

definition breed_child :: "ga_params \<Rightarrow> chromosome list \<Rightarrow> fitness list \<Rightarrow> child_draw \<Rightarrow> chromosome run" where
  "breed_child P population fitnesses d =
     bind_run (Some (tournament_selection population fitnesses 3 (sel1 d))) (\<lambda>parent1.
     bind_run (Some (tournament_selection population fitnesses 3 (sel2 d))) (\<lambda>parent2.
     bind_run (if cross_r d < crossover_rate P then pmx_crossover parent1 parent2 (cut d)
               else Some (Inr parent1)) (\<lambda>child.
     Some (swap_mutation child (mutation_rate P) (mut_r d) (swap_pos d)))))"

text \<open>Lines 62--70: \<open>while len(new_pop) < pop_size\<close>; \<open>c\<close> numbers the children.\<close>

function breed ::
  "ga_params \<Rightarrow> chromosome list \<Rightarrow> fitness list \<Rightarrow> (nat \<Rightarrow> child_draw) \<Rightarrow> nat \<Rightarrow> chromosome list
     \<Rightarrow> chromosome list run"
where
  "breed P population fitnesses d c new_pop =
     (if length new_pop < pop_size P then
        bind_run (breed_child P population fitnesses (d c)) (\<lambda>child.
          breed P population fitnesses d (Suc c) (new_pop @ [child]))
      else Some (Inr new_pop))"
  by pat_completeness auto
termination
  by (relation "measure (\<lambda>(P, pop, fits, d, c, new_pop). pop_size P - length new_pop)") auto

text \<open>Lines 56 and 73: \<open>max(zip(population, fitnesses), key=...)\<close>.\<close>

definition best_of :: "chromosome list \<Rightarrow> fitness list \<Rightarrow> (chromosome \<times> fitness) result" where
  "best_of population fitnesses =
     (case zip population fitnesses of
        [] \<Rightarrow> Inl ValueError
      | x # xs \<Rightarrow> Inr (max_key (\<lambda>p. total_score (snd p)) x xs))"

record ga_state =
  population :: "chromosome list"
  fitnesses :: "fitness list"
  best :: "chromosome \<times> fitness"

text \<open>One generation, lines 59--75.\<close>

definition ga_generation ::
  "row list \<Rightarrow> row list \<Rightarrow> weights \<Rightarrow> ga_params \<Rightarrow> (nat \<Rightarrow> child_draw) \<Rightarrow> ga_state \<Rightarrow> ga_state run" where
  "ga_generation S T w P d st =
     bind_run (breed P (population st) (fitnesses st) d 0 [fst (best st)]) (\<lambda>new_pop.
     bind_run (Some (map_result (\<lambda>ch. compute_fitness_ga ch S T w) new_pop)) (\<lambda>fits.
     bind_run (Some (best_of new_pop fits)) (\<lambda>current_best.
       Some (Inr \<lparr>population = new_pop, fitnesses = fits,
                  best = (if total_score (snd (best st)) < total_score (snd current_best)
                          then current_best else best st)\<rparr>))))"

text \<open>\<open>for gen in range(generations)\<close>; \<open>draws gen\<close> are the draws of generation \<open>gen\<close>.\<close>

fun ga_loop ::
  "row list \<Rightarrow> row list \<Rightarrow> weights \<Rightarrow> ga_params \<Rightarrow> (nat \<Rightarrow> nat \<Rightarrow> child_draw) \<Rightarrow> nat list \<Rightarrow> ga_state
     \<Rightarrow> ga_state run"
where
  "ga_loop S T w P draws [] st = Some (Inr st)"
| "ga_loop S T w P draws (gen # gens) st =
     bind_run (ga_generation S T w P (draws gen) st) (ga_loop S T w P draws gens)"

text \<open>
  Lines 54--77 of \<open>run_ga\<close>: the evolution from the initial population \<open>init\<close>; the
  result is \<open>(best_chromosome, best_fitness)\<close>.
\<close>

definition evolve ::
  "row list \<Rightarrow> row list \<Rightarrow> weights \<Rightarrow> ga_params \<Rightarrow> chromosome list \<Rightarrow> (nat \<Rightarrow> nat \<Rightarrow> child_draw)
     \<Rightarrow> (chromosome \<times> fitness) run" where
  "evolve S T w P init draws =
     bind_run (Some (map_result (\<lambda>ch. compute_fitness_ga ch S T w) init)) (\<lambda>fits.
     bind_run (Some (best_of init fits)) (\<lambda>b.
     bind_run (ga_loop S T w P draws [0..<generations P] \<lparr>population = init, fitnesses = fits, best = b\<rparr>)
       (\<lambda>st. Some (Inr (best st)))))"

text \<open>
  Lines 10--12: \<open>[init_chromosome(num_pairs) for _ in range(pop_size)]\<close>. The module
  \<open>ga.chromosome\<close> that defines \<open>init_chromosome\<close> is not in the repository, so its
  results are an input: \<open>init_chromosome k n\<close> is what the \<open>k\<close>-th call returns for
  \<open>n\<close> pairs.
\<close>

definition init_population :: "(nat \<Rightarrow> nat \<Rightarrow> chromosome) \<Rightarrow> nat \<Rightarrow> nat \<Rightarrow> chromosome list" where
  "init_population init_chromosome n_pop num_pairs = map (\<lambda>k. init_chromosome k num_pairs) [0..<n_pop]"

text \<open>Lines 43--77: \<open>num_pairs = len(df_students)\<close> (line 52), the initial population
  (line 53), then the evolution.\<close>

definition run_ga ::
  "row list \<Rightarrow> row list \<Rightarrow> weights \<Rightarrow> ga_params \<Rightarrow> (nat \<Rightarrow> nat \<Rightarrow> chromosome) \<Rightarrow> (nat \<Rightarrow> nat \<Rightarrow> child_draw)
     \<Rightarrow> (chromosome \<times> fitness) run" where
  "run_ga df_students df_tutors weights P init_chromosome draws =
     (let num_pairs = length df_students;
          population = init_population init_chromosome (pop_size P) num_pairs in
      evolve df_students df_tutors weights P population draws)"

section \<open>Chains of the gene chase\<close>

text \<open>
  \<open>chase_path m g n r\<close>: the chase from gene \<open>g\<close> stops at \<open>r\<close> after \<open>n\<close>
  steps; \<open>back_path m r g n\<close>: walking \<open>n\<close> steps back from \<open>r\<close> through \<open>m\<close>
  reaches \<open>g\<close>, which no key maps to; \<open>map_inj m\<close>: no two keys map to one gene.
\<close>

inductive chase_path :: "(int \<rightharpoonup> int) \<Rightarrow> int \<Rightarrow> nat \<Rightarrow> int \<Rightarrow> bool" for m where
  stop: "m g = None \<Longrightarrow> chase_path m g 0 g"
| step: "m g = Some g' \<Longrightarrow> chase_path m g' n r \<Longrightarrow> chase_path m g (Suc n) r"

inductive back_path :: "(int \<rightharpoonup> int) \<Rightarrow> int \<Rightarrow> int \<Rightarrow> nat \<Rightarrow> bool" for m where
  bstart: "g \<notin> ran m \<Longrightarrow> back_path m g g 0"
| bstep: "m z = Some y \<Longrightarrow> back_path m z g n \<Longrightarrow> back_path m y g (Suc n)"

definition map_inj :: "(int \<rightharpoonup> int) \<Rightarrow> bool" where
  "map_inj m = (\<forall>x x' y. m x = Some y \<and> m x' = Some y \<longrightarrow> x = x')"

text \<open>
  Predicates of the generation loop: \<open>ga_inv\<close>, the best pair carries the fitness of its
  chromosome; \<open>perm_pop p pop\<close>, every chromosome is a permutation of \<open>p\<close>;
  \<open>valid_child_draw np n d\<close>, the sampled positions lie below the population size
  \<open>np\<close> and the cut and swap positions below the chromosome length \<open>n\<close>;
  \<open>ga_perm_inv\<close>, the state of a run on permutations.
\<close>

definition ga_inv :: "row list \<Rightarrow> row list \<Rightarrow> weights \<Rightarrow> ga_state \<Rightarrow> bool" where
  "ga_inv S T w st \<longleftrightarrow> compute_fitness (fst (best st)) S T w = Inr (snd (best st))"

definition perm_pop :: "chromosome \<Rightarrow> chromosome list \<Rightarrow> bool" where
  "perm_pop p pop \<longleftrightarrow> (\<forall>c \<in> set pop. mset c = mset p)"

definition valid_child_draw :: "nat \<Rightarrow> nat \<Rightarrow> child_draw \<Rightarrow> bool" where
  "valid_child_draw np n d \<longleftrightarrow>
     (\<forall>i \<in> set (sel1 d) \<union> set (sel2 d). i < np)
     \<and> fst (cut d) < n \<and> snd (cut d) < n \<and> fst (swap_pos d) < n \<and> snd (swap_pos d) < n"

definition ga_perm_inv :: "chromosome \<Rightarrow> ga_params \<Rightarrow> ga_state \<Rightarrow> bool" where
  "ga_perm_inv p P st \<longleftrightarrow> perm_pop p (population st) \<and> length (population st) = pop_size P
     \<and> length (fitnesses st) = length (population st) \<and> mset (fst (best st)) = mset p"

section \<open>Lemmas on the chase and the mapping\<close>

lemma pmx_chase_None: "m g = None \<Longrightarrow> pmx_chase m g = Some g"
  by (simp add: pmx_chase.simps)

lemma pmx_chase_Some: "m g = Some g' \<Longrightarrow> pmx_chase m g = pmx_chase m g'"
  by (subst pmx_chase.simps) simp

lemma chase_path_pmx_chase: "chase_path m g n r \<Longrightarrow> pmx_chase m g = Some r"
  by (induction rule: chase_path.induct) (simp_all add: pmx_chase_None pmx_chase_Some)

lemma pmx_chase_path:
  assumes "pmx_chase m g = Some r"
  shows "\<exists>n. chase_path m g n r"
proof (rule pmx_chase.raw_induct [where P = "\<lambda>m g r. \<exists>n. chase_path m g n r", OF _ assms])
  fix f :: "(int \<rightharpoonup> int) \<Rightarrow> int \<Rightarrow> int option" and m g r
  assume IH: "\<And>m g r. f m g = Some r \<Longrightarrow> \<exists>n. chase_path m g n r"
    and eq: "(case m g of None \<Rightarrow> Some g | Some g' \<Rightarrow> f m g') = Some r"
  show "\<exists>n. chase_path m g n r"
  proof (cases "m g")
    case None
    with eq have "r = g" by simp
    with None show ?thesis by (blast intro: chase_path.stop)
  next
    case (Some g')
    with eq have "f m g' = Some r" by simp
    then obtain n where "chase_path m g' n r" using IH by blast
    with Some show ?thesis by (blast intro: chase_path.step)
  qed
qed

lemma chase_path_end: "chase_path m g n r \<Longrightarrow> m r = None \<and> (r = g \<or> r \<in> ran m)"
  by (induction rule: chase_path.induct) (auto simp: ran_def)

lemma chase_path_upd:
  assumes "chase_path (m(g := None)) x n r" and "x \<noteq> g" and "g \<notin> ran m"
  shows "chase_path m x n r"
  using assms
proof (induction rule: chase_path.induct)
  case (stop x)
  then show ?case by (simp add: chase_path.stop)
next
  case (step x x' n r)
  then have mx: "m x = Some x'" by simp
  then have "x' \<in> ran m" by (auto simp: ran_def)
  with step.prems have "x' \<noteq> g" by blast
  with step.IH step.prems have "chase_path m x' n r" by blast
  with mx show ?case by (rule chase_path.step)
qed

lemma chase_path_exists:
  assumes "finite (dom m)" and "map_inj m" and "g \<notin> ran m"
  shows "\<exists>n r. chase_path m g n r"
  using assms
proof (induction "card (dom m)" arbitrary: m g rule: less_induct)
  case less
  show ?case
  proof (cases "m g")
    case None
    then show ?thesis by (blast intro: chase_path.stop)
  next
    case (Some g')
    let ?m' = "m(g := None)"
    have dom': "dom ?m' = dom m - {g}" by auto
    have "g \<in> dom m" using Some by blast
    with less.prems(1) have "card (dom m - {g}) < card (dom m)" by (rule card_Diff1_less)
    with dom' have card: "card (dom ?m') < card (dom m)" by simp
    have fin: "finite (dom ?m')" using less.prems(1) dom' by simp
    have inj: "map_inj ?m'" using less.prems(2) by (auto simp: map_inj_def)
    have "g' \<notin> ran ?m'"
    proof
      assume "g' \<in> ran ?m'"
      then obtain x where x: "?m' x = Some g'" by (auto simp: ran_def)
      then have "x \<noteq> g" and "m x = Some g'" by (auto split: if_splits)
      with Some less.prems(2) show False by (auto simp: map_inj_def)
    qed
    from less.hyps [OF card fin inj this] obtain n r where p: "chase_path ?m' g' n r" by blast
    have "g' \<in> ran m" using Some by (auto simp: ran_def)
    with less.prems(3) have "g' \<noteq> g" by blast
    from chase_path_upd [OF p this less.prems(3)] have "chase_path m g' n r" .
    with Some show ?thesis by (blast intro: chase_path.step)
  qed
qed

lemma chase_back_path:
  "chase_path m x n r \<Longrightarrow> back_path m x g k \<Longrightarrow> back_path m r g (k + n)"
proof (induction arbitrary: k rule: chase_path.induct)
  case (stop x)
  then show ?case by simp
next
  case (step x x' n r)
  from step.hyps(1) step.prems have "back_path m x' g (Suc k)" by (rule back_path.bstep)
  from step.IH [OF this] show ?case by simp
qed

lemma back_path_unique:
  "back_path m y g n \<Longrightarrow> back_path m y g' n' \<Longrightarrow> map_inj m \<Longrightarrow> g = g'"
proof (induction arbitrary: g' n' rule: back_path.induct)
  case (bstart g)
  from bstart.prems(1) show ?case
  proof (cases rule: back_path.cases)
    case bstart
    then show ?thesis by simp
  next
    case (bstep z n)
    with bstart.hyps show ?thesis by (auto simp: ran_def)
  qed
next
  case (bstep z y g n)
  from bstep.prems(1) show ?case
  proof (cases rule: back_path.cases)
    case bstart
    with bstep.hyps(1) show ?thesis by (auto simp: ran_def)
  next
    case (bstep z' n2)
    with bstep.hyps(1) bstep.prems(2) have "z' = z" by (auto simp: map_inj_def)
    with bstep.IH bstep bstep.prems(2) show ?thesis by blast
  qed
qed

lemma pmx_chase_inj:
  assumes "pmx_chase m g = Some r" and "pmx_chase m g' = Some r"
    and "g \<notin> ran m" and "g' \<notin> ran m" and "map_inj m"
  shows "g = g'"
proof -
  from pmx_chase_path [OF assms(1)] obtain n where p: "chase_path m g n r" by blast
  from pmx_chase_path [OF assms(2)] obtain n' where p': "chase_path m g' n' r" by blast
  have "back_path m r g (0 + n)" using chase_back_path [OF p back_path.bstart [OF assms(3)]] .
  moreover have "back_path m r g' (0 + n')" using chase_back_path [OF p' back_path.bstart [OF assms(4)]] .
  ultimately show ?thesis using back_path_unique assms(5) by blast
qed

lemma fold_upd_notin:
  "x \<notin> f ` set ix \<Longrightarrow> fold (\<lambda>i m. m(f i \<mapsto> g i)) ix m0 x = m0 x"
  by (induction ix arbitrary: m0) auto

lemma fold_upd_in:
  "i \<in> set ix \<Longrightarrow> inj_on f (set ix) \<Longrightarrow> fold (\<lambda>i m. m(f i \<mapsto> g i)) ix m0 (f i) = Some (g i)"
proof (induction ix arbitrary: m0)
  case Nil
  then show ?case by simp
next
  case (Cons j js)
  show ?case
  proof (cases "i \<in> set js")
    case True
    with Cons show ?thesis by simp
  next
    case False
    with Cons.prems have ij: "i = j" by simp
    have "f j \<notin> f ` set js"
    proof
      assume "f j \<in> f ` set js"
      then obtain k where "k \<in> set js" "f k = f j" by auto
      with inj_onD [OF Cons.prems(2), of k j] have "k = j" by simp
      with \<open>k \<in> set js\<close> False ij show False by simp
    qed
    then have "fold (\<lambda>i m. m(f i \<mapsto> g i)) js (m0(f j \<mapsto> g j)) (f j) = (m0(f j \<mapsto> g j)) (f j)"
      by (rule fold_upd_notin)
    then show ?thesis by (simp only: ij fold_Cons comp_apply fun_upd_same)
  qed
qed

lemma fold_nth_update:
  "i < length c0 \<Longrightarrow> fold (\<lambda>k c. c[k := h k]) ks c0 ! i = (if i \<in> set ks then h i else c0 ! i)"
  by (induction ks arbitrary: c0) auto

lemma length_fold_update [simp]: "length (fold (\<lambda>k c. c[k := h k]) ks c0) = length c0"
  by (induction ks arbitrary: c0) auto

lemma pmx_fill_Some:
  "\<forall>k \<in> set ks. k < length c2 \<and> pmx_chase m (c2 ! k) \<noteq> None \<Longrightarrow>
    pmx_fill m c2 child ks = Some (Inr (fold (\<lambda>k c. c[k := the (pmx_chase m (c2 ! k))]) ks child))"
  by (induction ks arbitrary: child) auto

lemma inj_on_nth_seg: "distinct xs \<Longrightarrow> b < length xs \<Longrightarrow> inj_on (\<lambda>i. xs ! i) (set [a..<Suc b])"
  by (auto intro!: inj_onI simp: nth_eq_iff_index_eq)

lemma pmx_mapping_at:
  "distinct p1 \<Longrightarrow> b < length p1 \<Longrightarrow> a \<le> t \<Longrightarrow> t \<le> b \<Longrightarrow> pmx_mapping p1 p2 a b (p1 ! t) = Some (p2 ! t)"
proof -
  assume d: "distinct p1" and b: "b < length p1" and t: "a \<le> t" "t \<le> b"
  from t have "t \<in> set [a..<Suc b]" by auto
  from fold_upd_in [OF this inj_on_nth_seg [OF d b], of "\<lambda>i. p2 ! i" Map.empty]
  show ?thesis by (simp add: pmx_mapping_def)
qed

lemma pmx_mapping_Some:
  assumes "pmx_mapping p1 p2 a b x = Some y" and "distinct p1" and "b < length p1"
  shows "\<exists>t. a \<le> t \<and> t \<le> b \<and> x = p1 ! t \<and> y = p2 ! t"
proof (cases "x \<in> (\<lambda>i. p1 ! i) ` set [a..<Suc b]")
  case True
  then obtain t where t: "a \<le> t" "t \<le> b" and x: "x = p1 ! t" by auto
  with pmx_mapping_at [OF assms(2,3) t, of p2] assms(1) show ?thesis by auto
next
  case False
  then have "pmx_mapping p1 p2 a b x = None"
    unfolding pmx_mapping_def by (simp add: fold_upd_notin)
  with assms(1) show ?thesis by simp
qed

lemma pmx_mapping_inj:
  assumes "distinct p1" "distinct p2" "b < length p1" "b < length p2"
  shows "map_inj (pmx_mapping p1 p2 a b)"
  unfolding map_inj_def
proof (intro allI impI, elim conjE)
  fix x x' y
  assume "pmx_mapping p1 p2 a b x = Some y" and "pmx_mapping p1 p2 a b x' = Some y"
  from pmx_mapping_Some [OF this(1) assms(1,3)] obtain t where
    t: "a \<le> t" "t \<le> b" "x = p1 ! t" "y = p2 ! t" by blast
  from pmx_mapping_Some [OF \<open>pmx_mapping p1 p2 a b x' = Some y\<close> assms(1,3)] obtain t' where
    t': "a \<le> t'" "t' \<le> b" "x' = p1 ! t'" "y = p2 ! t'" by blast
  from t t' assms(2,3,4) have "t = t'" by (simp add: nth_eq_iff_index_eq)
  with t t' show "x = x'" by simp
qed

lemma pmx_mapping_finite: "finite (dom (pmx_mapping p1 p2 a b))"
proof -
  have "dom (pmx_mapping p1 p2 a b) \<subseteq> (\<lambda>i. p1 ! i) ` set [a..<Suc b]"
  proof
    fix x assume x: "x \<in> dom (pmx_mapping p1 p2 a b)"
    show "x \<in> (\<lambda>i. p1 ! i) ` set [a..<Suc b]"
    proof (rule ccontr)
      assume "x \<notin> (\<lambda>i. p1 ! i) ` set [a..<Suc b]"
      then have "fold (\<lambda>i m. m(p1 ! i \<mapsto> p2 ! i)) [a..<Suc b] Map.empty x = Map.empty x"
        by (rule fold_upd_notin)
      with x show False by (auto simp: pmx_mapping_def)
    qed
  qed
  then show ?thesis by (rule finite_subset) simp
qed

lemma pmx_mapping_ran:
  assumes "distinct p1" "b < length p1" "y \<in> ran (pmx_mapping p1 p2 a b)"
  shows "\<exists>t. a \<le> t \<and> t \<le> b \<and> y = p2 ! t"
proof -
  from assms(3) obtain x where "pmx_mapping p1 p2 a b x = Some y" by (auto simp: ran_def)
  from pmx_mapping_Some [OF this assms(1,2)] show ?thesis by blast
qed

lemma pmx_outside_not_ran:
  assumes "distinct p1" "distinct p2" "b < length p1" "k < length p2" "\<not> (a \<le> k \<and> k \<le> b)"
    and "b < length p2"
  shows "p2 ! k \<notin> ran (pmx_mapping p1 p2 a b)"
proof
  assume "p2 ! k \<in> ran (pmx_mapping p1 p2 a b)"
  from pmx_mapping_ran [OF assms(1,3) this] obtain t where t: "a \<le> t" "t \<le> b" "p2 ! k = p2 ! t" by blast
  with assms(2,4,6) have "k = t" by (simp add: nth_eq_iff_index_eq)
  with t assms(5) show False by simp
qed

lemma pmx_chase_terminates:
  assumes "finite (dom m)" and "map_inj m" and "g \<notin> ran m"
  shows "\<exists>r. pmx_chase m g = Some r \<and> m r = None \<and> (r = g \<or> r \<in> ran m)"
proof -
  from chase_path_exists [OF assms] obtain n r where p: "chase_path m g n r" by blast
  from chase_path_pmx_chase [OF p] chase_path_end [OF p] show ?thesis by blast
qed

lemma pmx_crossover_perm_aux:
  assumes d1: "distinct p1" and mp: "mset p2 = mset p1" and n2: "2 \<le> length p1"
    and i: "i < length p1" and j: "j < length p1"
  shows "\<exists>c. pmx_crossover p1 p2 (i, j) = Some (Inr c) \<and> mset c = mset p1
     \<and> (\<forall>k < length p1. min i j \<le> k \<and> k \<le> max i j \<longrightarrow> c ! k = p1 ! k)"
proof -
  define a where "a = min i j"
  define b where "b = max i j"
  define n where "n = length p1"
  define m where "m = pmx_mapping p1 p2 a b"
  define R where "R k = the (pmx_chase m (p2 ! k))" for k
  define F where "F k = (if a \<le> k \<and> k \<le> b then p1 ! k else R k)" for k
  define ks where "ks = [0..<a] @ [Suc b..<n]"
  have len2: "length p2 = n" using mp by (simp add: n_def flip: size_mset)
  have d2: "distinct p2" using mset_eq_imp_distinct_iff [OF mp] d1 by simp
  have set2: "set p2 = set p1" using mp by (metis set_mset_mset)
  have ab: "a \<le> b" and bn: "b < n" using i j by (auto simp: a_def b_def n_def)
  have fin: "finite (dom m)" by (simp add: m_def pmx_mapping_finite)
  have inj: "map_inj m" using d1 d2 bn len2 by (simp add: m_def n_def pmx_mapping_inj)
  have out: "\<exists>r. pmx_chase m (p2 ! k) = Some r \<and> m r = None \<and> (r = p2 ! k \<or> r \<in> ran m)"
    if "k < n" "\<not> (a \<le> k \<and> k \<le> b)" for k
    using pmx_chase_terminates [OF fin inj] pmx_outside_not_ran [OF d1 d2, of b k a] that bn len2
    by (simp add: m_def n_def)
  have Rk: "pmx_chase m (p2 ! k) = Some (R k) \<and> m (R k) = None \<and> (R k = p2 ! k \<or> R k \<in> ran m)"
    if "k < n" "\<not> (a \<le> k \<and> k \<le> b)" for k
    using out [OF that] by (auto simp: R_def)
  have ks: "k \<in> set ks \<longleftrightarrow> k < n \<and> \<not> (a \<le> k \<and> k \<le> b)" for k
    using bn ab by (auto simp: ks_def)
  let ?child = "map (\<lambda>k. if a \<le> k \<and> k \<le> b then p1 ! k else -1) [0..<n]"
  have fill: "pmx_fill m p2 ?child ks = Some (Inr (fold (\<lambda>k c. c[k := the (pmx_chase m (p2 ! k))]) ks ?child))"
    using Rk ks len2 by (intro pmx_fill_Some) auto
  have c_eq: "fold (\<lambda>k c. c[k := the (pmx_chase m (p2 ! k))]) ks ?child = map F [0..<n]"
    by (rule nth_equalityI) (auto simp: fold_nth_update ks F_def R_def)
  have res: "pmx_crossover p1 p2 (i, j) = Some (Inr (map F [0..<n]))"
    using n2 bn len2 fill c_eq
    by (simp add: pmx_crossover_def Let_def a_def b_def m_def ks_def n_def not_le)
  have seg_dom: "m (p1 ! k) \<noteq> None" if "a \<le> k" "k \<le> b" for k
  proof -
    have "b < length p1" using bn by (simp add: n_def)
    from pmx_mapping_at [OF d1 this that] show ?thesis by (simp add: m_def)
  qed
  have ran_sub: "ran m \<subseteq> set p2"
  proof
    fix y assume "y \<in> ran m"
    moreover have "b < length p1" using bn by (simp add: n_def)
    ultimately obtain t where "a \<le> t" "t \<le> b" "y = p2 ! t"
      using pmx_mapping_ran [OF d1] by (metis m_def)
    with bn len2 show "y \<in> set p2" by simp
  qed
  have F_in: "F k \<in> set p1" if "k < n" for k
  proof (cases "a \<le> k \<and> k \<le> b")
    case True
    with that show ?thesis by (simp add: F_def n_def)
  next
    case False
    with Rk [OF that False] ran_sub len2 that set2 show ?thesis
      by (auto simp: F_def)
  qed
  have F_inj: "inj_on F {..<n}"
  proof (rule inj_onI)
    fix x y assume x: "x \<in> {..<n}" and y: "y \<in> {..<n}" and eq: "F x = F y"
    consider "a \<le> x \<and> x \<le> b" "a \<le> y \<and> y \<le> b" | "a \<le> x \<and> x \<le> b" "\<not> (a \<le> y \<and> y \<le> b)"
      | "\<not> (a \<le> x \<and> x \<le> b)" "a \<le> y \<and> y \<le> b" | "\<not> (a \<le> x \<and> x \<le> b)" "\<not> (a \<le> y \<and> y \<le> b)"
      by blast
    then show "x = y"
    proof cases
      case 1
      with eq x y d1 show ?thesis by (simp add: F_def n_def nth_eq_iff_index_eq)
    next
      case 2
      with eq Rk [of y] seg_dom [of x] y show ?thesis by (simp add: F_def)
    next
      case 3
      with eq Rk [of x] seg_dom [of y] x show ?thesis by (simp add: F_def)
    next
      case 4
      from 4 have Fx: "F x = R x" and Fy: "F y = R y" unfolding F_def by auto
      from Rk [of x] Rk [of y] x y 4 have cx: "pmx_chase m (p2 ! x) = Some (R x)"
        and cy: "pmx_chase m (p2 ! y) = Some (R y)" by auto
      from eq Fx Fy cx cy have "pmx_chase m (p2 ! x) = Some (F x)" "pmx_chase m (p2 ! y) = Some (F x)"
        by simp_all
      moreover have "p2 ! x \<notin> ran m" "p2 ! y \<notin> ran m"
        using 4 x y pmx_outside_not_ran [OF d1 d2, of b _ a] bn len2 by (simp_all add: m_def n_def)
      ultimately have "p2 ! x = p2 ! y" using pmx_chase_inj inj by blast
      with x y d2 len2 show ?thesis by (simp add: nth_eq_iff_index_eq)
    qed
  qed
  have dc: "distinct (map F [0..<n])" using F_inj by (simp add: distinct_map atLeast0LessThan)
  have sub: "set (map F [0..<n]) \<subseteq> set p1" using F_in by auto
  have c1: "card (set (map F [0..<n])) = n" using distinct_card [OF dc] by simp
  have c2: "card (set p1) = n" using distinct_card [OF d1] by (simp add: n_def)
  from c1 c2 have "card (set (map F [0..<n])) = card (set p1)" by simp
  with sub have "set (map F [0..<n]) = set p1" by (simp add: card_subset_eq)
  with dc d1 have ms: "mset (map F [0..<n]) = mset p1" using set_eq_iff_mset_eq_distinct [OF dc d1] by blast
  have seg: "\<forall>k < length p1. min i j \<le> k \<and> k \<le> max i j \<longrightarrow> map F [0..<n] ! k = p1 ! k"
    by (simp add: F_def a_def b_def n_def)
  from res ms seg show ?thesis by blast
qed

lemma chase_path_cycle:
  "chase_path m g n r \<Longrightarrow> g \<in> S \<Longrightarrow> \<forall>x \<in> S. \<exists>y \<in> S. m x = Some y \<Longrightarrow> False"
  by (induction rule: chase_path.induct) fastforce+

lemma pmx_chase_cycle:
  assumes "g \<in> S" and "\<forall>x \<in> S. \<exists>y \<in> S. m x = Some y"
  shows "pmx_chase m g = None"
proof (rule ccontr)
  assume "pmx_chase m g \<noteq> None"
  then obtain r where "pmx_chase m g = Some r" by blast
  from pmx_chase_path [OF this] obtain n where "chase_path m g n r" by blast
  from chase_path_cycle [OF this assms] show False .
qed

section \<open>Contracts of the operators\<close>

text \<open>
  C21: on two parents that are permutations of each other without repeated genes, with at
  least two genes and cut points inside them, \<open>pmx_crossover\<close> returns (the chase of line
  30 ends), and its child is a permutation of the parents that keeps the first parent's genes
  between the cut points.
\<close>

theorem pmx_crossover_perm:
  assumes "distinct p1" and "mset p2 = mset p1" and "2 \<le> length p1"
    and "i < length p1" and "j < length p1"
  shows "\<exists>c. pmx_crossover p1 p2 (i, j) = Some (Inr c) \<and> mset c = mset p1
     \<and> (\<forall>k < length p1. min i j \<le> k \<and> k \<le> max i j \<longrightarrow> c ! k = p1 ! k)"
  using assms by (rule pmx_crossover_perm_aux)

text \<open>
  C22: on parents that are not permutations of each other the chase of line 30 can cycle:
  \<open>pmx_crossover([1, 2, 0], [2, 1, 1])\<close> with cut points 0 and 1 builds the mapping
  \<open>{1: 2, 2: 1}\<close>, and filling position 2 (gene 1) never returns.
\<close>

theorem pmx_crossover_diverges: "pmx_crossover [1, 2, 0] [2, 1, 1] (0, 1) = None"
proof -
  have "pmx_chase [1 \<mapsto> 2, 2 \<mapsto> 1] 1 = None"
    by (rule pmx_chase_cycle [where S = "{1, 2}"]) auto
  then show ?thesis by (simp add: pmx_crossover_def pmx_mapping_def)
qed

section \<open>The generation loop\<close>

lemma map_result_Inr:
  "map_result f xs = Inr ys \<Longrightarrow> list_all2 (\<lambda>x y. f x = Inr y) xs ys"
  by (induction xs arbitrary: ys) (auto simp: bind_sum_Inr)

lemma best_of_Inr:
  assumes "best_of pop fits = Inr p"
  shows "p \<in> set (zip pop fits) \<and> (\<forall>q \<in> set (zip pop fits). total_score (snd q) \<le> total_score (snd p))"
proof (cases "zip pop fits")
  case Nil
  with assms show ?thesis by (simp add: best_of_def)
next
  case (Cons x xs)
  with assms have p: "p = max_key (\<lambda>p. total_score (snd p)) x xs" by (simp add: best_of_def)
  from max_key_in [of "\<lambda>p. total_score (snd p)" x xs] max_key_ge [of "\<lambda>p. total_score (snd p)" x xs] p Cons
  show ?thesis by auto
qed

lemma best_of_fitness:
  assumes "map_result (\<lambda>ch. compute_fitness ch S T w) pop = Inr fits" and "best_of pop fits = Inr p"
  shows "compute_fitness (fst p) S T w = Inr (snd p) \<and> (\<forall>f \<in> set fits. total_score f \<le> total_score (snd p))"
proof -
  from map_result_Inr [OF assms(1)] have l: "list_all2 (\<lambda>x y. compute_fitness x S T w = Inr y) pop fits" .
  from best_of_Inr [OF assms(2)] have p: "p \<in> set (zip pop fits)"
    and ge: "\<forall>q \<in> set (zip pop fits). total_score (snd q) \<le> total_score (snd p)" by blast+
  from l p have "compute_fitness (fst p) S T w = Inr (snd p)"
    by (auto simp: list_all2_conv_all_nth in_set_zip)
  moreover have "\<forall>f \<in> set fits. total_score f \<le> total_score (snd p)"
  proof
    fix f assume "f \<in> set fits"
    then obtain k where k: "k < length fits" "fits ! k = f" by (auto simp: in_set_conv_nth)
    with l have "(pop ! k, f) \<in> set (zip pop fits)"
      by (auto simp: list_all2_conv_all_nth in_set_zip intro: exI [of _ k])
    with ge show "total_score f \<le> total_score (snd p)" by force
  qed
  ultimately show ?thesis by blast
qed

lemma bind_run_Some_Inr:
  "bind_run m f = Some (Inr y) \<longleftrightarrow> (\<exists>x. m = Some (Inr x) \<and> f x = Some (Inr y))"
  by (auto simp: bind_run_def split: option.splits sum.splits)

lemma ga_generation_inv:
  assumes "ga_generation S T w P d st = Some (Inr st')" and "ga_inv S T w st"
  shows "ga_inv S T w st' \<and> total_score (snd (best st)) \<le> total_score (snd (best st'))"
proof -
  from assms(1) obtain new_pop fits cb where
      m: "map_result (\<lambda>ch. compute_fitness ch S T w) new_pop = Inr fits"
    and b: "best_of new_pop fits = Inr cb"
    and st': "st' = \<lparr>population = new_pop, fitnesses = fits,
                  best = (if total_score (snd (best st)) < total_score (snd cb) then cb else best st)\<rparr>"
    by (auto simp: ga_generation_def bind_run_Some_Inr)
  from best_of_fitness [OF m b] have "compute_fitness (fst cb) S T w = Inr (snd cb)" by blast
  with assms(2) st' show ?thesis by (auto simp: ga_inv_def)
qed

lemma ga_loop_inv:
  "ga_loop S T w P draws gens st = Some (Inr st') \<Longrightarrow> ga_inv S T w st \<Longrightarrow>
    ga_inv S T w st' \<and> total_score (snd (best st)) \<le> total_score (snd (best st'))"
proof (induction gens arbitrary: st)
  case Nil
  then show ?case by simp
next
  case (Cons g gens)
  from Cons.prems(1) obtain st1 where
    s1: "ga_generation S T w P (draws g) st = Some (Inr st1)" and r: "ga_loop S T w P draws gens st1 = Some (Inr st')"
    by (auto simp: bind_run_Some_Inr)
  from ga_generation_inv [OF s1 Cons.prems(2)] have i1: "ga_inv S T w st1"
    and m1: "total_score (snd (best st)) \<le> total_score (snd (best st1))" by blast+
  from Cons.IH [OF r i1] m1 show ?case by auto
qed

lemma evolve_best:
  assumes "evolve S T w P init draws = Some (Inr (bc, bf))"
  shows "compute_fitness bc S T w = Inr bf
    \<and> (\<exists>fits. map_result (\<lambda>ch. compute_fitness ch S T w) init = Inr fits
              \<and> (\<forall>f \<in> set fits. total_score f \<le> total_score bf))"
proof -
  from assms obtain fits b st where
      m: "map_result (\<lambda>ch. compute_fitness ch S T w) init = Inr fits"
    and b: "best_of init fits = Inr b"
    and r: "ga_loop S T w P draws [0..<generations P] \<lparr>population = init, fitnesses = fits, best = b\<rparr> = Some (Inr st)"
    and res: "best st = (bc, bf)"
    by (auto simp: evolve_def bind_run_Some_Inr)
  from best_of_fitness [OF m b] have fb: "compute_fitness (fst b) S T w = Inr (snd b)"
    and ge: "\<forall>f \<in> set fits. total_score f \<le> total_score (snd b)" by blast+
  have "ga_inv S T w \<lparr>population = init, fitnesses = fits, best = b\<rparr>" using fb by (simp add: ga_inv_def)
  from ga_loop_inv [OF r this] res have "compute_fitness bc S T w = Inr bf"
    and "total_score (snd b) \<le> total_score bf" by (auto simp: ga_inv_def)
  with m ge show ?thesis by force
qed

text \<open>
  C27: whenever \<open>run_ga\<close> returns, \<open>best_fitness\<close> is the fitness of
  \<open>best_chromosome\<close>, and it is at least the fitness of every chromosome of the initial
  population: elitism keeps the best, and it is only replaced by a strictly better one.
\<close>

theorem run_ga_best:
  assumes "run_ga S T w P init_chromosome draws = Some (Inr (bc, bf))"
  shows "compute_fitness bc S T w = Inr bf
    \<and> (\<exists>fits. map_result (\<lambda>ch. compute_fitness ch S T w) (init_population init_chromosome (pop_size P) (length S)) = Inr fits
              \<and> (\<forall>f \<in> set fits. total_score f \<le> total_score bf))"
  using assms unfolding run_ga_def Let_def by (rule evolve_best)

lemma map_result_length: "map_result f xs = Inr ys \<Longrightarrow> length ys = length xs"
  using map_result_Inr list_all2_lengthD by fastforce

lemma evolve_small_population:
  assumes "pop_size P = 2" and "length init = 2" and "0 < generations P"
    and "map_result (\<lambda>ch. compute_fitness ch S T w) init = Inr fits"
  shows "evolve S T w P init draws = Some (Inl ValueError)"
proof -
  from assms(2,4) have lf: "length fits = 2" using map_result_length by fastforce
  from assms(2) lf obtain b where b: "best_of init fits = Inr b"
    by (cases init; cases fits) (auto simp: best_of_def)
  obtain g gs where gens: "[0..<generations P] = g # gs" using assms(3) by (cases "generations P") (auto simp: upt_rec)
  have "breed P init fits (draws g) 0 [fst b] = Some (Inl ValueError)"
    using assms(1,2) lf by (simp add: breed.simps breed_child_def tournament_selection_def bind_run_def)
  then have "ga_generation S T w P (draws g) \<lparr>population = init, fitnesses = fits, best = b\<rparr> = Some (Inl ValueError)"
    by (simp add: ga_generation_def bind_run_def)
  with assms(4) b gens show ?thesis by (simp add: evolve_def bind_run_def)
qed

text \<open>
  C28: with \<open>pop_size = 2\<close> (and two initial chromosomes whose fitness can be computed)
  the first generation raises \<open>ValueError\<close>: \<open>tournament_selection\<close> samples
  \<open>k = 3\<close> of only two candidates.
\<close>

theorem run_ga_small_population:
  assumes "pop_size P = 2" and "0 < generations P"
    and "map_result (\<lambda>ch. compute_fitness ch S T w) (init_population init_chromosome 2 (length S)) = Inr fits"
  shows "run_ga S T w P init_chromosome draws = Some (Inl ValueError)"
  unfolding run_ga_def Let_def assms(1)
  by (rule evolve_small_population [OF assms(1) _ assms(2) assms(3)]) (simp add: init_population_def)

lemma tournament_selection_in:
  assumes "tournament_selection pop fits k draw = Inr c" and "\<forall>i \<in> set draw. i < length pop"
    and "length fits = length pop"
  shows "c \<in> set pop"
proof -
  let ?cands = "zip pop fits"
  from assms(1) obtain x xs where xs: "map (\<lambda>i. ?cands ! i) draw = x # xs"
    and c: "c = fst (max_key (\<lambda>p. total_score (snd p)) x xs)"
    by (auto simp: tournament_selection_def Let_def split: if_splits list.splits)
  have "\<forall>i \<in> set draw. i < length ?cands" using assms(2,3) by simp
  then have "set (map (\<lambda>i. ?cands ! i) draw) \<subseteq> set ?cands" by (auto simp del: nth_zip)
  with xs max_key_in [of "\<lambda>p. total_score (snd p)" x xs] have "max_key (\<lambda>p. total_score (snd p)) x xs \<in> set ?cands"
    by auto
  then have "fst (max_key (\<lambda>p. total_score (snd p)) x xs) \<in> set pop"
    by (metis prod.collapse set_zip_leftD)
  with c show ?thesis by simp
qed

lemma swap_mutation_mset:
  assumes "swap_mutation c rate r (i, j) = Inr c'" and "i < length c" and "j < length c"
  shows "mset c' = mset c"
  using assms mset_swap [of j c i] by (auto simp: swap_mutation_def split: if_splits)

lemma bind_run_Some:
  "bind_run m f = Some r \<Longrightarrow> (\<exists>e. m = Some (Inl e) \<and> r = Inl e) \<or> (\<exists>x. m = Some (Inr x) \<and> f x = Some r)"
  by (auto simp: bind_run_def split: option.splits sum.splits)

lemma breed_child_perm:
  assumes p: "distinct p" "2 \<le> length p" and pop: "perm_pop p pop" and lf: "length fits = length pop"
    and d: "valid_child_draw (length pop) (length p) d"
  shows "\<exists>r. breed_child P pop fits d = Some r \<and> (\<forall>c. r = Inr c \<longrightarrow> mset c = mset p)"
proof (cases "tournament_selection pop fits 3 (sel1 d)")
  case (Inl e)
  then show ?thesis by (simp add: breed_child_def bind_run_def)
next
  case (Inr p1)
  note t1 = Inr
  from tournament_selection_in [OF t1 _ lf] d pop have m1: "mset p1 = mset p"
    by (auto simp: valid_child_draw_def perm_pop_def)
  show ?thesis
  proof (cases "tournament_selection pop fits 3 (sel2 d)")
    case (Inl e)
    with t1 show ?thesis by (simp add: breed_child_def bind_run_def)
  next
    case (Inr p2)
    from tournament_selection_in [OF Inr _ lf] d pop have m2: "mset p2 = mset p"
      by (auto simp: valid_child_draw_def perm_pop_def)
    have d1: "distinct p1" using m1 p(1) mset_eq_imp_distinct_iff by blast
    have l1: "length p1 = length p" using m1 by (metis size_mset)
    obtain child where ch: "(if cross_r d < crossover_rate P then pmx_crossover p1 p2 (cut d) else Some (Inr p1))
        = Some (Inr child)" and mc: "mset child = mset p"
    proof (cases "cross_r d < crossover_rate P")
      case True
      from pmx_crossover_perm_aux [OF d1 _ _, of p2 "fst (cut d)" "snd (cut d)"] m1 m2 l1 p(2) d
      obtain c where "pmx_crossover p1 p2 (cut d) = Some (Inr c)" "mset c = mset p1"
        by (auto simp: valid_child_draw_def)
      with True m1 that show ?thesis by simp
    next
      case False
      with m1 that show ?thesis by simp
    qed
    have lc: "length child = length p" using mc by (metis size_mset)
    have "\<forall>c. swap_mutation child (mutation_rate P) (mut_r d) (swap_pos d) = Inr c \<longrightarrow> mset c = mset p"
      using swap_mutation_mset [of child _ _ "fst (swap_pos d)" "snd (swap_pos d)"] d lc mc
      by (auto simp: valid_child_draw_def)
    with t1 Inr ch show ?thesis by (simp add: breed_child_def bind_run_def)
  qed
qed

lemma breed_perm:
  assumes p: "distinct p" "2 \<le> length p" and pop: "perm_pop p pop" and lf: "length fits = length pop"
    and d: "\<forall>c. valid_child_draw (length pop) (length p) (d c)"
  shows "perm_pop p new_pop \<Longrightarrow>
    \<exists>r. breed P pop fits d c new_pop = Some r
      \<and> (\<forall>np. r = Inr np \<longrightarrow> perm_pop p np \<and> length np = max (length new_pop) (pop_size P))"
proof (induction "pop_size P - length new_pop" arbitrary: c new_pop rule: less_induct)
  case less
  show ?case
  proof (cases "length new_pop < pop_size P")
    case False
    with less.prems show ?thesis by (simp add: breed.simps)
  next
    case True
    from breed_child_perm [OF p pop lf d [rule_format, of c], of P] obtain r where
      r: "breed_child P pop fits (d c) = Some r" and rp: "\<forall>ch. r = Inr ch \<longrightarrow> mset ch = mset p" by blast
    show ?thesis
    proof (cases r)
      case (Inl e)
      with r True show ?thesis by (simp add: breed.simps bind_run_def)
    next
      case (Inr child)
      with rp less.prems have pp: "perm_pop p (new_pop @ [child])" by (simp add: perm_pop_def)
      from True have lt: "pop_size P - length (new_pop @ [child]) < pop_size P - length new_pop" by simp
      from less.hyps [OF lt pp, of "Suc c"] obtain r' where
        r': "breed P pop fits d (Suc c) (new_pop @ [child]) = Some r'"
        and rp': "\<forall>np. r' = Inr np \<longrightarrow> perm_pop p np \<and> length np = max (length (new_pop @ [child])) (pop_size P)"
        by blast
      from True have "max (length (new_pop @ [child])) (pop_size P) = max (length new_pop) (pop_size P)" by simp
      with r Inr True r' rp' show ?thesis by (simp add: breed.simps bind_run_def)
    qed
  qed
qed

lemma best_of_perm:
  assumes "best_of pop fits = Inr cb" and "perm_pop p pop"
  shows "mset (fst cb) = mset p"
proof -
  from best_of_Inr [OF assms(1)] have "cb \<in> set (zip pop fits)" by blast
  then have "fst cb \<in> set pop" by (metis prod.collapse set_zip_leftD)
  with assms(2) show ?thesis by (simp add: perm_pop_def)
qed

lemma best_of_nonempty:
  "length fits = length pop \<Longrightarrow> pop \<noteq> [] \<Longrightarrow> \<exists>cb. best_of pop fits = Inr cb"
  by (cases pop; cases fits) (auto simp: best_of_def)

lemma ga_generation_some:
  assumes p: "distinct p" "2 \<le> length p" and ps: "1 \<le> pop_size P" and inv: "ga_perm_inv p P st"
    and d: "\<forall>c. valid_child_draw (pop_size P) (length p) (d c)"
  shows "\<exists>r. ga_generation S T w P d st = Some r \<and> (\<forall>st'. r = Inr st' \<longrightarrow> ga_perm_inv p P st')"
proof -
  from inv have pop: "perm_pop p (population st)" and lp: "length (population st) = pop_size P"
    and lf: "length (fitnesses st) = length (population st)" and mb: "mset (fst (best st)) = mset p"
    by (simp_all add: ga_perm_inv_def)
  have b0: "perm_pop p [fst (best st)]" using mb by (simp add: perm_pop_def)
  from breed_perm [OF p pop lf _ b0, of d P 0] d lp obtain r where
    r: "breed P (population st) (fitnesses st) d 0 [fst (best st)] = Some r"
    and rp: "\<forall>np. r = Inr np \<longrightarrow> perm_pop p np \<and> length np = max 1 (pop_size P)" by auto
  show ?thesis
  proof (cases r)
    case (Inl e)
    with r show ?thesis by (simp add: ga_generation_def bind_run_def)
  next
    case (Inr np)
    with rp ps have pnp: "perm_pop p np" and lnp: "length np = pop_size P" by auto
    show ?thesis
    proof (cases "map_result (\<lambda>ch. compute_fitness ch S T w) np")
      case (Inl e)
      with r Inr show ?thesis by (simp add: ga_generation_def bind_run_def)
    next
      case (Inr fits)
      note fi = Inr
      have lfi: "length fits = length np" using map_result_length [OF fi] .
      from best_of_nonempty [OF lfi] lnp ps obtain cb where cb: "best_of np fits = Inr cb" by fastforce
      have mcb: "mset (fst cb) = mset p" using best_of_perm [OF cb pnp] .
      have "ga_perm_inv p P \<lparr>population = np, fitnesses = fits,
              best = (if total_score (snd (best st)) < total_score (snd cb) then cb else best st)\<rparr>"
        using pnp lnp lfi mcb mb by (simp add: ga_perm_inv_def)
      with r \<open>r = Inr np\<close> fi cb show ?thesis by (simp add: ga_generation_def bind_run_def)
    qed
  qed
qed

lemma ga_loop_some:
  assumes p: "distinct p" "2 \<le> length p" and ps: "1 \<le> pop_size P"
    and d: "\<forall>g c. valid_child_draw (pop_size P) (length p) (draws g c)"
  shows "ga_perm_inv p P st \<Longrightarrow> \<exists>r. ga_loop S T w P draws gens st = Some r"
proof (induction gens arbitrary: st)
  case Nil
  then show ?case by simp
next
  case (Cons g gens)
  from ga_generation_some [OF p ps Cons.prems, of "draws g" S T w] d obtain r where
    r: "ga_generation S T w P (draws g) st = Some r" and rp: "\<forall>st'. r = Inr st' \<longrightarrow> ga_perm_inv p P st'"
    by blast
  show ?case
  proof (cases r)
    case (Inl e)
    with r show ?thesis by (simp add: bind_run_def)
  next
    case (Inr st')
    with rp Cons.IH obtain r' where "ga_loop S T w P draws gens st' = Some r'" by blast
    with r Inr show ?thesis by (simp add: bind_run_def)
  qed
qed

lemma evolve_some:
  assumes p: "distinct p" "2 \<le> length p" and ps: "1 \<le> pop_size P"
    and init: "perm_pop p init" "length init = pop_size P"
    and d: "\<forall>g c. valid_child_draw (pop_size P) (length p) (draws g c)"
  shows "\<exists>r. evolve S T w P init draws = Some r"
proof (cases "map_result (\<lambda>ch. compute_fitness ch S T w) init")
  case (Inl e)
  then show ?thesis by (simp add: evolve_def bind_run_def)
next
  case (Inr fits)
  have lf: "length fits = length init" using map_result_length [OF Inr] .
  from best_of_nonempty [OF lf] init(2) ps obtain b where b: "best_of init fits = Inr b" by fastforce
  have "ga_perm_inv p P \<lparr>population = init, fitnesses = fits, best = b\<rparr>"
    using init lf best_of_perm [OF b init(1)] by (simp add: ga_perm_inv_def)
  from ga_loop_some [OF p ps d this, of S T w "[0..<generations P]"] obtain r where
    "ga_loop S T w P draws [0..<generations P] \<lparr>population = init, fitnesses = fits, best = b\<rparr> = Some r" by blast
  with Inr b show ?thesis by (cases r) (simp_all add: evolve_def bind_run_def)
qed

lemma init_population_perm:
  assumes "\<forall>k < n. mset (init_chromosome k m) = mset p"
  shows "perm_pop p (init_population init_chromosome n m) \<and> length (init_population init_chromosome n m) = n"
  using assms by (auto simp: perm_pop_def init_population_def)

lemma run_ga_some:
  assumes p: "distinct p" "2 \<le> length p" and ps: "1 \<le> pop_size P"
    and init: "\<forall>k < pop_size P. mset (init_chromosome k (length S)) = mset p"
    and d: "\<forall>g c. valid_child_draw (pop_size P) (length p) (draws g c)"
  shows "\<exists>r. run_ga S T w P init_chromosome draws = Some r"
  using init_population_perm [of "pop_size P" init_chromosome "length S" p, OF init] evolve_some [OF p ps _ _ d] by (simp add: run_ga_def)

text \<open>
  C29: when \<open>pop_size \<ge> 1\<close> and every call of \<open>init_chromosome\<close> returns a
  permutation of one list of distinct genes (at least two), and every draw lies in the range
  \<open>random\<close> draws from, \<open>run_ga\<close> returns (possibly with an exception): the crossover never loops, since
  selection, crossover and mutation keep every chromosome a permutation.
\<close>

theorem run_ga_terminates:
  assumes p: "distinct p" "2 \<le> length p" and ps: "1 \<le> pop_size P"
    and init: "\<forall>k < pop_size P. mset (init_chromosome k (length S)) = mset p"
    and d: "\<forall>g c. valid_child_draw (pop_size P) (length p) (draws g c)"
  shows "\<exists>r. run_ga S T w P init_chromosome draws = Some r"
  using assms by (rule run_ga_some)


end
