(* ===== verification/GA_Main.thy ===== *)
theory GA_Main
  imports Driver GA
begin

text \<open>
  The GA driver \<open>src/Genetic_Algorithm_Tutas/src/main.py\<close>: \<open>run_scenario\<close> loads a
  scenario table and runs \<open>run_ga\<close> three times, reporting the first run and whether the
  three agree; \<open>run_all_scenarios\<close> runs every scenario file present in the data folder
  in the fixed order and prints one report per scenario under its title. The three runs of a
  scenario draw from Python's unseeded \<open>random\<close>, so each has its own results of
  \<open>init_chromosome\<close> and its own draws; reading a file and the clock are inputs. A run that does not return is
  \<open>None\<close>, as in \<open>GA\<close>; the printed reports are the list the loop returns, with the
  exception that ends the loop early, if any.
\<close>

definition main_ga_params :: ga_params where
  "main_ga_params = \<lparr>pop_size = 50, generations = 100, crossover_rate = 8/10, mutation_rate = 1/10\<rparr>"

text \<open>Lines 39--60.\<close>

definition run_scenario ::
  "string \<Rightarrow> frame \<Rightarrow> weights \<Rightarrow> ga_params \<Rightarrow> (nat \<Rightarrow> nat \<Rightarrow> nat \<Rightarrow> chromosome) \<Rightarrow> (nat \<Rightarrow> nat \<Rightarrow> nat \<Rightarrow> child_draw)
     \<Rightarrow> real \<Rightarrow> chromosome scenario_report run" where
  "run_scenario file_path df weights P init draws t =
     (let key = path_key file_path in
      bind_run (Some (load_preferences df)) (\<lambda>(df_students, df_tutors).
      bind_run (run_ga df_students df_tutors weights P (init 0) (draws 0)) (\<lambda>r0.
      bind_run (run_ga df_students df_tutors weights P (init 1) (draws 1)) (\<lambda>r1.
      bind_run (run_ga df_students df_tutors weights P (init 2) (draws 2)) (\<lambda>r2.
        Some (Inr \<lparr>scenario_key = key, best_found = fst r0, best_fitness = snd r0, exec_time = t,
          deterministic = (fst r0 = fst r1 \<and> fst r1 = fst r2 \<and> snd r0 = snd r1 \<and> snd r1 = snd r2)\<rparr>))))))"

text \<open>
  Lines 77--92: for each key in order, skip a missing file, else run the scenario and print
  its report under \<open>title_map.get(key, key)\<close>; an exception ends the loop.
\<close>

fun run_all_loop ::
  "string \<Rightarrow> (string \<Rightarrow> frame option) \<Rightarrow> (string \<Rightarrow> nat \<Rightarrow> nat \<Rightarrow> nat \<Rightarrow> chromosome)
     \<Rightarrow> (string \<Rightarrow> nat \<Rightarrow> nat \<Rightarrow> nat \<Rightarrow> child_draw) \<Rightarrow> (string \<Rightarrow> real) \<Rightarrow> string list
     \<Rightarrow> ((string \<times> chromosome scenario_report) list \<times> pykey py_error option) option" where
  "run_all_loop data_dir files init draws clock [] = Some ([], None)"
| "run_all_loop data_dir files init draws clock (key # ks) =
     (let fpath = path_join data_dir (key @ ''.csv'') in
      case files fpath of
        None \<Rightarrow> run_all_loop data_dir files init draws clock ks
      | Some df \<Rightarrow>
          (case run_scenario fpath df main_weights main_ga_params (init key) (draws key) (clock key) of
             None \<Rightarrow> None
           | Some (Inl e) \<Rightarrow> Some ([], Some e)
           | Some (Inr res) \<Rightarrow>
               map_option (\<lambda>(out, err). ((title_get (scenario_key res), res) # out, err))
                 (run_all_loop data_dir files init draws clock ks)))"

text \<open>Lines 62--92; a missing data folder prints a message and returns.\<close>

definition run_all_scenarios ::
  "string \<Rightarrow> bool \<Rightarrow> (string \<Rightarrow> frame option) \<Rightarrow> (string \<Rightarrow> nat \<Rightarrow> nat \<Rightarrow> nat \<Rightarrow> chromosome)
     \<Rightarrow> (string \<Rightarrow> nat \<Rightarrow> nat \<Rightarrow> nat \<Rightarrow> child_draw) \<Rightarrow> (string \<Rightarrow> real)
     \<Rightarrow> ((string \<times> chromosome scenario_report) list \<times> pykey py_error option) option" where
  "run_all_scenarios data_dir is_dir files init draws clock =
     (if \<not> is_dir then Some ([], None) else run_all_loop data_dir files init draws clock scenario_order)"

text \<open>
  The inputs under which a scenario can be evolved: when its table loads, every call of
  \<open>init_chromosome\<close> in the three runs returns a permutation of one list of at least two
  distinct genes, and every draw is in range.
\<close>

definition ga_ready :: "frame \<Rightarrow> (nat \<Rightarrow> nat \<Rightarrow> nat \<Rightarrow> chromosome) \<Rightarrow> (nat \<Rightarrow> nat \<Rightarrow> nat \<Rightarrow> child_draw) \<Rightarrow> bool" where
  "ga_ready df init draws \<longleftrightarrow>
     (case load_preferences df of
        Inl e \<Rightarrow> True
      | Inr (S, T) \<Rightarrow> \<exists>p. distinct p \<and> 2 \<le> length p
          \<and> (\<forall>i k. k < pop_size main_ga_params \<longrightarrow> mset (init i k (length S)) = mset p)
          \<and> (\<forall>i g c. valid_child_draw (pop_size main_ga_params) (length p) (draws i g c)))"

section \<open>Lemmas\<close>

lemma run_scenario_Inr:
  assumes "run_scenario p df w P init draws t = Some (Inr r)"
  shows "\<exists>S T r1 r2. load_preferences df = Inr (S, T)
    \<and> run_ga S T w P (init 0) (draws 0) = Some (Inr (best_found r, best_fitness r))
    \<and> run_ga S T w P (init 1) (draws 1) = Some (Inr r1)
    \<and> run_ga S T w P (init 2) (draws 2) = Some (Inr r2)
    \<and> scenario_key r = path_key p \<and> exec_time r = t
    \<and> (deterministic r \<longleftrightarrow> r1 = (best_found r, best_fitness r) \<and> r2 = r1)"
  using assms by (auto simp: run_scenario_def bind_run_Some_Inr prod_eq_iff)

lemma run_all_loop_reports:
  assumes "run_all_loop d files init draws clock ks = Some (out, None)"
    and "\<forall>k \<in> set ks. CHR ''/'' \<notin> set k \<and> list_ex (\<lambda>c. c \<noteq> CHR ''.'') k \<and> map_of title_map k \<noteq> None"
  shows "map (\<lambda>(title, r). (scenario_key r, title)) out
    = map (\<lambda>k. (k, the (map_of title_map k))) (filter (\<lambda>k. files (path_join d (k @ ''.csv'')) \<noteq> None) ks)"
  using assms
proof (induction ks arbitrary: out)
  case Nil
  then show ?case by simp
next
  case (Cons k ks)
  let ?p = "path_join d (k @ ''.csv'')"
  have key: "path_key ?p = k" using Cons.prems(2) by (simp add: path_key_join)
  have title: "title_get k = the (map_of title_map k)" using Cons.prems(2) by (auto simp: title_get_def)
  show ?case
  proof (cases "files ?p")
    case None
    with Cons show ?thesis by simp
  next
    case (Some df)
    with Cons.prems(1) obtain res out' where
      rs: "run_scenario ?p df main_weights main_ga_params (init k) (draws k) (clock k) = Some (Inr res)"
      and rest: "run_all_loop d files init draws clock ks = Some (out', None)"
      and out: "out = (title_get (scenario_key res), res) # out'"
      by (auto simp: Let_def split: option.splits sum.splits)
    from run_scenario_Inr [OF rs] key have "scenario_key res = k" by auto
    with Cons.IH [OF rest] Cons.prems(2) Some out title show ?thesis by simp
  qed
qed

lemma bind_run_some: "m \<noteq> None \<Longrightarrow> (\<And>x. f x \<noteq> None) \<Longrightarrow> bind_run m f \<noteq> None"
  by (auto simp: bind_run_def split: option.splits sum.splits)

lemma bind_run_Inr: "bind_run (Some (Inr x)) f = f x"
  by (simp add: bind_run_def)

lemma run_scenario_some:
  assumes "ga_ready df init draws"
  shows "run_scenario fp df main_weights main_ga_params init draws t \<noteq> None"
proof (cases "load_preferences df")
  case (Inl e)
  then show ?thesis by (simp add: run_scenario_def bind_run_def)
next
  case (Inr ST)
  obtain S T where st: "ST = (S, T)" by (cases ST)
  from assms Inr st obtain p where p: "distinct p" "2 \<le> length p"
    and i: "\<forall>i k. k < pop_size main_ga_params \<longrightarrow> mset (init i k (length S)) = mset p"
    and d: "\<forall>i g c. valid_child_draw (pop_size main_ga_params) (length p) (draws i g c)"
    by (auto simp: ga_ready_def)
  have ps: "1 \<le> pop_size main_ga_params" by (simp add: main_ga_params_def)
  have r: "run_ga S T main_weights main_ga_params (init i) (draws i) \<noteq> None" for i
    using run_ga_some [OF p ps, of "init i" S "draws i" T main_weights] i d by auto
  show ?thesis unfolding run_scenario_def Let_def Inr st bind_run_Inr prod.case
    by (intro bind_run_some) (simp_all add: r)
qed

lemma run_all_loop_some:
  assumes "\<forall>k \<in> set ks. \<forall>df. files (path_join d (k @ ''.csv'')) = Some df \<longrightarrow> ga_ready df (init k) (draws k)"
  shows "run_all_loop d files init draws clock ks \<noteq> None"
  using assms
proof (induction ks)
  case Nil
  show ?case by simp
next
  case (Cons k ks)
  have "run_scenario (path_join d (k @ ''.csv'')) df main_weights main_ga_params (init k) (draws k) (clock k) \<noteq> None"
    if "files (path_join d (k @ ''.csv'')) = Some df" for df
    using Cons.prems that by (intro run_scenario_some) simp
  with Cons.IH Cons.prems show ?case
    by (auto simp del: not_None_eq simp add: Let_def split: option.splits sum.splits)
qed

text \<open>
  C33: when the driver's loop ends without an exception, it has printed one report for each
  scenario whose file exists, in the order of \<open>scenario_order\<close>, each under the title
  \<open>title_map\<close> gives its key (never the fallback), and each report carries the key of its
  file.
\<close>

theorem run_all_scenarios_reports:
  assumes "run_all_scenarios d True files init draws clock = Some (out, None)"
  shows "map (\<lambda>(title, r). (scenario_key r, title)) out
    = map (\<lambda>k. (k, the (map_of title_map k))) (filter (\<lambda>k. files (path_join d (k @ ''.csv'')) \<noteq> None) scenario_order)"
  using assms run_all_loop_reports [of d files init draws clock scenario_order out] scenario_order_keys
  by (simp add: run_all_scenarios_def)

text \<open>
  The GA driver always returns (possibly with an exception) when, for every scenario
  file present, the three runs' calls of \<open>init_chromosome\<close> return permutations of one
  list of at least two distinct genes and the draws are in range: the gene chase of the
  crossover never loops.
\<close>

theorem run_all_scenarios_terminates:
  assumes "\<forall>k \<in> set scenario_order. \<forall>df. files (path_join d (k @ ''.csv'')) = Some df \<longrightarrow> ga_ready df (init k) (draws k)"
  shows "\<exists>r. run_all_scenarios d is_dir files init draws clock = Some r"
  using run_all_loop_some [OF assms, of clock] by (auto simp: run_all_scenarios_def)

end
