(* ===== verification/Float64.thy ===== *)
theory Float64
  imports Complex_Main "HOL-Library.Log_Nat"
begin

text \<open>
  Python floats where their rounding decides what the program does: the annealing
  temperature \<open>T\<close>, which both annealers cool by \<open>T *= cooling\<close> and divide by in the
  Metropolis test. A binary64 value is \<open>F64 m e\<close>, the real \<open>m * 2 ^ e\<close> (the same value
  may have several such pairs), or an infinity, or NaN. \<open>fmul\<close> is the IEEE 754
  multiplication with rounding to nearest, ties to even: the exact product of two finite
  values is \<open>M * 2 ^ E\<close>, and \<open>round_f64\<close> rounds it to a 53-bit significand with exponent
  at least \<open>-1074\<close> (the subnormals), and to infinity from \<open>2 ^ 1024\<close> on. The sign of a
  zero is not kept: the annealers only divide by the temperature, and a division by either
  zero raises.
\<close>

datatype f64 = F64 int int | F64Inf bool | F64NaN

definition f64_real :: "int \<Rightarrow> int \<Rightarrow> real" where
  "f64_real m e = of_int m * power_int 2 e"

definition round_f64 :: "int \<Rightarrow> int \<Rightarrow> f64" where
  "round_f64 M E =
     (let a = \<bar>M\<bar>; E' = max (E + bitlen a - 53) (-1074) in
      if E' \<le> E then
        (if 1024 < bitlen a + E then F64Inf (M < 0) else F64 M E)
      else
        (let k = nat (E' - E); q = a div 2 ^ k; r = a mod 2 ^ k;
             q' = (if 2 ^ k < 2 * r \<or> (2 * r = 2 ^ k \<and> odd q) then q + 1 else q) in
         if 1024 < bitlen q' + E' then F64Inf (M < 0)
         else F64 (if M < 0 then - q' else q') E'))"

fun fmul :: "f64 \<Rightarrow> f64 \<Rightarrow> f64" where
  "fmul (F64 m1 e1) (F64 m2 e2) = round_f64 (m1 * m2) (e1 + e2)"
| "fmul F64NaN y = F64NaN"
| "fmul x F64NaN = F64NaN"
| "fmul (F64Inf s) (F64 m e) = (if m = 0 then F64NaN else F64Inf (s \<noteq> (m < 0)))"
| "fmul (F64 m e) (F64Inf s) = (if m = 0 then F64NaN else F64Inf (s \<noteq> (m < 0)))"
| "fmul (F64Inf s) (F64Inf t) = F64Inf (s \<noteq> t)"

text \<open>
  A positive double: a finite value at least the least subnormal \<open>2 ^ -1074\<close>, or
  \<open>+inf\<close>; and a factor above one half, the cooling factors for which the temperature
  cannot round to zero.
\<close>

fun f64_pos :: "f64 \<Rightarrow> bool" where
  "f64_pos (F64 m e) = (0 < m \<and> -1074 \<le> e)"
| "f64_pos (F64Inf neg) = (\<not> neg)"
| "f64_pos F64NaN = False"

fun f64_gt_half :: "f64 \<Rightarrow> bool" where
  "f64_gt_half (F64 m e) = (1 / 2 < f64_real m e)"
| "f64_gt_half (F64Inf neg) = (\<not> neg)"
| "f64_gt_half F64NaN = False"

text \<open>A zero, the value on which \<open>delta / T\<close> raises.\<close>

fun f64_zero :: "f64 \<Rightarrow> bool" where
  "f64_zero (F64 m e) = (m = 0)"
| "f64_zero _ = False"

section \<open>Lemmas\<close>

lemma f64_real_mult: "f64_real m1 e1 * f64_real m2 e2 = f64_real (m1 * m2) (e1 + e2)"
  by (simp add: f64_real_def power_int_add)

text \<open>
  Rounding a positive product above half the least subnormal never gives zero: the
  rounded significand \<open>q'\<close> is positive.
\<close>

lemma round_sig_pos:
  assumes M: "0 < M" and big: "2 ^ k \<le> M \<or> 2 ^ k < 2 * M"
  shows "0 < (if 2 ^ k < 2 * (M mod 2 ^ k) \<or> (2 * (M mod 2 ^ k) = 2 ^ k \<and> odd (M div 2 ^ k))
              then M div 2 ^ k + 1 else M div (2::int) ^ k)"
proof (cases "M < 2 ^ k")
  case True
  then have "M mod 2 ^ k = M" "M div 2 ^ k = 0" using M by simp_all
  with True big show ?thesis by simp
next
  case False
  then have "0 < M div 2 ^ k" by (simp add: pos_imp_zdiv_pos_iff)
  then show ?thesis by simp
qed

text \<open>
  The exact product of a positive double and a factor above one half exceeds
  \<open>2 ^ -1075\<close>, so its significand at exponent \<open>-1074\<close> is more than one half.
\<close>

lemma half_subnormal_sig:
  assumes M: "0 < M" and E: "E < -1074" and v: "power_int 2 (-1075) < f64_real M E"
  shows "2 ^ nat (-1074 - E) < 2 * M"
proof -
  obtain j where e: "-1075 = E + int j" and k: "nat (-1074 - E) = Suc j"
    using E by (intro that [of "nat (-1075 - E)"]) simp_all
  have "power_int (2::real) (E + int j) = power_int 2 E * 2 ^ j"
    by (simp add: power_int_add)
  with v [unfolded e] have "power_int 2 E * (2::real) ^ j < power_int 2 E * of_int M"
    by (simp only: f64_real_def mult.commute)
  then have "(2::real) ^ j < of_int M" by (simp add: mult_less_cancel_left_pos)
  then have "(2::int) ^ j < M" by (metis of_int_less_iff of_int_numeral of_int_power)
  with k show ?thesis by simp
qed

lemma round_f64_pos:
  assumes M: "0 < M" and v: "power_int 2 (-1075) < f64_real M E"
  shows "f64_pos (round_f64 M E)"
proof -
  let ?E' = "max (E + bitlen M - 53) (-1074)"
  let ?k = "nat (?E' - E)"
  show ?thesis
  proof (cases "?E' \<le> E")
    case True
    then show ?thesis using M by (simp add: round_f64_def Let_def)
  next
    case False
    have "2 ^ ?k \<le> M \<or> 2 ^ ?k < 2 * M"
    proof (cases "E + bitlen M - 53 \<le> -1074")
      case True
      with False have "E < -1074" by simp
      from half_subnormal_sig [OF M this v] True show ?thesis by simp
    next
      case big: False
      from bitlen_bounds [OF M] have "2 ^ nat (bitlen M - 1) \<le> M" by simp
      moreover have "?k \<le> nat (bitlen M - 1)" using big by simp
      ultimately have "2 ^ ?k \<le> M"
        using power_increasing [of ?k "nat (bitlen M - 1)" "2::int"] by linarith
      then show ?thesis by simp
    qed
    then have pos: "0 < (if 2 ^ ?k < 2 * (M mod 2 ^ ?k) \<or> (2 * (M mod 2 ^ ?k) = 2 ^ ?k \<and> odd (M div 2 ^ ?k))
              then M div 2 ^ ?k + 1 else M div 2 ^ ?k)"
      by (rule round_sig_pos [OF M])
    have sh: "round_f64 M E =
      (if 1024 < bitlen (if 2 ^ ?k < 2 * (M mod 2 ^ ?k) \<or> (2 * (M mod 2 ^ ?k) = 2 ^ ?k \<and> odd (M div 2 ^ ?k))
                         then M div 2 ^ ?k + 1 else M div 2 ^ ?k) + ?E'
       then F64Inf False
       else F64 (if 2 ^ ?k < 2 * (M mod 2 ^ ?k) \<or> (2 * (M mod 2 ^ ?k) = 2 ^ ?k \<and> odd (M div 2 ^ ?k))
                 then M div 2 ^ ?k + 1 else M div 2 ^ ?k) ?E')"
    proof -
      have neg: "(M < 0) = False" using M by simp
      show ?thesis
        unfolding round_f64_def Let_def abs_of_pos [OF M] if_not_P [OF False]
        by (simp only: neg if_False)
    qed
    have gen: "\<And>q. 0 < q \<Longrightarrow> f64_pos (if 1024 < bitlen q + ?E' then F64Inf False else F64 q ?E')"
      by simp
    show ?thesis unfolding sh by (rule gen [OF pos])
  qed
qed

lemma f64_real_pos_iff [simp]: "0 < f64_real m e \<longleftrightarrow> 0 < m"
proof -
  have p: "0 < power_int (2::real) e" by simp
  then have "\<not> power_int (2::real) e < 0" by linarith
  note p this
  then show ?thesis by (simp add: f64_real_def zero_less_mult_iff)
qed

lemma f64_gt_half_pos: "f64_gt_half (F64 m e) \<Longrightarrow> 0 < m"
proof -
  assume "f64_gt_half (F64 m e)"
  then have "0 < f64_real m e" by (simp del: f64_real_pos_iff)
  then show "0 < m" by simp
qed

lemma f64_real_least:
  assumes "0 < m" "-1074 \<le> e"
  shows "power_int 2 (-1074) \<le> f64_real m e"
proof -
  have "power_int (2::real) (-1074) \<le> power_int 2 e"
    using assms(2) by (rule power_int_increasing) simp
  also have "\<dots> \<le> of_int m * power_int 2 e" using assms(1) by simp
  finally show ?thesis by (simp add: f64_real_def)
qed

text \<open>
  A positive temperature times a factor above one half stays positive: the exact product
  exceeds half the least subnormal, which rounds up to it.
\<close>

lemma fmul_pos:
  assumes "f64_pos T" and "f64_gt_half c"
  shows "f64_pos (fmul T c)"
proof (cases T)
  case (F64 m e)
  show ?thesis
  proof (cases c)
    case (F64 cm ce)
    define p :: real where "p = power_int 2 (-1075)"
    have e1: "(-1075::int) + 1 = -1074" by simp
    have p2: "power_int (2::real) (-1074) = p * 2"
      unfolding p_def by (rule power_int_add_1 [where x = "2::real" and m = "-1075", unfolded e1]) simp
    have m: "0 < m" "-1074 \<le> e" using assms(1) \<open>T = F64 m e\<close> by simp_all
    have h: "1 / 2 < f64_real cm ce" using assms(2) F64 by simp
    have cm: "0 < cm" using assms(2) F64 by (simp add: f64_gt_half_pos)
    have "0 < p" unfolding p_def by (rule zero_less_power_int) simp
    have "p * 2 \<le> f64_real m e" using f64_real_least [OF m, unfolded p2] .
    then have "p * 2 * f64_real cm ce \<le> f64_real m e * f64_real cm ce"
      using h by (intro mult_right_mono) simp_all
    moreover have "p * 2 * (1 / 2) < p * 2 * f64_real cm ce"
      using h \<open>0 < p\<close> by (intro mult_strict_left_mono) simp_all
    ultimately have "p < f64_real (m * cm) (e + ce)" by (simp add: f64_real_mult)
    then have "f64_pos (round_f64 (m * cm) (e + ce))"
      using m cm by (intro round_f64_pos [unfolded p_def [symmetric]]) simp_all
    then show ?thesis by (simp add: \<open>T = F64 m e\<close> F64)
  next
    case (F64Inf neg)
    then show ?thesis using assms \<open>T = F64 m e\<close> by simp
  next
    case F64NaN
    then show ?thesis using assms(2) by simp
  qed
next
  case (F64Inf neg)
  show ?thesis
  proof -
    have "\<forall>cm ce. c = F64 cm ce \<longrightarrow> 0 < cm" using assms(2) f64_gt_half_pos by blast
    with assms F64Inf show ?thesis by (cases c) auto
  qed
next
  case F64NaN
  then show ?thesis using assms(1) by simp
qed

lemma fmul_pos_iter: "f64_pos T \<Longrightarrow> f64_gt_half c \<Longrightarrow> f64_pos (((\<lambda>T. fmul T c) ^^ k) T)"
  by (induction k) (simp_all add: fmul_pos)

lemma f64_pos_nonzero: "f64_pos T \<Longrightarrow> \<not> f64_zero T"
  by (cases T) simp_all

lemma bitlen_one [simp]: "bitlen 1 = 1"
  by (simp add: bitlen_def floorlog_def)

text \<open>
  Cooling by \<open>0.5 = F64 1 (-1)\<close> from \<open>1.0 = F64 1 0\<close> halves the temperature exactly
  down to the least subnormal \<open>2 ^ -1074\<close>; the next product, exactly half of it, is a
  tie and rounds to the even \<open>0\<close>.
\<close>

lemma fmul_half_exact: "-1073 \<le> E \<Longrightarrow> E \<le> 1024 \<Longrightarrow> fmul (F64 1 E) (F64 1 (-1)) = F64 1 (E - 1)"
  by (simp add: round_f64_def Let_def)

lemma fmul_half_underflow: "round_f64 1 (-1075) = F64 0 (-1074)"
  by (simp add: round_f64_def Let_def)

lemma halving_iter: "k \<le> 1074 \<Longrightarrow> ((\<lambda>T. fmul T (F64 1 (-1))) ^^ k) (F64 1 0) = F64 1 (- int k)"
proof (induction k)
  case 0
  then show ?case by simp
next
  case (Suc k)
  then have "fmul (F64 1 (- int k)) (F64 1 (-1)) = F64 1 (- int k - 1)"
    by (intro fmul_half_exact) simp_all
  with Suc show ?case by simp
qed

lemma halving_underflow: "((\<lambda>T. fmul T (F64 1 (-1))) ^^ 1075) (F64 1 0) = F64 0 (-1074)"
proof -
  have "((\<lambda>T. fmul T (F64 1 (-1))) ^^ Suc 1074) (F64 1 0)
      = fmul (((\<lambda>T. fmul T (F64 1 (-1))) ^^ 1074) (F64 1 0)) (F64 1 (-1))"
    by (simp only: funpow.simps o_apply)
  also have "\<dots> = round_f64 1 (-1075)" by (simp add: halving_iter)
  also have "\<dots> = F64 0 (-1074)" by (rule fmul_half_underflow)
  finally show ?thesis by simp
qed

text \<open>The step at which a cooled temperature first hits a predicate, shifted by one step.\<close>

lemma ex_funpow_Suc:
  "(\<exists>j < Suc n. P ((f ^^ j) x)) \<longleftrightarrow> P x \<or> (\<exists>j < n. P ((f ^^ j) (f x)))"
  by (auto simp: less_Suc_eq_0_disj funpow_Suc_right simp del: funpow.simps)

end
