(* ===== verification/SA.thy ===== *)
theory SA
  imports Fitness_Copies Float64
begin

text \<open>
  The simulated annealing of \<open>src/simulated_annealing/src/sa.py\<close>. As for the genetic
  algorithm, every call to \<open>random\<close> is an input: \<open>init k\<close> is the
  \<open>random.randrange(m)\<close> of student \<open>k\<close> in line 35, and \<open>draws s\<close> are the three draws
  of step \<open>s\<close> (lines 43, 45 and 51). The temperature is a binary64 value of
  \<open>Float64\<close>, cooled by the rounded product of line 58. Its fitness is \<open>compute_fitness\<close> of \<open>Fitness\<close>:
  \<open>simulated_annealing/src/fitness.py\<close> is the same code as
  \<open>Backtracking_CSP/fitness.py\<close>. The timing of lines 41 and 60 is not modelled.
\<close>

record step_draw =
  pos :: nat
  new_tutor :: nat
  u :: real

text \<open>The variables of the loop: lines 35--40.\<close>

record sa_state =
  curr :: "int list"
  fit_curr :: fitness
  best_a :: "int list"
  best_fit :: fitness
  temp :: f64

text \<open>
  Line 51: the Metropolis test. \<open>delta > 0\<close> is tested first; otherwise \<open>delta / T\<close>
  is a Python float division, which raises on a zero \<open>T\<close>. Divided by an infinite
  \<open>T\<close>, the finite \<open>delta\<close> gives a zero and \<open>np.exp\<close> gives \<open>1.0\<close>; a comparison
  with NaN is false. For a finite non-zero \<open>T\<close>, the quotient and \<open>np.exp\<close> are
  computed over the reals.
\<close>

definition metropolis :: "real \<Rightarrow> f64 \<Rightarrow> real \<Rightarrow> bool result" where
  "metropolis delta T r =
     (if 0 < delta then Inr True
      else (case T of
              F64 m e \<Rightarrow> if m = 0 then Inl ZeroDivisionError else Inr (r < exp (delta / f64_real m e))
            | F64Inf neg \<Rightarrow> Inr (r < 1)
            | F64NaN \<Rightarrow> Inr False))"

text \<open>
  One iteration of the loop, lines 43--58. \<open>random.randrange(n)\<close> and
  \<open>random.randrange(m)\<close> raise \<open>ValueError\<close> on an empty range.
\<close>

definition sa_step ::
  "row list \<Rightarrow> row list \<Rightarrow> weights \<Rightarrow> f64 \<Rightarrow> step_draw \<Rightarrow> sa_state \<Rightarrow> sa_state result" where
  "sa_step S T w cooling d st =
     (if length S = 0 \<or> length T = 0 then Inl ValueError
      else
        (let child = (curr st)[pos d := int (new_tutor d)] in
         bind_sum (compute_fitness_sa child S T w) (\<lambda>fit_child.
           (let delta = total_score fit_child - total_score (fit_curr st) in
            bind_sum (metropolis delta (temp st) (u d)) (\<lambda>accept.
              (let st' =
                 (if accept then
                    (if total_score (best_fit st) < total_score fit_child
                     then st\<lparr>curr := child, fit_curr := fit_child, best_a := child, best_fit := fit_child\<rparr>
                     else st\<lparr>curr := child, fit_curr := fit_child\<rparr>)
                  else st)
               in Inr (st'\<lparr>temp := fmul (temp st) cooling\<rparr>)))))))"

text \<open>\<open>for _ in range(steps)\<close>, step \<open>s\<close> with draws \<open>draws s\<close>.\<close>

fun sa_loop ::
  "row list \<Rightarrow> row list \<Rightarrow> weights \<Rightarrow> f64 \<Rightarrow> (nat \<Rightarrow> step_draw) \<Rightarrow> nat list \<Rightarrow> sa_state
     \<Rightarrow> sa_state result"
where
  "sa_loop S T w cooling draws [] st = Inr st"
| "sa_loop S T w cooling draws (s # ss) st =
     bind_sum (sa_step S T w cooling (draws s) st) (sa_loop S T w cooling draws ss)"

text \<open>
  Lines 8--66; the result is \<open>(best_assignment, best_fitness)\<close>. Line 35 raises
  \<open>ValueError\<close> when there are students but no tutors.
\<close>

definition run_sa ::
  "row list \<Rightarrow> row list \<Rightarrow> weights \<Rightarrow> f64 \<Rightarrow> f64 \<Rightarrow> nat \<Rightarrow> (nat \<Rightarrow> nat) \<Rightarrow> (nat \<Rightarrow> step_draw)
     \<Rightarrow> (int list \<times> fitness) result" where
  "run_sa S T w T0 cooling steps init draws =
     (if 0 < length S \<and> length T = 0 then Inl ValueError
      else
        (let c = map (\<lambda>k. int (init k)) [0..<length S] in
         bind_sum (compute_fitness_sa c S T w) (\<lambda>fc.
         bind_sum (sa_loop S T w cooling draws [0..<steps]
                     \<lparr>curr = c, fit_curr = fc, best_a = c, best_fit = fc, temp = T0\<rparr>) (\<lambda>st.
           Inr (best_a st, best_fit st)))))"

section \<open>Invariants\<close>

text \<open>
  \<open>sa_inv\<close>: the current and the best assignment carry their own fitness and the best
  is at least the current; \<open>valid_chrom\<close>: an assignment of one tutor index per student;
  \<open>valid_draw\<close>: the draws of one step lie in the ranges \<open>randrange\<close> draws from.
\<close>

definition sa_inv :: "row list \<Rightarrow> row list \<Rightarrow> weights \<Rightarrow> sa_state \<Rightarrow> bool" where
  "sa_inv S T w st \<longleftrightarrow>
     compute_fitness (curr st) S T w = Inr (fit_curr st)
     \<and> compute_fitness (best_a st) S T w = Inr (best_fit st)
     \<and> total_score (fit_curr st) \<le> total_score (best_fit st)"

definition valid_chrom :: "row list \<Rightarrow> row list \<Rightarrow> int list \<Rightarrow> bool" where
  "valid_chrom S T c \<longleftrightarrow> length c = length S \<and> (\<forall>tid \<in> set c. 0 \<le> tid \<and> nat tid < length T)"

definition valid_draw :: "row list \<Rightarrow> row list \<Rightarrow> step_draw \<Rightarrow> bool" where
  "valid_draw S T d \<longleftrightarrow> pos d < length S \<and> new_tutor d < length T"

section \<open>Lemmas\<close>

lemma metropolis_Inr: "\<not> f64_zero T \<Longrightarrow> \<exists>b. metropolis delta T r = Inr b"
  by (cases T) (auto simp: metropolis_def)

lemma metropolis_zero: "\<not> 0 < delta \<Longrightarrow> f64_zero T \<Longrightarrow> metropolis delta T r = Inl ZeroDivisionError"
  by (cases T) (simp_all add: metropolis_def)

lemma valid_chrom_update:
  "valid_chrom S T c \<Longrightarrow> valid_draw S T d \<Longrightarrow> valid_chrom S T (c[pos d := int (new_tutor d)])"
  using set_update_subset_insert [of c "pos d" "int (new_tutor d)"]
  by (auto simp: valid_chrom_def valid_draw_def)

lemma sa_step_Inr:
  assumes rows: "\<forall>r \<in> set S. has_cols r" "\<forall>r \<in> set T. has_cols r" and w: "has_weights w"
    and ne: "0 < length S" "0 < length T" and d: "valid_draw S T d"
    and c: "valid_chrom S T (curr st)" and t: "f64_pos (temp st)" and cool: "f64_gt_half cooling"
  shows "\<exists>st'. sa_step S T w cooling d st = Inr st' \<and> valid_chrom S T (curr st') \<and> f64_pos (temp st')"
proof -
  let ?child = "(curr st)[pos d := int (new_tutor d)]"
  have vc: "valid_chrom S T ?child" using c d by (rule valid_chrom_update)
  have "\<exists>f. compute_fitness ?child S T w = Inr f"
    using vc by (intro compute_fitness_Inr [OF _ _ rows w]) (auto simp: valid_chrom_def)
  then obtain fc where fc: "compute_fitness ?child S T w = Inr fc" by blast
  have "\<exists>acc. metropolis (total_score fc - total_score (fit_curr st)) (temp st) (u d) = Inr acc"
    using f64_pos_nonzero [OF t] by (rule metropolis_Inr)
  then obtain acc where acc: "metropolis (total_score fc - total_score (fit_curr st)) (temp st) (u d) = Inr acc"
    by blast
  show ?thesis
    using ne fc acc c vc fmul_pos [OF t cool] by (auto simp: sa_step_def Let_def)
qed

lemma sa_loop_Inr:
  assumes rows: "\<forall>r \<in> set S. has_cols r" "\<forall>r \<in> set T. has_cols r" and w: "has_weights w"
    and ne: "0 < length S" "0 < length T" and d: "\<forall>s. valid_draw S T (draws s)"
    and cool: "f64_gt_half cooling"
  shows "valid_chrom S T (curr st) \<Longrightarrow> f64_pos (temp st) \<Longrightarrow> \<exists>st'. sa_loop S T w cooling draws ss st = Inr st'"
proof (induction ss arbitrary: st)
  case Nil
  then show ?case by simp
next
  case (Cons s ss)
  from sa_step_Inr [OF rows w ne d [rule_format, of s] Cons.prems cool] obtain st1 where
    "sa_step S T w cooling (draws s) st = Inr st1" "valid_chrom S T (curr st1)" "f64_pos (temp st1)" by blast
  with Cons.IH show ?case by auto
qed

lemma sa_step_inv:
  assumes "sa_step S T w cooling d st = Inr st'" and "sa_inv S T w st"
  shows "sa_inv S T w st' \<and> total_score (best_fit st) \<le> total_score (best_fit st')"
proof -
  from assms(1) obtain fc acc where
      ne: "length S \<noteq> 0" "length T \<noteq> 0"
    and fc: "compute_fitness ((curr st)[pos d := int (new_tutor d)]) S T w = Inr fc"
    and acc: "metropolis (total_score fc - total_score (fit_curr st)) (temp st) (u d) = Inr acc"
    and st': "st' = (if acc then
                    (if total_score (best_fit st) < total_score fc
                     then st\<lparr>curr := (curr st)[pos d := int (new_tutor d)], fit_curr := fc,
                             best_a := (curr st)[pos d := int (new_tutor d)], best_fit := fc\<rparr>
                     else st\<lparr>curr := (curr st)[pos d := int (new_tutor d)], fit_curr := fc\<rparr>)
                  else st)\<lparr>temp := fmul (temp st) cooling\<rparr>"
    by (auto simp: sa_step_def Let_def bind_sum_Inr split: if_splits)
  show ?thesis
    using assms(2) fc by (auto simp: st' sa_inv_def)
qed

lemma sa_loop_inv:
  "sa_loop S T w cooling draws ss st = Inr st' \<Longrightarrow> sa_inv S T w st \<Longrightarrow>
    sa_inv S T w st' \<and> total_score (best_fit st) \<le> total_score (best_fit st')"
proof (induction ss arbitrary: st)
  case Nil
  then show ?case by simp
next
  case (Cons s ss)
  from Cons.prems(1) obtain st1 where
    s1: "sa_step S T w cooling (draws s) st = Inr st1" and r: "sa_loop S T w cooling draws ss st1 = Inr st'"
    by (auto simp: bind_sum_Inr)
  from sa_step_inv [OF s1 Cons.prems(2)] have i1: "sa_inv S T w st1"
    and m1: "total_score (best_fit st) \<le> total_score (best_fit st1)" by blast+
  from Cons.IH [OF r i1] m1 show ?case by auto
qed

section \<open>Contracts\<close>

text \<open>
  C23: whenever \<open>run_sa\<close> returns, its best assignment has exactly the returned fitness,
  and that fitness is at least the fitness of the random initial assignment: the best is
  only ever replaced by a strictly better accepted child.
\<close>

theorem run_sa_best:
  assumes "run_sa S T w T0 cooling steps init draws = Inr (b, bf)"
  shows "compute_fitness b S T w = Inr bf
    \<and> (\<exists>f0. compute_fitness (map (\<lambda>k. int (init k)) [0..<length S]) S T w = Inr f0
            \<and> total_score f0 \<le> total_score bf)"
proof -
  let ?c = "map (\<lambda>k. int (init k)) [0..<length S]"
  from assms obtain f0 st where f0: "compute_fitness ?c S T w = Inr f0"
    and r: "sa_loop S T w cooling draws [0..<steps] \<lparr>curr = ?c, fit_curr = f0, best_a = ?c, best_fit = f0, temp = T0\<rparr> = Inr st"
    and b: "b = best_a st" "bf = best_fit st"
    by (auto simp: run_sa_def Let_def bind_sum_Inr split: if_splits)
  have "sa_inv S T w \<lparr>curr = ?c, fit_curr = f0, best_a = ?c, best_fit = f0, temp = T0\<rparr>"
    using f0 by (simp add: sa_inv_def)
  from sa_loop_inv [OF r this] f0 b show ?thesis by (auto simp: sa_inv_def)
qed

lemma run_sa_Inr_ex:
  assumes rows: "\<forall>r \<in> set S. has_cols r" "\<forall>r \<in> set T. has_cols r" and w: "has_weights w"
    and ne: "0 < length S" "0 < length T" and i: "\<forall>k < length S. init k < length T"
    and d: "\<forall>s. valid_draw S T (draws s)" and t: "f64_pos T0" and cool: "f64_gt_half cooling"
  shows "\<exists>b bf. run_sa S T w T0 cooling steps init draws = Inr (b, bf)"
proof -
  let ?c = "map (\<lambda>k. int (init k)) [0..<length S]"
  have vc: "valid_chrom S T ?c" using i by (auto simp: valid_chrom_def)
  have "\<exists>f. compute_fitness ?c S T w = Inr f"
    using vc by (intro compute_fitness_Inr [OF _ _ rows w]) (auto simp: valid_chrom_def)
  then obtain f0 where f0: "compute_fitness ?c S T w = Inr f0" by blast
  from sa_loop_Inr [OF rows w ne d cool, of "\<lparr>curr = ?c, fit_curr = f0, best_a = ?c, best_fit = f0, temp = T0\<rparr>"
      "[0..<steps]"] vc t
  obtain st where "sa_loop S T w cooling draws [0..<steps] \<lparr>curr = ?c, fit_curr = f0, best_a = ?c, best_fit = f0, temp = T0\<rparr> = Inr st"
    by auto
  with f0 ne show ?thesis by (simp add: run_sa_def Let_def)
qed

text \<open>
  C24: with students and tutors whose rows have the criterion columns, complete weights,
  draws inside the ranges \<open>randrange\<close> gives, a positive start temperature and a positive
  cooling factor, \<open>run_sa\<close> returns without an exception.
\<close>

theorem run_sa_total:
  assumes rows: "\<forall>r \<in> set S. has_cols r" "\<forall>r \<in> set T. has_cols r" and w: "has_weights w"
    and ne: "0 < length S" "0 < length T" and i: "\<forall>k < length S. init k < length T"
    and d: "\<forall>s. valid_draw S T (draws s)" and t: "f64_pos T0" and cool: "f64_gt_half cooling"
  shows "\<exists>b bf. run_sa S T w T0 cooling steps init draws = Inr (b, bf)"
  using assms by (rule run_sa_Inr_ex)

text \<open>
  With a single tutor every proposal keeps the assignment and its fitness, so a step only
  cools the temperature, and raises once the temperature is a zero.
\<close>

lemma one_tutor_sa_step:
  assumes T: "length T = 1" and d: "valid_draw S T d" and c: "curr st = replicate (length S) 0"
    and f: "compute_fitness (curr st) S T w = Inr (fit_curr st)"
    and b: "total_score (fit_curr st) \<le> total_score (best_fit st)"
  shows "sa_step S T w cooling d st
    = (if f64_zero (temp st) then Inl ZeroDivisionError else Inr (st\<lparr>temp := fmul (temp st) cooling\<rparr>))"
proof -
  have child: "(curr st)[pos d := int (new_tutor d)] = curr st"
    using T d c by (simp add: valid_draw_def list_update_same_conv)
  have ne: "length S \<noteq> 0" "length T \<noteq> 0" using T d by (auto simp: valid_draw_def)
  show ?thesis
  proof (cases "f64_zero (temp st)")
    case True
    then show ?thesis using ne by (simp add: sa_step_def child f metropolis_zero)
  next
    case False
    from metropolis_Inr [OF False] obtain acc where acc: "metropolis 0 (temp st) (u d) = Inr acc" by blast
    have "st\<lparr>curr := curr st, fit_curr := fit_curr st\<rparr> = st" by simp
    with False ne b show ?thesis by (simp add: sa_step_def child f acc Let_def not_less)
  qed
qed

lemma one_tutor_sa_loop:
  assumes T: "length T = 1" and d: "\<forall>s. valid_draw S T (draws s)"
  shows "curr st = replicate (length S) 0 \<Longrightarrow> compute_fitness (curr st) S T w = Inr (fit_curr st) \<Longrightarrow>
    total_score (fit_curr st) \<le> total_score (best_fit st) \<Longrightarrow>
    sa_loop S T w cooling draws ss st
      = (if \<exists>j < length ss. f64_zero (((\<lambda>T. fmul T cooling) ^^ j) (temp st)) then Inl ZeroDivisionError
         else Inr (st\<lparr>temp := ((\<lambda>T. fmul T cooling) ^^ length ss) (temp st)\<rparr>))"
proof (induction ss arbitrary: st)
  case Nil
  then show ?case by simp
next
  case (Cons s ss)
  note step = one_tutor_sa_step [OF T d [rule_format, of s] Cons.prems]
  show ?case
  proof (cases "f64_zero (temp st)")
    case True
    then show ?thesis by (simp add: step ex_funpow_Suc del: funpow.simps)
  next
    case False
    let ?st = "st\<lparr>temp := fmul (temp st) cooling\<rparr>"
    have "sa_loop S T w cooling draws ss ?st
      = (if \<exists>j < length ss. f64_zero (((\<lambda>T. fmul T cooling) ^^ j) (temp ?st)) then Inl ZeroDivisionError
         else Inr (?st\<lparr>temp := ((\<lambda>T. fmul T cooling) ^^ length ss) (temp ?st)\<rparr>))"
      using Cons.prems by (intro Cons.IH) simp_all
    with False show ?thesis by (simp add: step ex_funpow_Suc funpow_Suc_right del: funpow.simps)
  qed
qed

text \<open>
  C25: below a cooling factor of one half the float temperature does reach \<open>0.0\<close>: from
  \<open>T0 = 1.0\<close> with \<open>cooling = 0.5\<close> it is \<open>0.0\<close> after 1075 steps, and on an instance
  with a single tutor (where no proposal improves the score) \<open>run_sa\<close> with more steps
  raises \<open>ZeroDivisionError\<close> on \<open>delta / T\<close>.
\<close>

theorem run_sa_underflow:
  assumes rows: "\<forall>r \<in> set S. has_cols r" "\<forall>r \<in> set T. has_cols r" and w: "has_weights w"
    and ne: "0 < length S" and T: "length T = 1" and i: "\<forall>k < length S. init k < length T"
    and d: "\<forall>s. valid_draw S T (draws s)" and steps: "1075 < steps"
  shows "run_sa S T w (F64 1 0) (F64 1 (-1)) steps init draws = Inl ZeroDivisionError"
proof -
  let ?c = "map (\<lambda>k. int (init k)) [0..<length S]"
  have c: "?c = replicate (length S) 0"
    by (rule nth_equalityI) (use i T in auto)
  have "\<exists>f. compute_fitness ?c S T w = Inr f"
    using i by (intro compute_fitness_Inr [OF _ _ rows w]) auto
  then obtain f0 where f0: "compute_fitness ?c S T w = Inr f0" by blast
  have z: "\<exists>j < length [0..<steps]. f64_zero (((\<lambda>T. fmul T (F64 1 (-1))) ^^ j) (F64 1 0))"
    using steps halving_underflow by (intro exI [of _ 1075]) simp
  have "sa_loop S T w (F64 1 (-1)) draws [0..<steps]
      \<lparr>curr = ?c, fit_curr = f0, best_a = ?c, best_fit = f0, temp = F64 1 0\<rparr> = Inl ZeroDivisionError"
    using one_tutor_sa_loop [OF T d, of "\<lparr>curr = ?c, fit_curr = f0, best_a = ?c, best_fit = f0, temp = F64 1 0\<rparr>"]
      c f0 z by simp
  with f0 ne T show ?thesis by (simp add: run_sa_def Let_def)
qed

end
