(* ===== verification/SA_Main.thy ===== *)
theory SA_Main
  imports Driver SA
begin

text \<open>
  The SA driver \<open>src/simulated_annealing/src/main.py\<close>: \<open>run_scenario_sa\<close> loads a
  scenario table and runs \<open>run_sa\<close> three times, reporting the first run, its time and
  whether the three agree; \<open>run_all_scenarios_sa\<close> runs every scenario file present in the
  data folder in the fixed order. Each run has its own initial assignment and draws (Python's
  unseeded \<open>random\<close>) and its own measured time; reading a file is an input. The
  annealing always returns, so a run is a value or an exception.
\<close>

section \<open>The module's own scenario table and loader\<close>

text \<open>
  Lines 14--35 of the SA driver repeat the title map, the scenario order and the loader of the
  GA driver in the module's own names; each is translated from these lines and proved equal to
  the GA driver's below.
\<close>

text \<open>Lines 14--20.\<close>

definition title_map_sa :: "(string \<times> string) list" where
  "title_map_sa =
    [(''scenario1_fixed'', ''Skenario 1 '' @ en_dash @ '' Dataset Lengkap (10 pasang murid dan tutor)''),
     (''scenario 2_5_fixed'', ''Skenario 2 '' @ en_dash @ '' Perbandingan Metode Matching (5 pasang murid & tutor)''),
     (''scenario 2_10_fixed'', ''Skenario 2 '' @ en_dash @ '' Perbandingan Metode Matching (10 pasang murid & tutor)''),
     (''scenario 2_25_fixed'', ''Skenario 2 '' @ en_dash @ '' Perbandingan Metode Matching (25 pasang murid & tutor)''),
     (''scenario3_conflict_heavy_fleksibel'',
      ''Skenario 3 '' @ en_dash @ '' Konflik Preferensi Tinggi (Satu Tutor Diperebutkan Banyak Murid)'')]"

text \<open>Lines 22--28.\<close>

definition scenario_order_sa :: "string list" where
  "scenario_order_sa = [''scenario1_fixed'', ''scenario 2_5_fixed'', ''scenario 2_10_fixed'',
     ''scenario 2_25_fixed'', ''scenario3_conflict_heavy_fleksibel'']"

text \<open>Line 79: \<open>title_map.get(res['scenario_key'], res['scenario_key'])\<close>.\<close>

definition title_get_sa :: "string \<Rightarrow> string" where
  "title_get_sa k = (case map_of title_map_sa k of Some t \<Rightarrow> t | None \<Rightarrow> k)"

text \<open>Lines 30--35.\<close>

definition load_preferences_sa :: "frame \<Rightarrow> (row list \<times> row list) result" where
  "load_preferences_sa df =
     bind_sum (get_column df ''Status'') (\<lambda>status.
     bind_sum (str_lower status) (\<lambda>low.
     (let rs = map2 (\<lambda>r c. r(''Status'' \<mapsto> c)) (rows df) low in
      Inr (select_rows ''murid'' rs, select_rows ''tutor'' rs))))"

section \<open>The annealing driver\<close>

text \<open>
  Line 70: \<open>T0 = 1.0\<close>, \<open>cooling = 0.995\<close>, \<open>steps = 1000\<close>; the literal \<open>0.995\<close>
  is the double nearest to it, \<open>8962163258467287 * 2 ^ -53\<close> (\<open>0x1.fd70a3d70a3d7p-1\<close>).
\<close>

definition main_sa_params :: "f64 \<times> f64 \<times> nat" where
  "main_sa_params = (F64 1 0, F64 8962163258467287 (-53), 1000)"

text \<open>Lines 37--58; \<open>exec_time\<close> is the time \<open>run_sa\<close> measured for the first run.\<close>

definition run_scenario_sa ::
  "string \<Rightarrow> frame \<Rightarrow> weights \<Rightarrow> f64 \<times> f64 \<times> nat \<Rightarrow> (nat \<Rightarrow> nat \<Rightarrow> nat) \<Rightarrow> (nat \<Rightarrow> nat \<Rightarrow> step_draw)
     \<Rightarrow> (nat \<Rightarrow> real) \<Rightarrow> int list scenario_report result" where
  "run_scenario_sa file_path df weights sa_params init draws clock =
     (let key = path_key file_path in
      case sa_params of (T0, cooling, steps) \<Rightarrow>
      bind_sum (load_preferences_sa df) (\<lambda>(df_students, df_tutors).
      bind_sum (run_sa df_students df_tutors weights T0 cooling steps (init 0) (draws 0)) (\<lambda>res0.
      bind_sum (run_sa df_students df_tutors weights T0 cooling steps (init 1) (draws 1)) (\<lambda>res1.
      bind_sum (run_sa df_students df_tutors weights T0 cooling steps (init 2) (draws 2)) (\<lambda>res2.
        Inr \<lparr>scenario_key = key, best_found = fst res0, best_fitness = snd res0, exec_time = clock 0,
          deterministic = (fst res0 = fst res1 \<and> fst res1 = fst res2 \<and> snd res0 = snd res1 \<and> snd res1 = snd res2)\<rparr>)))))"

text \<open>Lines 72--87: one report per present file, in order; an exception ends the loop.\<close>

fun run_all_loop_sa ::
  "string \<Rightarrow> (string \<Rightarrow> frame option) \<Rightarrow> (string \<Rightarrow> nat \<Rightarrow> nat \<Rightarrow> nat) \<Rightarrow> (string \<Rightarrow> nat \<Rightarrow> nat \<Rightarrow> step_draw)
     \<Rightarrow> (string \<Rightarrow> nat \<Rightarrow> real) \<Rightarrow> string list
     \<Rightarrow> (string \<times> int list scenario_report) list \<times> pykey py_error option" where
  "run_all_loop_sa data_dir files init draws clock [] = ([], None)"
| "run_all_loop_sa data_dir files init draws clock (key # ks) =
     (let fpath = path_join data_dir (key @ ''.csv'') in
      case files fpath of
        None \<Rightarrow> run_all_loop_sa data_dir files init draws clock ks
      | Some df \<Rightarrow>
          (case run_scenario_sa fpath df main_weights main_sa_params (init key) (draws key) (clock key) of
             Inl e \<Rightarrow> ([], Some e)
           | Inr res \<Rightarrow>
               (case run_all_loop_sa data_dir files init draws clock ks of
                  (out, err) \<Rightarrow> ((title_get_sa (scenario_key res), res) # out, err))))"

text \<open>Lines 60--87; a missing data folder prints a message and returns.\<close>

definition run_all_scenarios_sa ::
  "string \<Rightarrow> bool \<Rightarrow> (string \<Rightarrow> frame option) \<Rightarrow> (string \<Rightarrow> nat \<Rightarrow> nat \<Rightarrow> nat) \<Rightarrow> (string \<Rightarrow> nat \<Rightarrow> nat \<Rightarrow> step_draw)
     \<Rightarrow> (string \<Rightarrow> nat \<Rightarrow> real) \<Rightarrow> (string \<times> int list scenario_report) list \<times> pykey py_error option" where
  "run_all_scenarios_sa data_dir is_dir files init draws clock =
     (if \<not> is_dir then ([], None) else run_all_loop_sa data_dir files init draws clock scenario_order_sa)"

text \<open>
  The inputs under which a scenario table can be annealed: it splits into non-empty lists of
  students and tutors with the criterion columns, and every initial tutor index and every
  draw of the three runs is in range.
\<close>

definition sa_ready :: "frame \<Rightarrow> (nat \<Rightarrow> nat \<Rightarrow> nat) \<Rightarrow> (nat \<Rightarrow> nat \<Rightarrow> step_draw) \<Rightarrow> bool" where
  "sa_ready df init draws \<longleftrightarrow>
     (case load_preferences_sa df of
        Inl e \<Rightarrow> False
      | Inr (S, T) \<Rightarrow> list_all has_cols S \<and> list_all has_cols T \<and> S \<noteq> [] \<and> T \<noteq> []
          \<and> (\<forall>i \<in> {0, 1, 2}. (\<forall>k < length S. init i k < length T) \<and> (\<forall>s. valid_draw S T (draws i s))))"

section \<open>Lemmas\<close>

lemma sa_module_copies [simp]:
  "title_map_sa = title_map" "scenario_order_sa = scenario_order"
  "title_get_sa = title_get" "load_preferences_sa = load_preferences"
  by (simp_all add: fun_eq_iff title_map_sa_def title_map_def scenario_order_sa_def
      scenario_order_def title_get_sa_def title_get_def load_preferences_sa_def load_preferences_def)

lemma main_weights_ok: "has_weights main_weights"
  by (simp add: has_weights_def criteria_def main_weights_def del: not_None_eq)

lemma run_scenario_sa_Inr:
  assumes "sa_ready df init draws"
  shows "\<exists>r. run_scenario_sa p df main_weights main_sa_params init draws clock = Inr r \<and> scenario_key r = path_key p"
proof -
  obtain S T where l: "load_preferences df = Inr (S, T)" and rows: "\<forall>r \<in> set S. has_cols r" "\<forall>r \<in> set T. has_cols r"
    and ne: "0 < length S" "0 < length T"
    and ok: "\<forall>i \<in> {0, 1, 2}. (\<forall>k < length S. init i k < length T) \<and> (\<forall>s. valid_draw S T (draws i s))"
    using assms by (auto simp: sa_ready_def list_all_iff split: sum.splits)
  have run: "\<exists>b bf. run_sa S T main_weights (F64 1 0) (F64 8962163258467287 (-53)) 1000 (init i) (draws i) = Inr (b, bf)"
    if "i \<in> {0, 1, 2}" for i
  proof -
    have "(\<forall>k < length S. init i k < length T) \<and> (\<forall>s. valid_draw S T (draws i s))" using ok that by blast
    then show ?thesis by (intro run_sa_Inr_ex [OF rows main_weights_ok ne]) (simp_all add: f64_real_def)
  qed
  from run [of 0] run [of 1] run [of 2] l show ?thesis
    by (auto simp: run_scenario_sa_def main_sa_params_def)
qed

lemma run_all_loop_sa_complete:
  assumes "\<forall>k \<in> set ks. \<forall>df. files (path_join d (k @ ''.csv'')) = Some df \<longrightarrow> sa_ready df (init k) (draws k)"
    and "\<forall>k \<in> set ks. CHR ''/'' \<notin> set k \<and> list_ex (\<lambda>c. c \<noteq> CHR ''.'') k \<and> map_of title_map k \<noteq> None"
  shows "\<exists>out. run_all_loop_sa d files init draws clock ks = (out, None)
    \<and> map (\<lambda>(title, r). (scenario_key r, title)) out
      = map (\<lambda>k. (k, the (map_of title_map k))) (filter (\<lambda>k. files (path_join d (k @ ''.csv'')) \<noteq> None) ks)"
  using assms
proof (induction ks)
  case Nil
  then show ?case by simp
next
  case (Cons k ks)
  let ?p = "path_join d (k @ ''.csv'')"
  from Cons.IH Cons.prems obtain out where
    rest: "run_all_loop_sa d files init draws clock ks = (out, None)"
    and eq: "map (\<lambda>(title, r). (scenario_key r, title)) out
      = map (\<lambda>k. (k, the (map_of title_map k))) (filter (\<lambda>k. files (path_join d (k @ ''.csv'')) \<noteq> None) ks)"
    by auto
  have key: "path_key ?p = k" using Cons.prems(2) by (simp add: path_key_join)
  have title: "title_get k = the (map_of title_map k)" using Cons.prems(2) by (auto simp: title_get_def)
  show ?case
  proof (cases "files ?p")
    case None
    with rest eq show ?thesis by simp
  next
    case (Some df)
    with Cons.prems(1) have "sa_ready df (init k) (draws k)" by simp
    from run_scenario_sa_Inr [OF this, of ?p "clock k"] key obtain res where
      rs: "run_scenario_sa ?p df main_weights main_sa_params (init k) (draws k) (clock k) = Inr res"
      and rk: "scenario_key res = k" by auto
    with Some rest eq title show ?thesis by simp
  qed
qed

text \<open>
  C34: when every scenario file present in the data folder splits into non-empty students
  and tutors with the criterion columns, and the initial assignments and draws of its three
  runs are in range, the SA driver raises nothing and prints one report per present file, in
  the order of its \<open>scenario_order\<close>, under the title its \<open>title_map\<close> gives and with its key.
\<close>

theorem run_all_scenarios_sa_complete:
  assumes "\<forall>k \<in> set scenario_order_sa. \<forall>df. files (path_join d (k @ ''.csv'')) = Some df \<longrightarrow> sa_ready df (init k) (draws k)"
  shows "\<exists>out. run_all_scenarios_sa d True files init draws clock = (out, None)
    \<and> map (\<lambda>(title, r). (scenario_key r, title)) out
      = map (\<lambda>k. (k, the (map_of title_map_sa k))) (filter (\<lambda>k. files (path_join d (k @ ''.csv'')) \<noteq> None) scenario_order_sa)"
  using run_all_loop_sa_complete [where ks = scenario_order and clock = clock] assms scenario_order_keys
  by (simp add: run_all_scenarios_sa_def)

end
