(* ===== verification/Cap_Instance.thy ===== *)
theory Cap_Instance
  imports Complex_Main Prelude "HOL-Library.AList"
begin

text \<open>
  The capacity-constrained matching instance of the experiment scripts
  \<open>src/tests/test.py\<close>, \<open>src/tests/sa.py\<close> and \<open>src/tests/test_sa.py\<close>. An instance is
  a list of students (\<open>murid\<close>), a list of tutors, a capacity dictionary
  \<open>cap\<close> (tutor to capacity) and a preference dictionary \<open>pref\<close> (pair to a dictionary
  from attribute to score). Python dictionaries are association lists with
  \<open>AList.update\<close> for \<open>d[k] = v\<close> (which keeps the position of an existing key, as
  CPython does) and \<open>AList.delete\<close> for \<open>d.pop(k, None)\<close>; a read \<open>d[k]\<close> of a missing key
  raises \<open>KeyError\<close>. The scripts' scores are the integers the generators write (no
  caller passes \<open>weights\<close>), so scores are \<open>int\<close>. Every call of \<open>random\<close> is an input:
  \<open>random.choice(xs)\<close> is the element drawn, which raises \<open>IndexError\<close> on an empty list.
  This theory holds the instance, the score table, the penalised fitness, \<open>evaluate\<close>
  and the scenario builders, and the shape (\<open>cap_wf\<close>) every builder produces.
\<close>

section \<open>Instances\<close>

text \<open>The keys a read can miss: a pair of \<open>score_pair\<close>/\<open>pref\<close>, a tutor of \<open>cap\<close>, a student of an assignment.\<close>

datatype cap_key = KPair int int | KTutor int | KMurid int

type_synonym 'a cresult = "cap_key py_error + 'a"
type_synonym attrs = "(string \<times> int) list"
type_synonym pref = "((int \<times> int) \<times> attrs) list"
type_synonym caps = "(int \<times> int) list"
type_synonym assign = "(int \<times> int) list"
type_synonym score_tab = "((int \<times> int) \<times> int) list"

text \<open>\<open>random.choice(xs)\<close> with the drawn element \<open>x\<close>.\<close>

definition py_choice :: "'a list \<Rightarrow> 'a \<Rightarrow> 'b py_error + 'a" where
  "py_choice xs x = (if xs = [] then Inl IndexError else Inr x)"

text \<open>
  \<open>test.py\<close> line 102 (the same line opens each solver of the scripts):
  \<open>{(m,t): sum(pref[(m,t)].values()) for m in murid for t in tutor}\<close>, over the pairs in
  the order of the comprehension; the first missing pair raises.
\<close>

fun score_table :: "pref \<Rightarrow> (int \<times> int) list \<Rightarrow> score_tab cresult" where
  "score_table pref [] = Inr []"
| "score_table pref (k # ks) =
     (case map_of pref k of
        None \<Rightarrow> Inl (KeyError (KPair (fst k) (snd k)))
      | Some a \<Rightarrow> bind_sum (score_table pref ks) (\<lambda>tab. Inr ((k, sum_list (map snd a)) # tab)))"

definition score_pairs :: "int list \<Rightarrow> int list \<Rightarrow> pref \<Rightarrow> score_tab cresult" where
  "score_pairs murid tutor pref = score_table pref (List.product murid tutor)"

text \<open>Line 103: \<open>PEN = max(score_pair.values()) * len(murid)\<close>; \<open>max\<close> of nothing raises.\<close>

definition penalty :: "score_tab \<Rightarrow> int list \<Rightarrow> int cresult" where
  "penalty tab murid = (if tab = [] then Inl ValueError else Inr (max_of snd tab * int (length murid)))"

section \<open>The penalised fitness\<close>

text \<open>\<open>score_pair[(m, assign[m])]\<close>.\<close>

definition assigned_score :: "score_tab \<Rightarrow> assign \<Rightarrow> int \<Rightarrow> int cresult" where
  "assigned_score tab A m =
     (case map_of A m of
        None \<Rightarrow> Inl (KeyError (KMurid m))
      | Some t \<Rightarrow> (case map_of tab (m, t) of None \<Rightarrow> Inl (KeyError (KPair m t)) | Some s \<Rightarrow> Inr s))"

text \<open>Line 109: \<open>sum(score_pair[(m, assign[m])] for m in murid)\<close>.\<close>

fun raw_score :: "score_tab \<Rightarrow> assign \<Rightarrow> int list \<Rightarrow> int cresult" where
  "raw_score tab A [] = Inr 0"
| "raw_score tab A (m # ms) = bind_sum (assigned_score tab A m) (\<lambda>s. bind_sum (raw_score tab A ms) (\<lambda>r. Inr (s + r)))"

text \<open>\<open>sum(1 for x in assign if assign[x]==t)\<close>: the students assigned to \<open>t\<close>.\<close>

definition load :: "assign \<Rightarrow> int \<Rightarrow> int" where
  "load A t = int (length (filter (\<lambda>(x, a). a = t) A))"

text \<open>Line 110: \<open>sum(max(0, load - cap_init[t]) for t in tutor)\<close>.\<close>

fun overflow :: "caps \<Rightarrow> assign \<Rightarrow> int list \<Rightarrow> int cresult" where
  "overflow cap A [] = Inr 0"
| "overflow cap A (t # ts) =
     (case map_of cap t of
        None \<Rightarrow> Inl (KeyError (KTutor t))
      | Some c \<Rightarrow> bind_sum (overflow cap A ts) (\<lambda>r. Inr (max 0 (load A t - c) + r)))"

text \<open>Lines 107--111: \<open>fitness(assign) = s - PEN * overflow\<close>.\<close>

definition cap_fitness :: "score_tab \<Rightarrow> caps \<Rightarrow> int \<Rightarrow> int list \<Rightarrow> int list \<Rightarrow> assign \<Rightarrow> int cresult" where
  "cap_fitness tab cap pen murid tutor A =
     bind_sum (raw_score tab A murid) (\<lambda>s. bind_sum (overflow cap A tutor) (\<lambda>ov. Inr (s - pen * ov)))"

section \<open>\<open>evaluate\<close>\<close>

text \<open>\<open>sum(sum(pref[(m,assign[m])].values()) for m in assign)\<close>.\<close>

fun match_score :: "pref \<Rightarrow> assign \<Rightarrow> int cresult" where
  "match_score pref [] = Inr 0"
| "match_score pref ((m, t) # A) =
     (case map_of pref (m, t) of
        None \<Rightarrow> Inl (KeyError (KPair m t))
      | Some a \<Rightarrow> bind_sum (match_score pref A) (\<lambda>r. Inr (sum_list (map snd a) + r)))"

text \<open>\<open>test.py\<close> lines 169--175: the score of an assignment and its share of the four attributes, in percent.\<close>

definition evaluate :: "assign \<Rightarrow> pref \<Rightarrow> (int \<times> real) cresult" where
  "evaluate A pref =
     (if A = [] then Inr (0, 0)
      else bind_sum (match_score pref A) (\<lambda>ms. Inr (ms, real_of_int ms / real (length A * 4) * 100)))"

section \<open>The scenario builders\<close>

definition attr_names :: "string list" where
  "attr_names = [''waktu'', ''topik'', ''mode'', ''gaya'']"

text \<open>\<open>{a: f a for a in attrs}\<close>.\<close>

definition attr_dict :: "(string \<Rightarrow> int) \<Rightarrow> attrs" where
  "attr_dict f = map (\<lambda>a. (a, f a)) attr_names"

text \<open>
  The inner loop over the tutors of one student: \<open>pref[(m,t)] = row t\<close>.
\<close>

definition set_rows :: "int \<Rightarrow> int list \<Rightarrow> (int \<Rightarrow> attrs) \<Rightarrow> pref \<Rightarrow> pref" where
  "set_rows m tutor row pref = fold (\<lambda>t p. AList.update (m, t) (row t) p) tutor pref"

text \<open>
  \<open>pref[(m,t)][a] *= weights.get(a,1)\<close> for every tutor and attribute; the rows were
  just written with the four attributes, so the reads \<open>pref[(m,t)]\<close> and
  \<open>pref[(m,t)][a]\<close> find their key.
\<close>

definition weigh :: "(string \<times> int) list \<Rightarrow> int \<Rightarrow> int list \<Rightarrow> pref \<Rightarrow> pref" where
  "weigh weights m tutor pref =
     fold (\<lambda>t p. fold (\<lambda>a p'. case map_of p' (m, t) of
                               None \<Rightarrow> p'
                             | Some d \<Rightarrow> AList.update (m, t)
                                 (AList.update a (the (map_of d a) * (case map_of weights a of Some w \<Rightarrow> w | None \<Rightarrow> 1)) d) p')
                  attr_names p) tutor pref"

text \<open>
  \<open>test.py\<close> lines 13--26, the rows of student \<open>m\<close>. \<open>good m\<close> is the tutor
  \<open>random.choice(tutor)\<close> draws for \<open>m\<close> in the conflict mode, \<open>coin m t a\<close> the
  \<open>random.randint(0,1)\<close> of attribute \<open>a\<close> in the random mode. In the popular mode the
  subset is a list (no caller uses that mode).
\<close>

definition student_rows ::
  "int list \<Rightarrow> string \<Rightarrow> int list \<Rightarrow> (int \<Rightarrow> int) \<Rightarrow> (int \<Rightarrow> int \<Rightarrow> string \<Rightarrow> int) \<Rightarrow> int \<Rightarrow> pref
     \<Rightarrow> pref cresult" where
  "student_rows tutor mode popular good coin m pref =
     (if mode = ''conflict'' then
        bind_sum (py_choice tutor (good m)) (\<lambda>t_good.
          Inr (set_rows m tutor (\<lambda>t. attr_dict (\<lambda>a. if t = t_good then 1 else 0)) pref))
      else if mode = ''popular'' then
        Inr (set_rows m tutor (\<lambda>t. attr_dict (\<lambda>a. if t \<in> set popular then 1 else 0)) pref)
      else Inr (set_rows m tutor (\<lambda>t. attr_dict (coin m t)) pref))"

text \<open>Lines 12--31: each student's rows, then the weights when \<open>weights\<close> is not empty.\<close>

fun gen_prefs ::
  "int list \<Rightarrow> string \<Rightarrow> int list \<Rightarrow> (string \<times> int) list \<Rightarrow> (int \<Rightarrow> int) \<Rightarrow> (int \<Rightarrow> int \<Rightarrow> string \<Rightarrow> int)
     \<Rightarrow> int list \<Rightarrow> pref \<Rightarrow> pref cresult" where
  "gen_prefs tutor mode popular weights good coin [] pref = Inr pref"
| "gen_prefs tutor mode popular weights good coin (m # ms) pref =
     bind_sum (student_rows tutor mode popular good coin m pref) (\<lambda>p.
       gen_prefs tutor mode popular weights good coin ms (if weights \<noteq> [] then weigh weights m tutor p else p))"

definition generate_preferences ::
  "int list \<Rightarrow> int list \<Rightarrow> string \<Rightarrow> int list \<Rightarrow> (string \<times> int) list \<Rightarrow> (int \<Rightarrow> int)
     \<Rightarrow> (int \<Rightarrow> int \<Rightarrow> string \<Rightarrow> int) \<Rightarrow> pref cresult" where
  "generate_preferences murid tutor mode popular weights good coin =
     gen_prefs tutor mode popular weights good coin murid []"

type_synonym cap_instance = "int list \<times> int list \<times> caps \<times> pref"

text \<open>\<open>list(range(n))\<close>.\<close>

definition int_range :: "nat \<Rightarrow> int list" where
  "int_range n = map int [0..<n]"

text \<open>Lines 34--40: capacity 1 for every tutor, conflict preferences.\<close>

definition scenario_conflict_heavy :: "nat \<Rightarrow> nat \<Rightarrow> (int \<Rightarrow> int) \<Rightarrow> cap_instance cresult" where
  "scenario_conflict_heavy n_m n_t good =
     (let murid = int_range n_m; tutor = int_range n_t; cap = map (\<lambda>t. (t, 1)) tutor in
      bind_sum (generate_preferences murid tutor ''conflict'' [] [] good (\<lambda>_ _ _. 0)) (\<lambda>pref.
        Inr (murid, tutor, cap, pref)))"

text \<open>
  Lines 42--52: capacity 5 for tutors 0 and 1 and 1 for the others, or
  \<open>max(1, n_m // n_t)\<close> for every tutor (never evaluated when there is no tutor).
\<close>

definition scenario_capacity ::
  "nat \<Rightarrow> nat \<Rightarrow> bool \<Rightarrow> (int \<Rightarrow> int \<Rightarrow> string \<Rightarrow> int) \<Rightarrow> cap_instance cresult" where
  "scenario_capacity n_m n_t is_asym coin =
     (let murid = int_range n_m; tutor = int_range n_t;
          cap = (if is_asym then map (\<lambda>t. (t, if t < 2 then 5 else 1)) tutor
                 else map (\<lambda>t. (t, max 1 (int n_m div int n_t))) tutor) in
      bind_sum (generate_preferences murid tutor ''random'' [] [] (\<lambda>_. 0) coin) (\<lambda>pref.
        Inr (murid, tutor, cap, pref)))"

section \<open>The shape the solvers read\<close>

text \<open>
  An instance the solvers can read without \<open>KeyError\<close>: distinct students and tutors,
  a non-negative capacity for every tutor, and for every pair a dictionary of the four
  attributes, each scored 0 or 1.
\<close>

definition binary_attrs :: "attrs \<Rightarrow> bool" where
  "binary_attrs a \<longleftrightarrow> map fst a = attr_names \<and> list_all (\<lambda>(k, v). v = 0 \<or> v = 1) a"

definition cap_wf :: "cap_instance \<Rightarrow> bool" where
  "cap_wf I \<longleftrightarrow> (case I of (murid, tutor, cap, pref) \<Rightarrow>
     distinct murid \<and> distinct tutor
     \<and> list_all (\<lambda>t. case map_of cap t of Some c \<Rightarrow> 0 \<le> c | None \<Rightarrow> False) tutor
     \<and> list_all (\<lambda>k. case map_of pref k of Some a \<Rightarrow> binary_attrs a | None \<Rightarrow> False) (List.product murid tutor))"

text \<open>The score table has every pair.\<close>

definition tab_ok :: "int list \<Rightarrow> int list \<Rightarrow> score_tab \<Rightarrow> bool" where
  "tab_ok murid tutor sp \<longleftrightarrow> (\<forall>m \<in> set murid. \<forall>t \<in> set tutor. map_of sp (m, t) \<noteq> None)"

text \<open>An assignment of exactly the students, each to a tutor.\<close>

definition assign_on :: "int list \<Rightarrow> int list \<Rightarrow> assign \<Rightarrow> bool" where
  "assign_on murid tutor A \<longleftrightarrow> fst ` set A = set murid \<and> snd ` set A \<subseteq> set tutor"

text \<open>
  The capacity still available, \<open>sum(max(0, c))\<close> over the capacity dictionary: each
  search step takes one unit of it, so it measures the recursion of \<open>Cap_CSP\<close>.
\<close>

definition capsum :: "caps \<Rightarrow> nat" where
  "capsum cap = sum_list (map (\<lambda>(t, c). nat c) cap)"

section \<open>Lemmas\<close>

lemma capsum_update_less:
  "map_of cap t = Some c \<Longrightarrow> 0 < c \<Longrightarrow> capsum (AList.update t (c - 1) cap) < capsum cap"
  by (induction cap) (auto simp: capsum_def split: if_splits)

lemma map_of_set_rows:
  "map_of (set_rows m tutor row pref) k = (if fst k = m \<and> snd k \<in> set tutor then Some (row (snd k)) else map_of pref k)"
  unfolding set_rows_def
  by (induction tutor arbitrary: pref) (auto simp: update_conv')

lemma binary_attr_dict: "(\<forall>a. f a = 0 \<or> f a = 1) \<Longrightarrow> binary_attrs (attr_dict f)"
  by (simp add: binary_attrs_def attr_dict_def list_all_iff comp_def)

text \<open>One student's rows: whatever the mode, the tutors' rows are binary attribute dictionaries.\<close>

lemma student_rows_binary:
  assumes "\<forall>m t a. coin m t a = 0 \<or> coin m t a = 1" and "mode = ''conflict'' \<longrightarrow> tutor \<noteq> []"
  shows "\<exists>row. (\<forall>t. binary_attrs (row t)) \<and> student_rows tutor mode popular good coin m pref = Inr (set_rows m tutor row pref)"
proof (cases "mode = ''conflict''")
  case True
  with assms show ?thesis
    by (intro exI [where x = "\<lambda>t. attr_dict (\<lambda>a. if t = good m then 1 else 0)"])
       (simp add: student_rows_def py_choice_def binary_attr_dict)
next
  case False
  show ?thesis
  proof (cases "mode = ''popular''")
    case True
    with False show ?thesis
      by (intro exI [where x = "\<lambda>t. attr_dict (\<lambda>a. if t \<in> set popular then 1 else 0)"])
         (simp add: student_rows_def binary_attr_dict)
  next
    case pop: False
    with False assms show ?thesis
      by (intro exI [where x = "\<lambda>t. attr_dict (coin m t)"]) (simp add: student_rows_def binary_attr_dict)
  qed
qed

lemma gen_prefs_wf:
  assumes coin: "\<forall>m t a. coin m t a = 0 \<or> coin m t a = 1"
    and ne: "mode = ''conflict'' \<longrightarrow> tutor \<noteq> []"
  shows "(\<forall>k a. map_of pref k = Some a \<longrightarrow> binary_attrs a) \<Longrightarrow>
         \<exists>p. gen_prefs tutor mode popular [] good coin ms pref = Inr p
           \<and> (\<forall>k a. map_of p k = Some a \<longrightarrow> binary_attrs a)
           \<and> (\<forall>k. map_of pref k \<noteq> None \<longrightarrow> map_of p k \<noteq> None)
           \<and> (\<forall>m \<in> set ms. \<forall>t \<in> set tutor. map_of p (m, t) \<noteq> None)"
proof (induction ms arbitrary: pref)
  case Nil
  then show ?case by simp
next
  case (Cons m ms)
  from student_rows_binary [OF coin ne] obtain row where
    row: "\<forall>t. binary_attrs (row t)"
    and step: "student_rows tutor mode popular good coin m pref = Inr (set_rows m tutor row pref)" by blast
  let ?p = "set_rows m tutor row pref"
  have "\<forall>k a. map_of ?p k = Some a \<longrightarrow> binary_attrs a"
    using Cons.prems row by (simp add: map_of_set_rows)
  from Cons.IH [OF this] obtain p where
    p: "gen_prefs tutor mode popular [] good coin ms ?p = Inr p"
    and bin: "\<forall>k a. map_of p k = Some a \<longrightarrow> binary_attrs a"
    and keep: "\<forall>k. map_of ?p k \<noteq> None \<longrightarrow> map_of p k \<noteq> None"
    and cov: "\<forall>m \<in> set ms. \<forall>t \<in> set tutor. map_of p (m, t) \<noteq> None" by blast
  have "gen_prefs tutor mode popular [] good coin (m # ms) pref = Inr p"
    using step p by simp
  moreover have "\<forall>k. map_of pref k \<noteq> None \<longrightarrow> map_of p k \<noteq> None"
    using keep by (simp add: map_of_set_rows)
  moreover have "\<forall>t \<in> set tutor. map_of p (m, t) \<noteq> None"
    using keep by (simp add: map_of_set_rows)
  ultimately show ?case using bin cov by auto
qed

lemma generate_preferences_wf:
  assumes "\<forall>m t a. coin m t a = 0 \<or> coin m t a = 1" and "mode = ''conflict'' \<longrightarrow> tutor \<noteq> []"
  shows "\<exists>p. generate_preferences murid tutor mode popular [] good coin = Inr p
           \<and> list_all (\<lambda>k. case map_of p k of Some a \<Rightarrow> binary_attrs a | None \<Rightarrow> False) (List.product murid tutor)"
proof -
  from gen_prefs_wf [OF assms, of "[]" popular good murid] obtain p where
    "gen_prefs tutor mode popular [] good coin murid [] = Inr p"
    "\<forall>k a. map_of p k = Some a \<longrightarrow> binary_attrs a"
    "\<forall>m \<in> set murid. \<forall>t \<in> set tutor. map_of p (m, t) \<noteq> None" by auto
  then show ?thesis
    by (auto simp: generate_preferences_def list_all_iff split: option.splits)
qed

lemma map_of_caps: "map_of (map (\<lambda>t. (t, f t)) ts) t = (if t \<in> set ts then Some (f t) else None)"
  by (induction ts) auto

lemma distinct_int_range [simp]: "distinct (int_range n)"
  by (simp add: int_range_def distinct_map inj_on_def)

lemma cap_wf_build:
  assumes "list_all (\<lambda>k. case map_of p k of Some a \<Rightarrow> binary_attrs a | None \<Rightarrow> False)
             (List.product (int_range n_m) (int_range n_t))"
    and "\<forall>t. 0 \<le> c t"
  shows "cap_wf (int_range n_m, int_range n_t, map (\<lambda>t. (t, c t)) (int_range n_t), p)"
  using assms by (simp add: cap_wf_def map_of_caps list_all_iff)

lemma binary_attrs_sum:
  assumes "binary_attrs a"
  shows "0 \<le> sum_list (map snd a) \<and> sum_list (map snd a) \<le> 4"
proof -
  have gen: "list_all (\<lambda>(k, v). v = 0 \<or> v = 1) xs \<Longrightarrow>
      0 \<le> sum_list (map snd xs) \<and> sum_list (map snd xs) \<le> int (length xs)" for xs :: attrs
    by (induction xs) auto
  from assms have "map fst a = attr_names" by (simp add: binary_attrs_def)
  then have "length (map fst a) = 4" by (simp add: attr_names_def)
  then have "length a = 4" by simp
  with gen [of a] assms show ?thesis by (simp add: binary_attrs_def)
qed

lemma match_score_bounds:
  assumes "\<forall>(m, t) \<in> set A. \<exists>a. map_of pref (m, t) = Some a \<and> binary_attrs a"
  shows "\<exists>ms. match_score pref A = Inr ms \<and> 0 \<le> ms \<and> ms \<le> 4 * int (length A)"
  using assms
proof (induction A)
  case Nil
  then show ?case by simp
next
  case (Cons p A)
  obtain m t where p: "p = (m, t)" by (cases p)
  with Cons.prems obtain a where a: "map_of pref (m, t) = Some a" "binary_attrs a" by auto
  from Cons.IH Cons.prems obtain r where "match_score pref A = Inr r" "0 \<le> r" "r \<le> 4 * int (length A)"
    by auto
  with a binary_attrs_sum [OF a(2)] p show ?case by auto
qed

lemma score_table_ok:
  "\<forall>k \<in> set ks. map_of pref k \<noteq> None \<Longrightarrow>
   \<exists>tab. score_table pref ks = Inr tab \<and> fst ` set tab = set ks
     \<and> (\<forall>k \<in> set ks. map_of tab k = map_option (\<lambda>a. sum_list (map snd a)) (map_of pref k))"
  by (induction ks) auto

lemma score_pairs_wf:
  assumes "cap_wf (murid, tutor, cap, pref)"
  shows "\<exists>tab. score_pairs murid tutor pref = Inr tab \<and> fst ` set tab = set murid \<times> set tutor
     \<and> (\<forall>m \<in> set murid. \<forall>t \<in> set tutor. \<exists>a. map_of pref (m, t) = Some a \<and> binary_attrs a
          \<and> map_of tab (m, t) = Some (sum_list (map snd a)))"
proof -
  have pre: "\<forall>k \<in> set (List.product murid tutor). \<exists>a. map_of pref k = Some a \<and> binary_attrs a"
    using assms by (fastforce simp: cap_wf_def list_all_iff split: option.splits)
  then have "\<forall>k \<in> set (List.product murid tutor). map_of pref k \<noteq> None" by blast
  from score_table_ok [OF this] obtain tab where
    "score_table pref (List.product murid tutor) = Inr tab" "fst ` set tab = set murid \<times> set tutor"
    "\<forall>k \<in> set (List.product murid tutor). map_of tab k = map_option (\<lambda>a. sum_list (map snd a)) (map_of pref k)"
    by auto
  with pre show ?thesis by (fastforce simp: score_pairs_def)
qed

lemma cap_wf_caps:
  assumes "cap_wf (murid, tutor, cap, pref)" and "t \<in> set tutor"
  shows "\<exists>c. map_of cap t = Some c \<and> 0 \<le> c"
proof -
  from assms have "case map_of cap t of Some c \<Rightarrow> 0 \<le> c | None \<Rightarrow> False"
    by (simp add: cap_wf_def list_all_iff)
  then show ?thesis by (cases "map_of cap t") simp_all
qed

lemma set_update_sub: "set (AList.update k v A) \<subseteq> insert (k, v) (set A)"
  by (induction A) auto

lemma load_update_le: "load (AList.update k v A) t \<le> load A t + (if v = t then 1 else 0)"
  by (induction A) (auto simp: load_def)

lemma load_mono:
  assumes "distinct B" and "set B \<subseteq> set A"
  shows "load B t \<le> load A t"
proof -
  let ?P = "\<lambda>(x, a). a = t"
  have "length (filter ?P B) = card (set (filter ?P B))"
    using assms(1) by (simp only: distinct_card distinct_filter)
  also have "\<dots> \<le> card (set (filter ?P A))"
    using assms(2) by (intro card_mono) auto
  also have "\<dots> \<le> length (filter ?P A)" by (rule card_length)
  finally show ?thesis by (simp add: load_def)
qed

lemma score_pairs_tab_ok:
  assumes "cap_wf (murid, tutor, cap, pref)"
  shows "\<exists>sp. score_pairs murid tutor pref = Inr sp \<and> tab_ok murid tutor sp \<and> fst ` set sp = set murid \<times> set tutor"
  using score_pairs_wf [OF assms] by (fastforce simp: tab_ok_def)

lemma assign_on_get:
  assumes "assign_on murid tutor A" and "m \<in> set murid"
  shows "\<exists>t. map_of A m = Some t \<and> t \<in> set tutor"
proof -
  from assms have "m \<in> fst ` set A" by (simp add: assign_on_def)
  then obtain t where t: "map_of A m = Some t" by (metis option.exhaust map_of_eq_None_iff)
  then have "t \<in> snd ` set A" by (force dest: map_of_SomeD)
  with t assms(1) show ?thesis by (auto simp: assign_on_def)
qed

lemma assign_on_update:
  assumes "assign_on murid tutor A" and "m \<in> set murid" and "t \<in> set tutor"
  shows "assign_on murid tutor (AList.update m t A)"
proof -
  have "snd ` set (AList.update m t A) \<subseteq> snd ` insert (m, t) (set A)"
    by (intro image_mono set_update_sub)
  with assms show ?thesis by (auto simp: assign_on_def dom_update)
qed

lemma raw_score_ok:
  "tab_ok murid tutor tab \<Longrightarrow> assign_on murid tutor A \<Longrightarrow> set ms \<subseteq> set murid \<Longrightarrow> \<exists>s. raw_score tab A ms = Inr s"
proof (induction ms)
  case Nil
  then show ?case by simp
next
  case (Cons m ms)
  from assign_on_get [OF Cons.prems(2)] Cons.prems(3) obtain t where
    t: "map_of A m = Some t" "t \<in> set tutor" by auto
  have "m \<in> set murid" using Cons.prems(3) by simp
  with Cons.prems(1) t(2) have "map_of tab (m, t) \<noteq> None" unfolding tab_ok_def by blast
  then obtain s where "map_of tab (m, t) = Some s" by blast
  with t Cons show ?case by (auto simp: assigned_score_def)
qed

lemma overflow_ok:
  "\<forall>t \<in> set ts. map_of cap t \<noteq> None \<Longrightarrow> \<exists>ov. overflow cap A ts = Inr ov \<and> 0 \<le> ov"
  by (induction ts) auto

lemma cap_fitness_ok:
  assumes "cap_wf (murid, tutor, cap, pref)" and "tab_ok murid tutor tab" and "assign_on murid tutor A"
  shows "\<exists>f. cap_fitness tab cap pen murid tutor A = Inr f"
proof -
  from raw_score_ok [OF assms(2,3)] obtain s where "raw_score tab A murid = Inr s" by blast
  moreover have "\<forall>t \<in> set tutor. map_of cap t \<noteq> None" using cap_wf_caps [OF assms(1)] by fastforce
  from overflow_ok [OF this] obtain ov where "overflow cap A tutor = Inr ov" by blast
  ultimately show ?thesis by (simp add: cap_fitness_def)
qed

lemma conflict_heavy_wf:
  "case scenario_conflict_heavy n_m n_t good of
     Inl e \<Rightarrow> e = IndexError \<and> n_t = 0 \<and> 0 < n_m
   | Inr I \<Rightarrow> cap_wf I \<and> \<not> (n_t = 0 \<and> 0 < n_m)"
proof (cases "n_t = 0 \<and> 0 < n_m")
  case True
  then obtain k where "n_m = Suc k" by (cases n_m) auto
  with True show ?thesis
    by (simp add: scenario_conflict_heavy_def generate_preferences_def int_range_def upt_conv_Cons
        student_rows_def py_choice_def del: upt_Suc)
next
  case False
  have zero: "\<forall>m t a. (\<lambda>_ _ _. 0::int) m t a = 0 \<or> (\<lambda>_ _ _. 0::int) m t a = 1" by simp
  from False consider "n_m = 0" | "int_range n_t \<noteq> []" by (auto simp: int_range_def)
  then show ?thesis
  proof cases
    case 1
    with cap_wf_build [of "[]" 0 n_t "\<lambda>_. 1"] show ?thesis
      by (simp add: scenario_conflict_heavy_def generate_preferences_def int_range_def)
  next
    case 2
    from generate_preferences_wf [OF zero, of "''conflict''" "int_range n_t" "int_range n_m" "[]" good] 2
    obtain p where "generate_preferences (int_range n_m) (int_range n_t) ''conflict'' [] [] good (\<lambda>_ _ _. 0) = Inr p"
      and "list_all (\<lambda>k. case map_of p k of Some a \<Rightarrow> binary_attrs a | None \<Rightarrow> False)
            (List.product (int_range n_m) (int_range n_t))" by auto
    with cap_wf_build [of p n_m n_t "\<lambda>_. 1"] False show ?thesis
      by (simp add: scenario_conflict_heavy_def Let_def)
  qed
qed

lemma capacity_wf:
  assumes coin: "\<forall>m t a. coin m t a = 0 \<or> coin m t a = 1"
  shows "\<exists>I. scenario_capacity n_m n_t is_asym coin = Inr I \<and> cap_wf I"
proof -
  from generate_preferences_wf [OF coin, of "''random''" "int_range n_t" "int_range n_m" "[]" "\<lambda>_. 0"]
  obtain p where p: "generate_preferences (int_range n_m) (int_range n_t) ''random'' [] [] (\<lambda>_. 0) coin = Inr p"
    and bin: "list_all (\<lambda>k. case map_of p k of Some a \<Rightarrow> binary_attrs a | None \<Rightarrow> False)
              (List.product (int_range n_m) (int_range n_t))" by auto
  have asym: "cap_wf (int_range n_m, int_range n_t, map (\<lambda>t. (t, if t < 2 then 5 else 1)) (int_range n_t), p)"
    by (rule cap_wf_build [OF bin]) simp
  have sym: "cap_wf (int_range n_m, int_range n_t, map (\<lambda>t. (t, max 1 (int n_m div int n_t))) (int_range n_t), p)"
    by (rule cap_wf_build [OF bin]) simp
  from p asym sym show ?thesis
    by (simp add: scenario_capacity_def Let_def)
qed

text \<open>
  C16: the scenario builders of \<open>test.py\<close> produce instances of the shape the solvers
  read (\<open>cap_wf\<close>): the conflict-heavy builder raises \<open>IndexError\<close> exactly when there
  are students and no tutor, and otherwise both builders return distinct students and
  tutors, a non-negative capacity for every tutor and a binary dictionary of the four
  attributes for every pair, whatever the random draws.
\<close>

theorem scenarios_wf:
  assumes coin: "\<forall>m t a. coin m t a = 0 \<or> coin m t a = 1"
  shows "(case scenario_conflict_heavy n_m n_t good of
            Inl e \<Rightarrow> e = IndexError \<and> n_t = 0 \<and> 0 < n_m
          | Inr I \<Rightarrow> cap_wf I \<and> \<not> (n_t = 0 \<and> 0 < n_m))
       \<and> (\<exists>I. scenario_capacity n_m n_t is_asym coin = Inr I \<and> cap_wf I)"
  using conflict_heavy_wf [where n_m = n_m and n_t = n_t and good = good]
    capacity_wf [OF coin, where n_m = n_m and n_t = n_t and is_asym = is_asym] by blast

text \<open>
  C17: \<open>evaluate\<close> of an assignment whose pairs all have binary dictionaries of the four
  attributes returns a score between 0 and four per student and a percentage between 0
  and 100.
\<close>

theorem evaluate_bounds:
  assumes "\<forall>(m, t) \<in> set A. \<exists>a. map_of pref (m, t) = Some a \<and> binary_attrs a"
  shows "\<exists>ms pct. evaluate A pref = Inr (ms, pct) \<and> 0 \<le> ms \<and> ms \<le> 4 * int (length A) \<and> 0 \<le> pct \<and> pct \<le> 100"
proof (cases "A = []")
  case True
  then show ?thesis by (simp add: evaluate_def)
next
  case False
  from match_score_bounds [OF assms] obtain ms where
    ms: "match_score pref A = Inr ms" "0 \<le> ms" "ms \<le> 4 * int (length A)" by blast
  have pos: "0 < real (length A * 4)" using False by simp
  have "real_of_int ms \<le> real (length A * 4)" using ms(3) by simp
  then have "real_of_int ms / real (length A * 4) \<le> 1" using pos by simp
  then have "real_of_int ms / real (length A * 4) * 100 \<le> 100" by simp
  with ms False show ?thesis by (simp add: evaluate_def)
qed

end
