(* ===== verification/Cap_CSP.thy ===== *)
theory Cap_CSP
  imports Cap_Instance
begin

text \<open>
  The capacity-constrained backtracking \<open>csp_backtrack\<close> of \<open>src/tests/test.py\<close>
  (lines 56--97). The nested \<open>backtrack\<close> shares three objects with its callers: the
  assignment dictionary, the capacity dictionary and the closure variable \<open>best\<close>.
  \<open>cap_bt\<close> and \<open>cap_loop\<close> (the \<open>for t in list(domains[var])\<close> loop) thread the
  assignment and \<open>best\<close> through every call and return them, with the assignment as the
  callee left it: line 91 \<open>assignment.pop(var, None)\<close> deletes the key outright, it does
  not restore an earlier value. The capacity dictionary is decremented before each call
  (line 80) and incremented after it (line 93), so a call leaves it as it found it and it
  is passed by value. The domains are passed by value as well: a callee mutates the lists
  of the dictionary it receives (line 86), but every caller rebinds its own \<open>domains\<close> to
  the copy \<open>old_domains\<close> taken before (line 92) and reads nothing else after a call.
  MRV (lines 61--63) ranges over every key of \<open>domains\<close>, assigned or not, so the search
  may pick an assigned student again; the lemmas and the results of this theory follow the
  code there too.
\<close>

type_synonym cdoms = "(int \<times> int list) list"
type_synonym cbest = "assign \<times> int"

text \<open>Lines 61--63: the first key of smallest non-empty domain, or \<open>None\<close>.\<close>

definition mrv_cap :: "cdoms \<Rightarrow> int option" where
  "mrv_cap doms =
     (case filter (\<lambda>(v, ds). ds \<noteq> []) doms of
        [] \<Rightarrow> None
      | x # xs \<Rightarrow> Some (fst (min_key (\<lambda>(v, ds). length ds) x xs)))"

text \<open>Lines 83--86: a tutor whose capacity reached 0 leaves the other students' domains.\<close>

definition forward_cap :: "int \<Rightarrow> int \<Rightarrow> cdoms \<Rightarrow> cdoms" where
  "forward_cap var t doms = map (\<lambda>(v, ds). (v, if v \<noteq> var \<and> t \<in> set ds then remove1 t ds else ds)) doms"

text \<open>
  Lines 65--93: \<open>cap_bt murid sp A doms cap cs best\<close> is \<open>backtrack(A, doms, cap, cs)\<close>
  with \<open>best\<close> the closure's dictionary; it returns the assignment and \<open>best\<close> as the call
  leaves them.
\<close>

function cap_bt ::
  "int list \<Rightarrow> score_tab \<Rightarrow> assign \<Rightarrow> cdoms \<Rightarrow> caps \<Rightarrow> int \<Rightarrow> cbest \<Rightarrow> (assign \<times> cbest) cresult"
and cap_loop ::
  "int list \<Rightarrow> score_tab \<Rightarrow> int \<Rightarrow> int list \<Rightarrow> assign \<Rightarrow> cdoms \<Rightarrow> caps \<Rightarrow> int \<Rightarrow> cbest
     \<Rightarrow> (assign \<times> cbest) cresult"
where
  "cap_bt murid sp A doms cap cs best =
     (if length A = length murid then
        Inr (A, if snd best < cs then (A, cs) else best)
      else
        (case mrv_cap doms of
           None \<Rightarrow> Inr (A, best)
         | Some var \<Rightarrow>
             (case map_of doms var of
                None \<Rightarrow> Inl (KeyError (KMurid var))
              | Some ts \<Rightarrow> cap_loop murid sp var ts A doms cap cs best)))"
| "cap_loop murid sp var [] A doms cap cs best = Inr (A, best)"
| "cap_loop murid sp var (t # ts) A doms cap cs best =
     (case map_of cap t of
        None \<Rightarrow> Inl (KeyError (KTutor t))
      | Some c \<Rightarrow>
          (if 0 < c then
             (let cap' = AList.update t (c - 1) cap;
                  doms' = (if c - 1 = 0 then forward_cap var t doms else doms);
                  A' = AList.update var t A in
              case map_of sp (var, t) of
                None \<Rightarrow> Inl (KeyError (KPair var t))
              | Some sc \<Rightarrow>
                  bind_sum (cap_bt murid sp A' doms' cap' (cs + sc) best) (\<lambda>(A'', best').
                    cap_loop murid sp var ts (AList.delete var A'') doms cap cs best'))
           else cap_loop murid sp var ts A doms cap cs best))"
  by pat_completeness auto

termination
  by (relation "inv_image (less_than <*lex*> less_than <*lex*> less_than)
       (\<lambda>x. case x of
          Inl (murid, sp, A, doms, cap, cs, best) \<Rightarrow> (capsum cap, 1::nat, 0::nat)
        | Inr (murid, sp, var, ts, A, doms, cap, cs, best) \<Rightarrow> (capsum cap, 0, length ts))")
     (auto simp: capsum_update_less)

text \<open>Line 95: \<open>{m: tutor[:] for m in murid}\<close>.\<close>

definition domains_cap :: "int list \<Rightarrow> int list \<Rightarrow> cdoms" where
  "domains_cap murid tutor = fold (\<lambda>m d. AList.update m tutor d) murid []"

text \<open>Lines 56--97: the entry point; it returns \<open>(best["assign"], best["score"])\<close>.\<close>

definition csp_backtrack :: "int list \<Rightarrow> int list \<Rightarrow> caps \<Rightarrow> pref \<Rightarrow> cbest cresult" where
  "csp_backtrack murid tutor cap_init pref =
     bind_sum (score_pairs murid tutor pref) (\<lambda>sp.
       bind_sum (cap_bt murid sp [] (domains_cap murid tutor) cap_init 0 ([], -1)) (\<lambda>(A, best). Inr best))"

section \<open>Invariants of the search\<close>

text \<open>The domains hold students as keys and tutors as values.\<close>

definition doms_ok :: "int list \<Rightarrow> int list \<Rightarrow> cdoms \<Rightarrow> bool" where
  "doms_ok murid tutor doms \<longleftrightarrow> (\<forall>v ds. (v, ds) \<in> set doms \<longrightarrow> v \<in> set murid \<and> set ds \<subseteq> set tutor)"

text \<open>
  An assignment of students to tutors that gives no tutor more students than its initial
  capacity \<open>cap0\<close>.
\<close>

definition within_caps :: "int list \<Rightarrow> int list \<Rightarrow> caps \<Rightarrow> assign \<Rightarrow> bool" where
  "within_caps murid tutor cap0 A \<longleftrightarrow> distinct (map fst A) \<and> fst ` set A \<subseteq> set murid \<and> snd ` set A \<subseteq> set tutor
     \<and> (\<forall>t \<in> set tutor. \<exists>c0. map_of cap0 t = Some c0 \<and> load A t \<le> c0)"

text \<open>
  The state of a call: the current capacity of every tutor is non-negative and the
  assignment holds at most what was taken from the tutor's initial capacity.
\<close>

definition state_ok :: "int list \<Rightarrow> int list \<Rightarrow> caps \<Rightarrow> assign \<Rightarrow> caps \<Rightarrow> bool" where
  "state_ok murid tutor cap0 A cap \<longleftrightarrow> distinct (map fst A) \<and> fst ` set A \<subseteq> set murid \<and> snd ` set A \<subseteq> set tutor
     \<and> (\<forall>t \<in> set tutor. \<exists>c0 c. map_of cap0 t = Some c0 \<and> map_of cap t = Some c \<and> 0 \<le> c \<and> load A t + c \<le> c0)"

text \<open>\<open>best\<close> is the initial \<open>({}, -1)\<close> or a complete assignment within the capacities.\<close>

definition best_ok :: "int list \<Rightarrow> int list \<Rightarrow> caps \<Rightarrow> cbest \<Rightarrow> bool" where
  "best_ok murid tutor cap0 b \<longleftrightarrow> b = ([], -1) \<or> (length (fst b) = length murid \<and> within_caps murid tutor cap0 (fst b))"

section \<open>Lemmas\<close>

lemma mrv_cap_key:
  assumes "mrv_cap doms = Some v"
  shows "\<exists>ds. (v, ds) \<in> set doms"
proof (cases "filter (\<lambda>(v, ds). ds \<noteq> []) doms")
  case Nil
  with assms show ?thesis by (simp add: mrv_cap_def)
next
  case (Cons x xs)
  let ?m = "min_key (\<lambda>(v, ds). length ds) x xs"
  from Cons assms have v: "v = fst ?m" by (simp add: mrv_cap_def)
  have "?m \<in> set (x # xs)" using min_key_in [of "\<lambda>(v, ds). length ds" x xs] by simp
  then have "?m \<in> set (filter (\<lambda>(v, ds). ds \<noteq> []) doms)" using Cons by simp
  then have "?m \<in> set doms" by simp
  with v show ?thesis by (metis prod.collapse)
qed

lemma doms_ok_get: "doms_ok murid tutor doms \<Longrightarrow> map_of doms v = Some ts \<Longrightarrow> v \<in> set murid \<and> set ts \<subseteq> set tutor"
  by (auto simp: doms_ok_def dest: map_of_SomeD)

lemma doms_ok_mrv:
  assumes "doms_ok murid tutor doms" and "mrv_cap doms = Some v"
  shows "\<exists>ts. map_of doms v = Some ts \<and> v \<in> set murid \<and> set ts \<subseteq> set tutor"
proof -
  from mrv_cap_key [OF assms(2)] obtain ds where "(v, ds) \<in> set doms" by blast
  then obtain ts where "map_of doms v = Some ts" by (meson weak_map_of_SomeI)
  with doms_ok_get [OF assms(1)] show ?thesis by blast
qed

lemma forward_cap_sub:
  assumes "(v, ds) \<in> set (forward_cap var t doms)"
  shows "\<exists>ds0. (v, ds0) \<in> set doms \<and> set ds \<subseteq> set ds0"
proof -
  from assms obtain ds0 where in0: "(v, ds0) \<in> set doms"
    and ds: "ds = (if v \<noteq> var \<and> t \<in> set ds0 then remove1 t ds0 else ds0)"
    by (auto simp: forward_cap_def)
  have "set ds \<subseteq> set ds0" unfolding ds using set_remove1_subset [of t ds0] by simp
  with in0 show ?thesis by blast
qed

lemma doms_ok_forward: "doms_ok murid tutor doms \<Longrightarrow> doms_ok murid tutor (forward_cap var t doms)"
  unfolding doms_ok_def by (blast dest: forward_cap_sub)

lemma state_ok_assign:
  assumes ok: "state_ok murid tutor cap0 A cap" and var: "var \<in> set murid" and t: "t \<in> set tutor"
    and c: "map_of cap t = Some c" and pos: "0 < c"
  shows "state_ok murid tutor cap0 (AList.update var t A) (AList.update t (c - 1) cap)"
  unfolding state_ok_def
proof (intro conjI ballI)
  let ?A' = "AList.update var t A"
  show "distinct (map fst ?A')" using ok by (simp add: state_ok_def distinct_update)
  have i: "fst ` set ?A' \<subseteq> fst ` insert (var, t) (set A)" "snd ` set ?A' \<subseteq> snd ` insert (var, t) (set A)"
    by (intro image_mono set_update_sub)+
  have m: "fst ` insert (var, t) (set A) \<subseteq> set murid" "snd ` insert (var, t) (set A) \<subseteq> set tutor"
    using ok var t by (simp_all add: state_ok_def)
  show "fst ` set ?A' \<subseteq> set murid" by (rule order_trans [OF i(1) m(1)])
  show "snd ` set ?A' \<subseteq> set tutor" by (rule order_trans [OF i(2) m(2)])
  fix t2 assume t2: "t2 \<in> set tutor"
  from ok t2 obtain c0 c2 where c0: "map_of cap0 t2 = Some c0" and c2: "map_of cap t2 = Some c2"
    and nn: "0 \<le> c2" and le: "load A t2 + c2 \<le> c0" by (auto simp: state_ok_def)
  have up: "load ?A' t2 \<le> load A t2 + (if t = t2 then 1 else 0)" by (rule load_update_le)
  show "\<exists>c0 c'. map_of cap0 t2 = Some c0 \<and> map_of (AList.update t (c - 1) cap) t2 = Some c'
          \<and> 0 \<le> c' \<and> load ?A' t2 + c' \<le> c0"
  proof (cases "t2 = t")
    case True
    with c c2 have "c2 = c" by simp
    with True c0 up le pos show ?thesis by (simp add: update_conv')
  next
    case False
    with c0 c2 up le nn show ?thesis by (simp add: update_conv')
  qed
qed

lemma state_ok_shrink:
  assumes ok: "state_ok murid tutor cap0 A cap" and dB: "distinct (map fst B)" and sub: "set B \<subseteq> set A"
  shows "state_ok murid tutor cap0 B cap"
  unfolding state_ok_def
proof (intro conjI ballI)
  show "distinct (map fst B)" by (rule dB)
  have m: "fst ` set A \<subseteq> set murid" "snd ` set A \<subseteq> set tutor" using ok by (simp_all add: state_ok_def)
  show "fst ` set B \<subseteq> set murid" by (rule order_trans [OF image_mono [OF sub] m(1)])
  show "snd ` set B \<subseteq> set tutor" by (rule order_trans [OF image_mono [OF sub] m(2)])
  fix t assume t: "t \<in> set tutor"
  have "load B t \<le> load A t" using dB sub by (intro load_mono) (simp_all add: distinct_map)
  with ok t show "\<exists>c0 c. map_of cap0 t = Some c0 \<and> map_of cap t = Some c \<and> 0 \<le> c \<and> load B t + c \<le> c0"
    unfolding state_ok_def by fastforce
qed

lemma set_delete_after_update:
  "set B \<subseteq> set (AList.update k v A) \<Longrightarrow> set (AList.delete k B) \<subseteq> set A"
  using set_update_sub [of k v A] by (auto simp: AList.delete_eq)

lemma best_ok_complete:
  "state_ok murid tutor cap0 A cap \<Longrightarrow> length A = length murid \<Longrightarrow> best_ok murid tutor cap0 (A, cs)"
  by (fastforce simp: best_ok_def within_caps_def state_ok_def)

text \<open>
  Every call returns: it raises nothing when the table has every pair and the domains and
  capacities are those of the instance, it never adds to the assignment it was given (a
  re-picked student even loses its earlier tutor), and \<open>best\<close> stays a complete
  assignment within the initial capacities.
\<close>

lemma cap_search_ok:
  "tab_ok murid tutor sp \<Longrightarrow> doms_ok murid tutor doms \<Longrightarrow> state_ok murid tutor cap0 A cap \<Longrightarrow>
   best_ok murid tutor cap0 best \<Longrightarrow>
   \<exists>A' best'. cap_bt murid sp A doms cap cs best = Inr (A', best') \<and> distinct (map fst A') \<and> set A' \<subseteq> set A
     \<and> best_ok murid tutor cap0 best'"
  "tab_ok murid tutor sp \<Longrightarrow> doms_ok murid tutor doms \<Longrightarrow> state_ok murid tutor cap0 A cap \<Longrightarrow>
   best_ok murid tutor cap0 best \<Longrightarrow> var \<in> set murid \<Longrightarrow> set ts \<subseteq> set tutor \<Longrightarrow>
   \<exists>A' best'. cap_loop murid sp var ts A doms cap cs best = Inr (A', best') \<and> distinct (map fst A') \<and> set A' \<subseteq> set A
     \<and> best_ok murid tutor cap0 best'"
proof (induction murid sp A doms cap cs best and murid sp var ts A doms cap cs best rule: cap_bt_cap_loop.induct)
  case (1 murid sp A doms cap cs best)
  have dA: "distinct (map fst A)" using "1.prems"(3) by (simp add: state_ok_def)
  show ?case
  proof (cases "length A = length murid")
    case True
    with "1.prems" dA best_ok_complete [of murid tutor cap0 A cap cs] show ?thesis by simp
  next
    case False
    show ?thesis
    proof (cases "mrv_cap doms")
      case None
      with False "1.prems" dA show ?thesis by simp
    next
      case (Some var)
      from doms_ok_mrv [OF "1.prems"(2) Some] obtain ts where
        ts: "map_of doms var = Some ts" "var \<in> set murid" "set ts \<subseteq> set tutor" by blast
      from "1.IH" [OF False Some ts(1) "1.prems" ts(2,3)] False Some ts(1) show ?thesis by simp
    qed
  qed
next
  case (2 murid sp var A doms cap cs best)
  then show ?case by (simp add: state_ok_def)
next
  case (3 murid sp var t ts A doms cap cs best)
  have t: "t \<in> set tutor" and ts: "set ts \<subseteq> set tutor" using "3.prems"(6) by auto
  from "3.prems"(3) t obtain c where c: "map_of cap t = Some c" by (fastforce simp: state_ok_def)
  show ?case
  proof (cases "0 < c")
    case False
    from "3.IH"(3) [OF c False "3.prems"(1-5) ts] c False show ?thesis by simp
  next
    case True
    let ?cap' = "AList.update t (c - 1) cap"
    let ?doms' = "if c - 1 = 0 then forward_cap var t doms else doms"
    let ?A' = "AList.update var t A"
    from "3.prems"(1,5) t obtain sc where sc: "map_of sp (var, t) = Some sc" by (auto simp: tab_ok_def)
    have d': "doms_ok murid tutor ?doms'" using "3.prems"(2) by (simp add: doms_ok_forward)
    have s': "state_ok murid tutor cap0 ?A' ?cap'" by (rule state_ok_assign [OF "3.prems"(3,5) t c True])
    from "3.IH"(1) [OF c True refl refl refl sc "3.prems"(1) d' s' "3.prems"(4)] obtain A'' b'' where
      call: "cap_bt murid sp ?A' ?doms' ?cap' (cs + sc) best = Inr (A'', b'')"
      and dA'': "distinct (map fst A'')" and sub: "set A'' \<subseteq> set ?A'" and b'': "best_ok murid tutor cap0 b''"
      by blast
    have sub': "set (AList.delete var A'') \<subseteq> set A" by (rule set_delete_after_update [OF sub])
    have dd: "distinct (map fst (AList.delete var A''))" using dA'' by (simp add: distinct_delete)
    have s'': "state_ok murid tutor cap0 (AList.delete var A'') cap"
      by (rule state_ok_shrink [OF "3.prems"(3) dd sub'])
    from "3.IH"(2) [OF c True refl refl refl sc "3.prems"(1,2) s'' b'' "3.prems"(5) ts] obtain A3 b3 where
      rest: "cap_loop murid sp var ts (AList.delete var A'') doms cap cs b'' = Inr (A3, b3)"
      and r: "distinct (map fst A3)" "set A3 \<subseteq> set (AList.delete var A'')" "best_ok murid tutor cap0 b3"
      by blast
    from call rest c True sc r sub' show ?thesis by (auto simp: Let_def)
  qed
qed

lemma domains_cap_ok: "doms_ok murid tutor (domains_cap murid tutor)"
proof -
  have "set (fold (\<lambda>m d. AList.update m tutor d) ms d) \<subseteq> set d \<union> set ms \<times> {tutor}" for ms d
  proof (induction ms arbitrary: d)
    case Nil
    then show ?case by simp
  next
    case (Cons m ms)
    have "set (AList.update m tutor d) \<subseteq> insert (m, tutor) (set d)" by (rule set_update_sub)
    with Cons.IH [of "AList.update m tutor d"] show ?case by auto
  qed
  from this [of murid "[]"] show ?thesis by (auto simp: doms_ok_def domains_cap_def)
qed

lemma complete_keys:
  assumes "distinct murid" and "distinct (map fst A)" and "fst ` set A \<subseteq> set murid"
    and "length A = length murid"
  shows "fst ` set A = set murid"
proof -
  have "card (fst ` set A) = length A"
    using distinct_card [OF assms(2)] by simp
  also have "\<dots> = card (set murid)" using assms(1,4) by (simp add: distinct_card)
  finally show ?thesis using assms(3) by (intro card_subset_eq) simp_all
qed

text \<open>
  On an instance of the shape \<open>cap_wf\<close>, \<open>csp_backtrack\<close> returns, and what it returns is
  \<open>({}, -1)\<close> or an assignment of every student to a tutor within the capacities.
\<close>

lemma csp_backtrack_result:
  assumes wf: "cap_wf (murid, tutor, cap, pref)"
  shows "\<exists>A sc. csp_backtrack murid tutor cap pref = Inr (A, sc)
           \<and> ((A, sc) = ([], -1) \<or> (fst ` set A = set murid \<and> within_caps murid tutor cap A))"
proof -
  from score_pairs_wf [OF wf] obtain sp where
    sp: "score_pairs murid tutor pref = Inr sp"
    and tab: "\<forall>m \<in> set murid. \<forall>t \<in> set tutor. \<exists>a. map_of pref (m, t) = Some a \<and> binary_attrs a
               \<and> map_of sp (m, t) = Some (sum_list (map snd a))" by blast
  have t: "tab_ok murid tutor sp" using tab by (fastforce simp: tab_ok_def)
  have s: "state_ok murid tutor cap [] cap"
    unfolding state_ok_def
  proof (intro conjI ballI)
    fix t assume "t \<in> set tutor"
    from cap_wf_caps [OF wf this] obtain c where "map_of cap t = Some c" "0 \<le> c" by blast
    then show "\<exists>c0 c. map_of cap t = Some c0 \<and> map_of cap t = Some c \<and> 0 \<le> c \<and> load [] t + c \<le> c0"
      by (simp add: load_def)
  qed simp_all
  have b: "best_ok murid tutor cap ([], -1)" by (simp add: best_ok_def)
  from cap_search_ok(1) [OF t domains_cap_ok s b, of 0] obtain A' best' where
    run: "cap_bt murid sp [] (domains_cap murid tutor) cap 0 ([], -1) = Inr (A', best')"
    and ok: "best_ok murid tutor cap best'" by blast
  have dm: "distinct murid" using wf by (simp add: cap_wf_def)
  obtain A sc where best': "best' = (A, sc)" by (cases best')
  have "(A, sc) = ([], -1) \<or> (fst ` set A = set murid \<and> within_caps murid tutor cap A)"
    using ok complete_keys [OF dm] by (auto simp: best_ok_def within_caps_def best')
  with sp run best' show ?thesis by (simp add: csp_backtrack_def)
qed

lemma length_load_sum:
  assumes "distinct tutor" and "snd ` set A \<subseteq> set tutor"
  shows "int (length A) = sum_list (map (load A) tutor)"
  using assms(2)
proof (induction A)
  case Nil
  then show ?case by (simp add: load_def)
next
  case (Cons a A)
  obtain x y where a: "a = (x, y)" by (cases a)
  with Cons.prems have y: "y \<in> set tutor" by simp
  have ind: "sum_list (map (\<lambda>t. if y = t then 1 else 0 :: int) tutor) = 1"
    using assms(1) y by (simp add: sum_list_distinct_conv_sum_set)
  have "load (a # A) = (\<lambda>t. (if y = t then 1 else 0) + load A t)"
    by (auto simp: load_def a fun_eq_iff)
  then have "sum_list (map (load (a # A)) tutor)
      = sum_list (map (\<lambda>t. if y = t then 1 else 0 :: int) tutor) + sum_list (map (load A) tutor)"
    by (simp add: sum_list_addf)
  with ind Cons show ?case by simp
qed

text \<open>A complete assignment within the capacities needs as much capacity as there are students.\<close>

lemma within_caps_total:
  assumes dm: "distinct murid" and dt: "distinct tutor" and keys: "fst ` set A = set murid"
    and w: "within_caps murid tutor cap A"
  shows "int (length murid) \<le> sum_list (map (\<lambda>t. the (map_of cap t)) tutor)"
proof -
  have dA: "distinct (map fst A)" and vA: "snd ` set A \<subseteq> set tutor" using w by (simp_all add: within_caps_def)
  have "length murid = card (set murid)" using dm by (simp add: distinct_card)
  also have "\<dots> = card (fst ` set A)" using keys by simp
  also have "\<dots> = length A" using distinct_card [OF dA] by simp
  finally have "int (length murid) = sum_list (map (load A) tutor)"
    using length_load_sum [OF dt vA] by simp
  also have "\<dots> \<le> sum_list (map (\<lambda>t. the (map_of cap t)) tutor)"
  proof (rule sum_list_mono)
    fix t assume "t \<in> set tutor"
    with w obtain c0 where "map_of cap t = Some c0" "load A t \<le> c0" by (auto simp: within_caps_def)
    then show "load A t \<le> the (map_of cap t)" by simp
  qed
  finally show ?thesis .
qed

text \<open>
  With less capacity than students there is no complete assignment within the capacities,
  and the search returns \<open>({}, -1)\<close>.
\<close>

lemma csp_backtrack_over_capacity:
  assumes wf: "cap_wf (murid, tutor, cap, pref)"
    and less: "sum_list (map (\<lambda>t. the (map_of cap t)) tutor) < int (length murid)"
  shows "csp_backtrack murid tutor cap pref = Inr ([], -1)"
proof -
  from csp_backtrack_result [OF wf] obtain A sc where
    r: "csp_backtrack murid tutor cap pref = Inr (A, sc)"
    and d: "(A, sc) = ([], -1) \<or> (fst ` set A = set murid \<and> within_caps murid tutor cap A)" by blast
  have dm: "distinct murid" and dt: "distinct tutor" using wf by (simp_all add: cap_wf_def)
  from d less within_caps_total [OF dm dt] have "(A, sc) = ([], -1)" by fastforce
  with r show ?thesis by simp
qed

text \<open>
  C13: on an instance of the shape the scenario builders produce, the capacity search
  returns without raising: the recursion ends (each call takes one unit of capacity) and
  every dictionary read finds its key.
\<close>

theorem csp_backtrack_total:
  assumes "cap_wf (murid, tutor, cap, pref)"
  shows "\<exists>A sc. csp_backtrack murid tutor cap pref = Inr (A, sc)"
  using csp_backtrack_result [OF assms] by blast

text \<open>
  C15: what the capacity search returns on such an instance is the initial \<open>({}, -1)\<close>
  or an assignment of every student to one of the tutors that gives no tutor more students
  than its capacity.
\<close>

theorem csp_backtrack_sound:
  assumes "cap_wf (murid, tutor, cap, pref)" and "csp_backtrack murid tutor cap pref = Inr (A, sc)"
  shows "(A, sc) = ([], -1)
    \<or> (fst ` set A = set murid \<and> snd ` set A \<subseteq> set tutor \<and> (\<forall>t \<in> set tutor. load A t \<le> the (map_of cap t)))"
proof -
  from csp_backtrack_result [OF assms(1)] assms(2)
  have "(A, sc) = ([], -1) \<or> (fst ` set A = set murid \<and> within_caps murid tutor cap A)" by simp
  moreover have "load A t \<le> the (map_of cap t)"
    if "\<forall>t \<in> set tutor. \<exists>c0. map_of cap t = Some c0 \<and> load A t \<le> c0" "t \<in> set tutor" for t
    using that by fastforce
  ultimately show ?thesis by (auto simp: within_caps_def)
qed

end
