(* ===== verification/Cap_SA.thy ===== *)
theory Cap_SA
  imports Cap_Instance Float64
begin

text \<open>
  The capacity-constrained annealing \<open>sa_match\<close> of the experiment scripts:
  \<open>sa_match\<close> is the one of \<open>src/tests/test.py\<close> (lines 101--127; lines 42--66 of
  \<open>src/tests/test_sa.py\<close> are the same code) and \<open>sa_match_v1\<close> the older one of
  \<open>src/tests/sa.py\<close> (lines 4--58), which starts \<open>best_fit\<close> at the unpenalised score of
  the initial assignment. Both share the score table, the penalty, the fitness closure of
  \<open>Cap_Instance\<close> and the loop (the loop bodies of the two files are the same code). The
  draws are inputs: \<open>init m\<close> is the tutor \<open>random.choice(tutor)\<close> gives student \<open>m\<close>,
  and \<open>draws s\<close> the student, the tutor and the \<open>random.random()\<close> of step \<open>s\<close>. The
  temperature is a binary64 value of \<open>Float64\<close>, cooled by the rounded product \<open>T *= cooling\<close>.
\<close>

record cap_draw =
  pick_m :: int
  pick_t :: int
  coin_u :: real

text \<open>The variables of the loop: \<open>curr\<close>, \<open>best\<close>, \<open>best_fit\<close> and \<open>T\<close>.\<close>

record cap_sa_state =
  cs_curr :: assign
  cs_best :: assign
  cs_best_fit :: int
  cs_temp :: f64

text \<open>
  Line 121: \<open>delta > 0 or random.random() < np.exp(delta/T)\<close>; \<open>delta/T\<close> divides an
  \<open>int\<close> by a \<open>float\<close>, which raises on a zero \<open>T\<close>; divided by an infinite \<open>T\<close> it is
  a zero, whose \<open>np.exp\<close> is \<open>1.0\<close>, and a comparison with NaN is false. For a finite
  non-zero \<open>T\<close> the quotient and \<open>np.exp\<close> are computed over the reals.
\<close>

definition metropolis_cap :: "int \<Rightarrow> f64 \<Rightarrow> real \<Rightarrow> bool cresult" where
  "metropolis_cap delta T r =
     (if 0 < delta then Inr True
      else (case T of
              F64 m e \<Rightarrow> if m = 0 then Inl ZeroDivisionError
                         else Inr (r < exp (real_of_int delta / f64_real m e))
            | F64Inf neg \<Rightarrow> Inr (r < 1)
            | F64NaN \<Rightarrow> Inr False))"

text \<open>Lines 116--125: one step, with \<open>fit\<close> the fitness closure.\<close>

definition cap_sa_step ::
  "int list \<Rightarrow> int list \<Rightarrow> (assign \<Rightarrow> int cresult) \<Rightarrow> f64 \<Rightarrow> cap_draw \<Rightarrow> cap_sa_state
     \<Rightarrow> cap_sa_state cresult" where
  "cap_sa_step murid tutor fit cooling d st =
     bind_sum (py_choice murid (pick_m d)) (\<lambda>m.
     bind_sum (py_choice tutor (pick_t d)) (\<lambda>t.
       (let child = AList.update m t (cs_curr st) in
        bind_sum (fit child) (\<lambda>f_child.
        bind_sum (fit (cs_curr st)) (\<lambda>f_curr.
        bind_sum (metropolis_cap (f_child - f_curr) (cs_temp st) (coin_u d)) (\<lambda>accept.
          (let st' =
             (if accept then
                (if cs_best_fit st < f_child
                 then st\<lparr>cs_curr := child, cs_best := child, cs_best_fit := f_child\<rparr>
                 else st\<lparr>cs_curr := child\<rparr>)
              else st)
           in Inr (st'\<lparr>cs_temp := fmul (cs_temp st) cooling\<rparr>))))))))"

text \<open>Line 115: \<open>for _ in range(steps)\<close>.\<close>

fun cap_sa_loop ::
  "int list \<Rightarrow> int list \<Rightarrow> (assign \<Rightarrow> int cresult) \<Rightarrow> f64 \<Rightarrow> (nat \<Rightarrow> cap_draw) \<Rightarrow> nat list
     \<Rightarrow> cap_sa_state \<Rightarrow> cap_sa_state cresult" where
  "cap_sa_loop murid tutor fit cooling draws [] st = Inr st"
| "cap_sa_loop murid tutor fit cooling draws (s # ss) st =
     bind_sum (cap_sa_step murid tutor fit cooling (draws s) st) (cap_sa_loop murid tutor fit cooling draws ss)"

text \<open>Line 106: \<open>{m: random.choice(tutor) for m in murid}\<close>.\<close>

fun init_assign :: "int list \<Rightarrow> (int \<Rightarrow> int) \<Rightarrow> int list \<Rightarrow> assign \<Rightarrow> assign cresult" where
  "init_assign tutor init [] A = Inr A"
| "init_assign tutor init (m # ms) A =
     bind_sum (py_choice tutor (init m)) (\<lambda>t. init_assign tutor init ms (AList.update m t A))"

text \<open>\<open>test.py\<close> lines 101--127: the result is \<open>(best, best_fit)\<close>.\<close>

definition sa_match ::
  "int list \<Rightarrow> int list \<Rightarrow> caps \<Rightarrow> pref \<Rightarrow> f64 \<Rightarrow> f64 \<Rightarrow> nat \<Rightarrow> (int \<Rightarrow> int) \<Rightarrow> (nat \<Rightarrow> cap_draw)
     \<Rightarrow> (assign \<times> int) cresult" where
  "sa_match murid tutor cap_init pref T0 cooling steps init draws =
     bind_sum (score_pairs murid tutor pref) (\<lambda>sp.
     bind_sum (penalty sp murid) (\<lambda>pen.
     bind_sum (init_assign tutor init murid []) (\<lambda>curr.
       (let fit = cap_fitness sp cap_init pen murid tutor in
        bind_sum (fit curr) (\<lambda>f0.
        bind_sum (cap_sa_loop murid tutor fit cooling draws [0..<steps]
                    \<lparr>cs_curr = curr, cs_best = curr, cs_best_fit = f0, cs_temp = T0\<rparr>) (\<lambda>st.
          Inr (cs_best st, cs_best_fit st)))))))"

text \<open>
  \<open>tests/sa.py\<close> lines 4--58: as above, but line 28 starts \<open>best_fit\<close> at
  \<open>sum(score_pair[(m, curr[m])] for m in murid)\<close>, without the capacity penalty.
\<close>

definition sa_match_v1 ::
  "int list \<Rightarrow> int list \<Rightarrow> caps \<Rightarrow> pref \<Rightarrow> f64 \<Rightarrow> f64 \<Rightarrow> nat \<Rightarrow> (int \<Rightarrow> int) \<Rightarrow> (nat \<Rightarrow> cap_draw)
     \<Rightarrow> (assign \<times> int) cresult" where
  "sa_match_v1 murid tutor cap_init pref T0 cooling steps init draws =
     bind_sum (score_pairs murid tutor pref) (\<lambda>sp.
     bind_sum (penalty sp murid) (\<lambda>pen.
     bind_sum (init_assign tutor init murid []) (\<lambda>curr.
     bind_sum (raw_score sp curr murid) (\<lambda>best_fit.
       (let fit = cap_fitness sp cap_init pen murid tutor in
        bind_sum (cap_sa_loop murid tutor fit cooling draws [0..<steps]
                    \<lparr>cs_curr = curr, cs_best = curr, cs_best_fit = best_fit, cs_temp = T0\<rparr>) (\<lambda>st.
          Inr (cs_best st, cs_best_fit st)))))))"

text \<open>
  The penalised fitness of an assignment on an instance, as the closure of lines 107--111
  computes it after the table and the penalty of lines 102--103.
\<close>

definition sa_fitness :: "int list \<Rightarrow> int list \<Rightarrow> caps \<Rightarrow> pref \<Rightarrow> assign \<Rightarrow> int cresult" where
  "sa_fitness murid tutor cap_init pref A =
     bind_sum (score_pairs murid tutor pref) (\<lambda>sp.
     bind_sum (penalty sp murid) (\<lambda>pen. cap_fitness sp cap_init pen murid tutor A))"

text \<open>
  The invariant of the loop: the current and the best assignment assign exactly the
  students, \<open>best_fit\<close> is the fitness of \<open>best\<close>, and the temperature is positive.
\<close>

definition cap_sa_inv :: "int list \<Rightarrow> int list \<Rightarrow> (assign \<Rightarrow> int cresult) \<Rightarrow> cap_sa_state \<Rightarrow> bool" where
  "cap_sa_inv murid tutor fit st \<longleftrightarrow> assign_on murid tutor (cs_curr st) \<and> assign_on murid tutor (cs_best st)
     \<and> fit (cs_best st) = Inr (cs_best_fit st) \<and> f64_pos (cs_temp st)"

section \<open>Lemmas\<close>

lemma init_assign_keys:
  assumes "tutor \<noteq> []" and "\<forall>m. init m \<in> set tutor"
  shows "\<exists>A'. init_assign tutor init ms A = Inr A' \<and> fst ` set A' = fst ` set A \<union> set ms
           \<and> snd ` set A' \<subseteq> snd ` set A \<union> set tutor"
proof (induction ms arbitrary: A)
  case Nil
  then show ?case by simp
next
  case (Cons m ms)
  let ?A = "AList.update m (init m) A"
  from Cons.IH [of ?A] obtain A' where
    r: "init_assign tutor init ms ?A = Inr A'" and k: "fst ` set A' = fst ` set ?A \<union> set ms"
    and v: "snd ` set A' \<subseteq> snd ` set ?A \<union> set tutor" by blast
  have i: "snd ` set ?A \<subseteq> snd ` insert (m, init m) (set A)" by (intro image_mono set_update_sub)
  have j: "snd ` insert (m, init m) (set A) \<union> set tutor \<subseteq> snd ` set A \<union> set tutor"
    using assms(2) by auto
  have "snd ` set A' \<subseteq> snd ` insert (m, init m) (set A) \<union> set tutor"
    using v i by blast
  with j have "snd ` set A' \<subseteq> snd ` set A \<union> set tutor" by (rule order_trans [rotated])
  with r k assms(1) show ?case by (auto simp: py_choice_def dom_update)
qed

lemma init_assign_on:
  assumes "tutor \<noteq> []" and "\<forall>m. init m \<in> set tutor"
  shows "\<exists>A0. init_assign tutor init murid [] = Inr A0 \<and> assign_on murid tutor A0"
  using init_assign_keys [OF assms, of murid "[]"] by (auto simp: assign_on_def)

lemma metropolis_cap_ok: "\<not> f64_zero T \<Longrightarrow> \<exists>b. metropolis_cap delta T r = Inr b"
  by (cases T) (auto simp: metropolis_cap_def)

lemma metropolis_cap_zero: "f64_zero T \<Longrightarrow> metropolis_cap 0 T r = Inl ZeroDivisionError"
  by (cases T) (simp_all add: metropolis_cap_def)

lemma cap_sa_step_ok:
  assumes fit: "\<forall>A. assign_on murid tutor A \<longrightarrow> (\<exists>f. fit A = Inr f)"
    and d: "pick_m d \<in> set murid" "pick_t d \<in> set tutor"
    and inv: "cap_sa_inv murid tutor fit st" and c: "f64_gt_half cooling"
  shows "\<exists>st'. cap_sa_step murid tutor fit cooling d st = Inr st' \<and> cap_sa_inv murid tutor fit st'
           \<and> cs_best_fit st \<le> cs_best_fit st'"
proof -
  let ?m = "pick_m d" and ?t = "pick_t d"
  let ?child = "AList.update ?m ?t (cs_curr st)"
  have ch: "assign_on murid tutor ?child"
    using inv d by (intro assign_on_update) (simp_all add: cap_sa_inv_def)
  from fit ch obtain fc where fc: "fit ?child = Inr fc" by blast
  from fit inv obtain fcur where fcur: "fit (cs_curr st) = Inr fcur" by (auto simp: cap_sa_inv_def)
  have t: "f64_pos (cs_temp st)" using inv by (simp add: cap_sa_inv_def)
  from metropolis_cap_ok [OF f64_pos_nonzero [OF t]] obtain acc where
    acc: "metropolis_cap (fc - fcur) (cs_temp st) (coin_u d) = Inr acc" by blast
  have pos: "f64_pos (fmul (cs_temp st) cooling)" using t c by (rule fmul_pos)
  have choice: "py_choice murid ?m = Inr ?m" "py_choice tutor ?t = Inr ?t"
    using d by (auto simp: py_choice_def)
  show ?thesis
    using inv ch fc pos
    by (simp add: cap_sa_step_def choice fcur acc Let_def cap_sa_inv_def)
qed

lemma cap_sa_loop_ok:
  assumes fit: "\<forall>A. assign_on murid tutor A \<longrightarrow> (\<exists>f. fit A = Inr f)"
    and d: "\<forall>s. pick_m (draws s) \<in> set murid \<and> pick_t (draws s) \<in> set tutor" and c: "f64_gt_half cooling"
  shows "cap_sa_inv murid tutor fit st \<Longrightarrow>
    \<exists>st'. cap_sa_loop murid tutor fit cooling draws ss st = Inr st' \<and> cap_sa_inv murid tutor fit st'
      \<and> cs_best_fit st \<le> cs_best_fit st'"
proof (induction ss arbitrary: st)
  case Nil
  then show ?case by simp
next
  case (Cons s ss)
  from cap_sa_step_ok [OF fit _ _ Cons.prems c] d obtain st1 where
    st1: "cap_sa_step murid tutor fit cooling (draws s) st = Inr st1" "cap_sa_inv murid tutor fit st1"
      "cs_best_fit st \<le> cs_best_fit st1" by blast
  from Cons.IH [OF st1(2)] st1 show ?case by fastforce
qed

lemma sa_fitness_eq:
  "score_pairs murid tutor pref = Inr sp \<Longrightarrow> penalty sp murid = Inr pen \<Longrightarrow>
   sa_fitness murid tutor cap pref A = cap_fitness sp cap pen murid tutor A"
  by (simp add: sa_fitness_def)

lemma penalty_ok: "sp \<noteq> [] \<Longrightarrow> \<exists>pen. penalty sp murid = Inr pen"
  by (simp add: penalty_def)

text \<open>
  C26: on an instance of the builders' shape with students and tutors, and draws in range,
  the annealing of \<open>test.py\<close> returns without raising, and the \<open>best_fit\<close> it returns
  is the penalised fitness of the \<open>best\<close> it returns, at least that of the initial
  assignment; \<open>best\<close> assigns every student a tutor.
\<close>

theorem sa_match_best:
  assumes wf: "cap_wf (murid, tutor, cap, pref)" and ne: "murid \<noteq> []" "tutor \<noteq> []"
    and init: "\<forall>m. init m \<in> set tutor"
    and draws: "\<forall>s. pick_m (draws s) \<in> set murid \<and> pick_t (draws s) \<in> set tutor"
    and T: "f64_pos T0" and c: "f64_gt_half cooling"
  shows "\<exists>A0 f0 best bf. init_assign tutor init murid [] = Inr A0 \<and> sa_fitness murid tutor cap pref A0 = Inr f0
     \<and> sa_match murid tutor cap pref T0 cooling steps init draws = Inr (best, bf)
     \<and> sa_fitness murid tutor cap pref best = Inr bf \<and> f0 \<le> bf \<and> assign_on murid tutor best"
proof -
  from score_pairs_tab_ok [OF wf] obtain sp where
    sp: "score_pairs murid tutor pref = Inr sp" and tab: "tab_ok murid tutor sp"
    and keys: "fst ` set sp = set murid \<times> set tutor" by blast
  have "sp \<noteq> []"
  proof
    assume "sp = []"
    with keys have "set murid \<times> set tutor = {}" by simp
    with ne show False by simp
  qed
  from penalty_ok [OF this] obtain pen where pen: "penalty sp murid = Inr pen" by blast
  let ?fit = "cap_fitness sp cap pen murid tutor"
  have fit: "\<forall>A. assign_on murid tutor A \<longrightarrow> (\<exists>f. ?fit A = Inr f)"
    using cap_fitness_ok [OF wf tab] by blast
  from init_assign_on [OF ne(2) init] obtain A0 where
    A0: "init_assign tutor init murid [] = Inr A0" and on0: "assign_on murid tutor A0" by blast
  from fit on0 obtain f0 where f0: "?fit A0 = Inr f0" by blast
  let ?st0 = "\<lparr>cs_curr = A0, cs_best = A0, cs_best_fit = f0, cs_temp = T0\<rparr>"
  have inv0: "cap_sa_inv murid tutor ?fit ?st0" using on0 f0 T by (simp add: cap_sa_inv_def)
  from cap_sa_loop_ok [OF fit draws c inv0, of "[0..<steps]"] obtain st where
    loop: "cap_sa_loop murid tutor ?fit cooling draws [0..<steps] ?st0 = Inr st"
    and inv: "cap_sa_inv murid tutor ?fit st" and mono: "f0 \<le> cs_best_fit st" by auto
  have "sa_match murid tutor cap pref T0 cooling steps init draws = Inr (cs_best st, cs_best_fit st)"
    using sp pen A0 f0 loop by (simp add: sa_match_def)
  with A0 f0 inv mono sp pen show ?thesis
    by (auto simp: sa_fitness_eq cap_sa_inv_def)
qed

text \<open>
  On two students who both prefer the single tutor of capacity 1 fully, every proposal
  leaves the assignment as it is (both students already sit with the only tutor), so a
  step only cools the temperature, and raises once the temperature is a zero; \<open>best\<close>
  never changes.
\<close>

lemma one_tutor_step:
  assumes "pick_m d \<in> {0, 1}" and "pick_t d = 0" and "cs_curr st = [(0, 0), (1, 0)]"
    and "0 \<le> cs_best_fit st"
  shows "cap_sa_step [0, 1] [0] (cap_fitness [((0, 0), 4), ((1, 0), 4)] [(0, 1)] 8 [0, 1] [0]) cooling d st
           = (if f64_zero (cs_temp st) then Inl ZeroDivisionError
              else Inr (st\<lparr>cs_temp := fmul (cs_temp st) cooling\<rparr>))"
proof -
  have fit: "cap_fitness [((0, 0), 4), ((1, 0), 4)] [(0, 1)] 8 [0, 1] [0] [(0, 0), (1, 0)] = Inr 0"
    by (simp add: cap_fitness_def assigned_score_def load_def)
  have triv: "st\<lparr>cs_curr := [(0, 0), (1, 0)]\<rparr> = st" using assms(3) by (cases st) simp
  have pm: "pick_m d = 0 \<or> pick_m d = 1" using assms(1) by blast
  show ?thesis
  proof (cases "f64_zero (cs_temp st)")
    case True
    with pm assms(2-4) show ?thesis
      by (elim disjE) (simp_all add: cap_sa_step_def py_choice_def fit metropolis_cap_zero)
  next
    case False
    from metropolis_cap_ok [OF False] obtain acc where acc: "metropolis_cap 0 (cs_temp st) (coin_u d) = Inr acc"
      by blast
    from False pm assms(2-4) show ?thesis
      by (elim disjE) (simp_all add: cap_sa_step_def py_choice_def fit triv acc Let_def)
  qed
qed

lemma one_tutor_loop:
  assumes "\<forall>s. pick_m (draws s) \<in> {0, 1} \<and> pick_t (draws s) = 0"
  shows "cs_curr st = [(0, 0), (1, 0)] \<Longrightarrow> 0 \<le> cs_best_fit st \<Longrightarrow>
    cap_sa_loop [0, 1] [0] (cap_fitness [((0, 0), 4), ((1, 0), 4)] [(0, 1)] 8 [0, 1] [0]) cooling draws ss st
      = (if \<exists>j < length ss. f64_zero (((\<lambda>T. fmul T cooling) ^^ j) (cs_temp st)) then Inl ZeroDivisionError
         else Inr (st\<lparr>cs_temp := ((\<lambda>T. fmul T cooling) ^^ length ss) (cs_temp st)\<rparr>))"
proof (induction ss arbitrary: st)
  case Nil
  then show ?case by simp
next
  case (Cons s ss)
  have step: "cap_sa_step [0, 1] [0] (cap_fitness [((0, 0), 4), ((1, 0), 4)] [(0, 1)] 8 [0, 1] [0]) cooling (draws s) st
      = (if f64_zero (cs_temp st) then Inl ZeroDivisionError
         else Inr (st\<lparr>cs_temp := fmul (cs_temp st) cooling\<rparr>))"
    using assms Cons.prems by (intro one_tutor_step) simp_all
  show ?case
  proof (cases "f64_zero (cs_temp st)")
    case True
    then show ?thesis by (simp add: step ex_funpow_Suc del: funpow.simps)
  next
    case False
    let ?st = "st\<lparr>cs_temp := fmul (cs_temp st) cooling\<rparr>"
    have "cap_sa_loop [0, 1] [0] (cap_fitness [((0, 0), 4), ((1, 0), 4)] [(0, 1)] 8 [0, 1] [0]) cooling draws ss ?st
      = (if \<exists>j < length ss. f64_zero (((\<lambda>T. fmul T cooling) ^^ j) (cs_temp ?st)) then Inl ZeroDivisionError
         else Inr (?st\<lparr>cs_temp := ((\<lambda>T. fmul T cooling) ^^ length ss) (cs_temp ?st)\<rparr>))"
      using Cons.prems by (intro Cons.IH) simp_all
    with False show ?thesis by (simp add: step ex_funpow_Suc funpow_Suc_right del: funpow.simps)
  qed
qed

lemma cooled_nonzero:
  "f64_pos T0 \<Longrightarrow> f64_gt_half cooling \<Longrightarrow> \<not> (\<exists>j < n. f64_zero (((\<lambda>T. fmul T cooling) ^^ j) T0))"
  using fmul_pos_iter f64_pos_nonzero by blast

text \<open>
  The table, the penalty, the initial assignment and its two scores on that instance.
\<close>

lemma one_tutor_instance:
  "score_pairs [0, 1] [0] [((0, 0), attr_dict (\<lambda>_. 1)), ((1, 0), attr_dict (\<lambda>_. 1))] = Inr [((0, 0), 4), ((1, 0), 4)]"
  "penalty [((0, 0), 4), ((1, 0), 4)] [0, 1] = Inr 8"
  "init_assign [0] (\<lambda>_. 0) [0, 1] [] = Inr [(0, 0), (1, 0)]"
  "raw_score [((0, 0), 4), ((1, 0), 4)] [(0, 0), (1, 0)] [0, 1] = Inr 8"
  "cap_fitness [((0, 0), 4), ((1, 0), 4)] [(0, 1)] 8 [0, 1] [0] [(0, 0), (1, 0)] = Inr 0"
  by (simp_all add: score_pairs_def attr_dict_def attr_names_def penalty_def py_choice_def
      assigned_score_def cap_fitness_def load_def)

text \<open>
  C30: \<open>tests/sa.py\<close> starts \<open>best_fit\<close> at the unpenalised score: on two students whose
  only tutor has capacity 1, it returns the over-full initial assignment with
  \<open>best_fit = 8\<close> for every number of steps, although that assignment's penalised fitness is
  0, which is what the annealing of \<open>test.py\<close> returns on the same input.
\<close>

theorem sa_match_v1_overstates:
  assumes "\<forall>s. pick_m (draws s) \<in> {0, 1} \<and> pick_t (draws s) = 0" and "f64_pos T0" and "f64_gt_half cooling"
  shows "sa_match_v1 [0, 1] [0] [(0, 1)] [((0, 0), attr_dict (\<lambda>_. 1)), ((1, 0), attr_dict (\<lambda>_. 1))]
             T0 cooling steps (\<lambda>_. 0) draws = Inr ([(0, 0), (1, 0)], 8)
       \<and> sa_fitness [0, 1] [0] [(0, 1)] [((0, 0), attr_dict (\<lambda>_. 1)), ((1, 0), attr_dict (\<lambda>_. 1))]
             [(0, 0), (1, 0)] = Inr 0
       \<and> sa_match [0, 1] [0] [(0, 1)] [((0, 0), attr_dict (\<lambda>_. 1)), ((1, 0), attr_dict (\<lambda>_. 1))]
             T0 cooling steps (\<lambda>_. 0) draws = Inr ([(0, 0), (1, 0)], 0)"
proof -
  let ?P = "[((0::int, 0::int), attr_dict (\<lambda>_. 1)), ((1, 0), attr_dict (\<lambda>_. 1))]"
  let ?fit = "cap_fitness [((0, 0), 4), ((1, 0), 4)] [(0, 1)] 8 [0, 1] [0]"
  have v1: "\<exists>T. cap_sa_loop [0, 1] [0] ?fit cooling draws [0..<steps]
      \<lparr>cs_curr = [(0, 0), (1, 0)], cs_best = [(0, 0), (1, 0)], cs_best_fit = 8, cs_temp = T0\<rparr>
      = Inr \<lparr>cs_curr = [(0, 0), (1, 0)], cs_best = [(0, 0), (1, 0)], cs_best_fit = 8, cs_temp = T\<rparr>"
    using one_tutor_loop [OF assms(1), where ss = "[0..<steps]"
        and st = "\<lparr>cs_curr = [(0, 0), (1, 0)], cs_best = [(0, 0), (1, 0)], cs_best_fit = 8, cs_temp = T0\<rparr>"]
      cooled_nonzero [OF assms(2,3)] by simp
  have v0: "\<exists>T. cap_sa_loop [0, 1] [0] ?fit cooling draws [0..<steps]
      \<lparr>cs_curr = [(0, 0), (1, 0)], cs_best = [(0, 0), (1, 0)], cs_best_fit = 0, cs_temp = T0\<rparr>
      = Inr \<lparr>cs_curr = [(0, 0), (1, 0)], cs_best = [(0, 0), (1, 0)], cs_best_fit = 0, cs_temp = T\<rparr>"
    using one_tutor_loop [OF assms(1), where ss = "[0..<steps]"
        and st = "\<lparr>cs_curr = [(0, 0), (1, 0)], cs_best = [(0, 0), (1, 0)], cs_best_fit = 0, cs_temp = T0\<rparr>"]
      cooled_nonzero [OF assms(2,3)] by simp
  from v1 v0 show ?thesis
    by (auto simp: sa_match_v1_def sa_match_def sa_fitness_def one_tutor_instance assigned_score_def py_choice_def)
qed

text \<open>
  With \<open>T0 = 1.0\<close> and \<open>cooling = 0.5\<close> the temperature is \<open>0.0\<close> after 1075 steps,
  and on the same instance both annealers of the experiment scripts raise
  \<open>ZeroDivisionError\<close> once they run longer.
\<close>

lemma sa_match_underflow:
  assumes "\<forall>s. pick_m (draws s) \<in> {0, 1} \<and> pick_t (draws s) = 0" and "1075 < steps"
  shows "sa_match [0, 1] [0] [(0, 1)] [((0, 0), attr_dict (\<lambda>_. 1)), ((1, 0), attr_dict (\<lambda>_. 1))]
             (F64 1 0) (F64 1 (-1)) steps (\<lambda>_. 0) draws = Inl ZeroDivisionError
       \<and> sa_match_v1 [0, 1] [0] [(0, 1)] [((0, 0), attr_dict (\<lambda>_. 1)), ((1, 0), attr_dict (\<lambda>_. 1))]
             (F64 1 0) (F64 1 (-1)) steps (\<lambda>_. 0) draws = Inl ZeroDivisionError"
proof -
  have z: "\<exists>j < length [0..<steps]. f64_zero (((\<lambda>T. fmul T (F64 1 (-1))) ^^ j) (F64 1 0))"
    using assms(2) halving_underflow by (intro exI [of _ 1075]) simp
  have "cap_sa_loop [0, 1] [0] (cap_fitness [((0, 0), 4), ((1, 0), 4)] [(0, 1)] 8 [0, 1] [0]) (F64 1 (-1)) draws [0..<steps]
      \<lparr>cs_curr = [(0, 0), (1, 0)], cs_best = [(0, 0), (1, 0)], cs_best_fit = b, cs_temp = F64 1 0\<rparr>
      = Inl ZeroDivisionError" if "0 \<le> b" for b
    using one_tutor_loop [OF assms(1), where ss = "[0..<steps]"
        and st = "\<lparr>cs_curr = [(0, 0), (1, 0)], cs_best = [(0, 0), (1, 0)], cs_best_fit = b, cs_temp = F64 1 0\<rparr>"]
      z that by simp
  from this [of 0] this [of 8] show ?thesis
    by (simp add: sa_match_v1_def sa_match_def one_tutor_instance assigned_score_def py_choice_def)
qed

end
