(* ===== verification/Spec2Isabelle.thy ===== *)
theory Spec2Isabelle
  imports CSP_Calls CSP_Main CSP_Simple GA_Main SA_Main Cap_CSP Cap_SA
begin

text \<open>
  \<^bold>\<open>Verification of the tutor-matching solvers.\<close>
  The repository matches students (requesters) to tutors (providers) with three solvers:
  an exact branch-and-bound search (\<open>src/Backtracking_CSP/back_CSP.py\<close>), a genetic
  algorithm (\<open>src/Genetic_Algorithm_Tutas/src/ga/ga.py\<close>) and simulated annealing
  (\<open>src/simulated_annealing/src/sa.py\<close>). The metaheuristics score a chromosome (a tutor
  index per student) with \<open>compute_fitness\<close> of a fitness module, of which the repository
  holds three copies with the same code; the search takes an arbitrary soft-score function,
  which \<open>Backtracking_CSP/test.py\<close> builds from \<open>score_pair\<close> of the same module.

  \<^bold>\<open>Theories.\<close>
  \<^item> \<open>Prelude\<close>: Python's \<open>KeyError\<close>, \<open>ValueError\<close>, \<open>IndexError\<close> and
    \<open>ZeroDivisionError\<close> and pandas' \<open>AttributeError\<close> as the datatype \<open>py_error\<close>, sequencing of raising code
    (\<open>bind_sum\<close>), \<open>float('-inf')\<close> as \<open>NegInf\<close> of \<open>ext_score\<close>, and the builtins
    \<open>min\<close>/\<open>max\<close> with a key (\<open>min_key\<close>, \<open>max_key\<close>: the first extremal element).
  \<^item> \<open>CSP_Ops\<close>: the nested functions of \<open>backtracking_csp\<close>: \<open>init_domains\<close> (line 14),
    \<open>mrv\<close> (18--20), \<open>forward_check\<close> (22--29), the bound loop \<open>rem_upper\<close> (35--38),
    the consistency loop \<open>consistent\<close> (53--58), the wipe-out test \<open>domains_nonempty\<close>
    (65) and the value order \<open>order_values\<close> (50); every dictionary read may raise.
  \<^item> \<open>CSP_Search\<close>: the recursion \<open>backtrack\<close>/\<open>try_vals\<close> (31--67) with the best-so-far
    record \<open>best\<close> threaded as state (the \<open>nonlocal\<close> variables of line 32) and the
    in-place assignment passed as \<open>a(var \<mapsto> val)\<close> (push of line 62, pop of line 67);
    \<open>backtracking_csp\<close> is the entry point. Termination is proved by a measure on the
    unassigned variables and the remaining values.
  \<^item> \<open>CSP_Invariants\<close>, \<open>CSP_Reference\<close>, \<open>CSP_Equivalence\<close>: the search invariant,
    the search without the bound (\<open>search_nb\<close>, any value order), its soundness,
    completeness and totality, and the equivalence of \<open>backtrack\<close> with it.
  \<^item> \<open>CSP_Spec\<close>: the spec's contract (\<open>feasible\<close>, \<open>objective\<close>) and an executable
    brute-force enumeration; \<open>CSP_Correct\<close> joins both; \<open>CSP_Calls\<close> describes the
    recursive calls as an inductive step relation with its reachable states.
  \<^item> \<open>Fitness\<close>: \<open>score_pair\<close> and \<open>compute_fitness\<close> of
    \<open>src/Backtracking_CSP/fitness.py\<close>, with rows as maps from column names to cells
    compared by Python's \<open>==\<close>; \<open>Fitness_Copies\<close>: the modules
    \<open>ga/fitness.py\<close> and \<open>simulated_annealing/src/fitness.py\<close> translated from their own
    lines (\<open>compute_fitness_ga\<close>, \<open>compute_fitness_sa\<close>, which the solvers call) and
    proved equal to it.
  \<^item> \<open>GA\<close>: \<open>init_population\<close> (with the results of \<open>init_chromosome\<close> as an
    input), \<open>tournament_selection\<close>, \<open>pmx_crossover\<close> (its \<open>while gene in mapping1\<close>
    loop as the \<open>partial_function (option)\<close> \<open>pmx_chase\<close>), \<open>swap_mutation\<close> and
    the loops of \<open>run_ga\<close>; runs that may not return have type \<open>_ run\<close>, with \<open>None\<close>
    for divergence.
  \<^item> \<open>Float64\<close>: the binary64 values the annealers' temperature takes and their
    multiplication \<open>fmul\<close>, rounded to nearest with ties to even, subnormals, overflow to
    infinity and NaN included (\<open>round_f64\<close> on a significand and an exponent); a positive
    temperature cooled by a factor above one half stays positive, and cooled by \<open>0.5\<close> from
    \<open>1.0\<close> it is \<open>0.0\<close> after 1075 steps.
  \<^item> \<open>SA\<close>: \<open>run_sa\<close> as a fold of \<open>sa_step\<close> over the steps, cooling the temperature
    by \<open>fmul\<close> (\<open>T *= cooling\<close>, line 58).
  \<^item> \<open>CSP_Simple\<close>: the simple variant \<open>backtracking_csp\<close> of
    \<open>tests/Back_CSP.py\<close> (\<open>recurse\<close>: no bound, domain order, completeness by counting
    the assignment, strict \<open>domains[v]\<close>), proved equal to the reference search.
  \<^item> \<open>CSP_Main\<close>: the instance the search driver \<open>Backtracking_CSP/test.py\<close>
    builds from a table (one variable per student, all tutors, no hard constraint).
  \<^item> \<open>Driver\<close>: what the two \<open>main.py\<close> scripts share: a data frame as its columns
    and rows, \<open>load_preferences\<close> (lower-casing the status column and splitting students
    from tutors), the scenario key of a path (\<open>basename\<close>, \<open>splitext\<close>),
    \<open>os.path.join\<close>, the scenario order, the title map and the report record, as the GA
    driver writes them (lines 14--37 of its \<open>main.py\<close>).
  \<^item> \<open>GA_Main\<close>, \<open>SA_Main\<close>: \<open>run_scenario\<close> (three runs and the determinism
    flag) and \<open>run_all_scenarios\<close> (the loop over the scenario files) of each driver; the
    contents of the files, the clock and the draws of each run are inputs. \<open>SA_Main\<close>
    also translates the SA driver's own copies of the title map, the scenario order and
    \<open>load_preferences\<close> (lines 14--35) and proves them equal to the GA driver's.
  \<^item> \<open>Cap_Instance\<close>: the capacity-constrained instance of the experiment scripts
    \<open>tests/test.py\<close>, \<open>tests/sa.py\<close> and \<open>tests/test_sa.py\<close> (students, tutors, a
    capacity and a preference dictionary, dictionaries as association lists), the score
    table, the penalty \<open>PEN\<close>, the penalised fitness \<open>cap_fitness\<close>, \<open>evaluate\<close>,
    \<open>generate_preferences\<close> and the scenario builders, and the shape \<open>cap_wf\<close> the
    solvers read.
  \<^item> \<open>Cap_CSP\<close>: the capacity search \<open>csp_backtrack\<close> of \<open>tests/test.py\<close> as the mutual
    recursion \<open>cap_bt\<close>/\<open>cap_loop\<close>, threading the shared assignment dictionary and the
    closure variable \<open>best\<close>; it terminates on the remaining capacity \<open>capsum\<close>.
  \<^item> \<open>Cap_SA\<close>: the capacity annealing \<open>sa_match\<close> of \<open>tests/test.py\<close> (the same code as
    \<open>tests/test_sa.py\<close>) and the older \<open>sa_match_v1\<close> of \<open>tests/sa.py\<close>, as a fold of
    \<open>cap_sa_step\<close> with the draws as inputs.
  \<^item> This theory: the worked example of \<open>tests/Back_CSP.py\<close>, example rows and the weights
    of the drivers, instances of the capacity experiments, the contract theorems of
    \<open>backtracking_csp\<close>, the spec's scenarios and the witnesses.

  \<^bold>\<open>Results.\<close> On distinct variables with constraints between variables of the
  instance, \<open>backtracking_csp\<close> terminates without exception and returns the brute-force
  optimum (C1--C5), exactly what the search without the bound returns (C6); every reached
  call keeps the score bookkeeping and the pairwise consistency (C7), the best score never
  decreases (C8) and the bound is admissible also for negative scores (C9); MRV breaks ties
  by the first variable (C10); forward checking and the consistency loop do what their
  comments say (C11, C12). The simple variant of \<open>tests/Back_CSP.py\<close> refines the same
  specification, but raises \<open>KeyError\<close> for a missing domain (C14). The lemmas of the
  section on the spec's scenarios evaluate the search on them: the spec's "infeasible"
  example and its corrected version both have the optimum 20, a constraint on a foreign
  variable raises \<open>KeyError\<close>, a self-loop constraint is never checked, and empty inputs
  give the failure signal. \<open>score_pair\<close> and \<open>compute_fitness\<close> are characterised
  exactly, errors included (C18--C20). PMX crossover terminates on permutation parents and
  yields a permutation (C21) but can loop forever on chromosomes with repeated tutors (C22).
  The GA's best pair always carries its own fitness and never falls below the initial
  population (C27), a population of two raises \<open>ValueError\<close> (C28), and runs on
  permutation populations always return (C29). The annealing keeps a best assignment that
  matches its fitness and never falls below the start (C23); it returns when the start
  temperature is positive and the cooling factor above one half (C24), and below one half
  the float temperature reaches \<open>0.0\<close> and \<open>delta / T\<close> raises \<open>ZeroDivisionError\<close>
  (C25). The drivers split a table into the rows whose status is \<open>murid\<close> or
  \<open>tutor\<close> in any letter case, raising \<open>KeyError\<close> or \<open>AttributeError\<close> on a bad
  status column (C31); the key of the path built for a scenario is that scenario (C32); the
  GA driver prints the reports of the present files in order under their titles (C33); the
  SA driver, cooling by the double nearest to \<open>0.995\<close>, raises nothing and reports every
  present file when the tables are well formed (C34). On the search driver's instance
  without hard constraints the search gives every student a best tutor on its own and
  scores the sum of the per-student maxima (C35).

  For the experiment scripts: the conflict-heavy builder raises \<open>IndexError\<close> exactly
  when there are students and no tutor, and otherwise both builders produce instances of the
  shape the solvers read, whatever the draws (C16); \<open>evaluate\<close> stays within 0 and 100
  percent (C17). The capacity search terminates without exception on such instances (C13)
  and returns \<open>({}, -1)\<close> or a complete assignment within the capacities (C15); the lemma
  \<open>csp_backtrack_repick_defects\<close> shows on two instances that its MRV re-picks assigned
  students, so it misses a feasible assignment and over-counts a score, and on the
  Conflict-Heavy and the asymmetric scenario of \<open>test.py\<close> there is less capacity than
  students and it returns \<open>({}, -1)\<close> (\<open>test_scenarios_over_capacity\<close>). The capacity
  annealing of \<open>test.py\<close> returns a best assignment carrying its own penalised fitness, at
  least the initial one (C26); the one of \<open>tests/sa.py\<close> starts \<open>best_fit\<close> without the
  penalty and returns an overstated \<open>best_fit\<close> (C30); both raise \<open>ZeroDivisionError\<close>
  when cooled by \<open>0.5\<close> for more than 1075 steps (\<open>Cap_SA.sa_match_underflow\<close>).

  \<^bold>\<open>Modelling choices.\<close> Floats are an ordered abelian group in the search and reals in
  the fitness: rounding of scores is not modelled, as no claim depends on it. The
  annealers' temperature is the exception: whether \<open>T *= cooling\<close> rounds to \<open>0.0\<close>
  decides whether \<open>delta / T\<close> raises, so it is a binary64 value of \<open>Float64\<close> with the
  IEEE product; only the quotient \<open>delta / T\<close> and \<open>np.exp\<close> of a non-zero finite
  temperature are computed over the reals, which can change an acceptance only when the
  draw lies within rounding of the threshold, and no claim depends on an acceptance. Every call to \<open>random\<close> is an input (a function
  from the step to its draws), so the metaheuristics are functions of their draws; claims about
  them hold for every draw sequence in the stated ranges. No fuel is used: the search and all
  fitness loops terminate by structural recursion or a measure, and the one loop that may not
  return (\<open>pmx_chase\<close>) is a partial function whose termination is proved where it holds.

  \<^bold>\<open>Not modelled.\<close> Parsing a CSV file (\<open>pd.read_csv\<close>), the clock, the
  existence tests of the file system and the number formatting of the printed reports: the
  drivers receive the parsed tables, times and file tests as inputs and return the reports
  they print. Of the driver of the search, \<open>Backtracking_CSP/test.py\<close>, the weights and
  the instance it builds are modelled; its own \<open>load_preferences\<close> (which renames
  columns), its soft score (a \<open>score_pair\<close> call that raises \<open>KeyError\<close> on a
  malformed table, which the engine model, taking a total soft score, cannot express) and its
  report are not. The module
  \<open>ga.chromosome\<close> (\<open>init_chromosome\<close>) is not in the repository, so the chromosomes
  its calls return are an input of \<open>init_population\<close>. Of the experiment scripts, the
  one-point-crossover GA \<open>ga_match\<close> of \<open>tests/test.py\<close> and the pandas runners
  \<open>run_scenario\<close> and \<open>run_sa_only\<close> (timing, data frames of records, group-by summaries)
  are not modelled; float \<open>weights\<close> of \<open>generate_preferences\<close> are not modelled, as no
  caller passes any.
\<close>

section \<open>The example instances\<close>

text \<open>
  The worked example of \<open>tests/Back_CSP.py\<close> (lines 98--118) and of the spec: the variables
  \<open>A, B, C\<close> are \<open>0, 1, 2\<close>, every pair must take different values, and \<open>soft\<close> is the
  dictionary lookup with default \<open>0\<close>.
\<close>

definition ex_vars :: "nat list" where
  "ex_vars = [0, 1, 2]"

definition ex_doms :: "(nat, nat) domains" where
  "ex_doms = [0 \<mapsto> [1, 2, 3], 1 \<mapsto> [1, 2, 3], 2 \<mapsto> [1, 2]]"

definition hard_cons :: "(nat, nat) constraint list" where
  "hard_cons = [(0, 1, \<lambda>x y. x \<noteq> y), (0, 2, \<lambda>x y. x \<noteq> y), (1, 2, \<lambda>x y. x \<noteq> y)]"

definition soft :: "nat \<Rightarrow> nat \<Rightarrow> int" where
  "soft v x = (case map_of [((0, 1), 10), ((0, 2), 5), ((0, 3), 1), ((1, 1), 2), ((1, 2), 8),
                            ((1, 3), 4), ((2, 1), 3), ((2, 2), 6)] (v, x) of Some r \<Rightarrow> r | None \<Rightarrow> 0)"

text \<open>The spec's corrected example: \<open>C\<close> may also take \<open>4\<close>, scored \<open>0\<close>.\<close>

definition ex_doms_corrected :: "(nat, nat) domains" where
  "ex_doms_corrected = [0 \<mapsto> [1, 2, 3], 1 \<mapsto> [1, 2, 3], 2 \<mapsto> [1, 2, 4]]"

text \<open>
  A student and a tutor row of the CSV files the drivers load, and the weights of
  \<open>Backtracking_CSP/test.py\<close> (lines 27--33), which \<open>Genetic_Algorithm_Tutas/src/main.py\<close>
  uses too.
\<close>

definition ex_student :: row where
  "ex_student = [''mata_kuliah'' \<mapsto> CStr ''math'', ''subbab'' \<mapsto> CStr ''algebra'',
     ''gaya_belajar'' \<mapsto> CStr ''visual'', ''mode'' \<mapsto> CStr ''online'', ''waktu'' \<mapsto> CStr ''pagi'',
     ''fleksibilitas_waktu'' \<mapsto> CBool False]"

definition ex_tutor :: row where
  "ex_tutor = [''mata_kuliah'' \<mapsto> CStr ''math'', ''subbab'' \<mapsto> CStr ''algebra'',
     ''gaya_belajar'' \<mapsto> CStr ''visual'', ''mode'' \<mapsto> CStr ''offline'', ''waktu'' \<mapsto> CStr ''sore'']"

definition default_weights :: weights where
  "default_weights = [(''mata_kuliah'', 3/10), (''subbab'', 2/10), (''gaya_belajar'', 2/10),
     (''mode'', 1/10), (''waktu'', 2/10)]"

text \<open>The draws of one child of the genetic algorithm, used for every child of a run.\<close>

definition ex_draw :: child_draw where
  "ex_draw = \<lparr>sel1 = [0], sel2 = [0], cross_r = 1/2, cut = (0, 1), mut_r = 1/2, swap_pos = (0, 1)\<rparr>"

text \<open>
  A preference table as the drivers read it: the example student and tutor, with statuses
  in mixed case, and a data folder in which only the first scenario file exists.
\<close>

definition ex_frame :: frame where
  "ex_frame = \<lparr>columns = [''Status'', ''mata_kuliah'', ''subbab'', ''gaya_belajar'', ''mode'', ''waktu'',
       ''fleksibilitas_waktu''],
     rows = [ex_student(''Status'' \<mapsto> CStr ''Murid''), ex_tutor(''Status'' \<mapsto> CStr ''TUTOR'')]\<rparr>"

definition ex_files :: "string \<Rightarrow> frame option" where
  "ex_files = (\<lambda>p. if p = ''data/scenario1_fixed.csv'' then Some ex_frame else None)"

text \<open>
  Instances of the capacity experiments of \<open>tests/test.py\<close>: \<open>ex_row k\<close> is a preference
  row whose first \<open>k\<close> attributes match. In \<open>ex_pref_one\<close> two students fully prefer the
  only tutor; in \<open>ex_pref_two\<close> two students and two tutors score 2, 2, 2 and 3.
\<close>

definition ex_row :: "nat \<Rightarrow> attrs" where
  "ex_row k = attr_dict (\<lambda>a. if a \<in> set (take k attr_names) then 1 else 0)"

definition ex_pref_one :: pref where
  "ex_pref_one = [((0, 0), ex_row 4), ((1, 0), ex_row 4)]"

definition ex_pref_two :: pref where
  "ex_pref_two = [((0, 0), ex_row 2), ((0, 1), ex_row 2), ((1, 0), ex_row 2), ((1, 1), ex_row 3)]"

section \<open>The contract of \<open>backtracking_csp\<close>\<close>

text \<open>
  C1: on distinct variables, with every constraint between two different variables of the
  instance, \<open>backtracking_csp\<close> returns without error, and its score is the score of the
  brute-force enumeration: the maximum objective over all complete assignments from the
  domains that satisfy every constraint, or minus infinity when there is none.
\<close>

theorem backtracking_csp_brute_force:
  assumes "distinct vs" and "\<forall>(X, Y, p) \<in> set cs. X \<in> set vs \<and> Y \<in> set vs \<and> X \<noteq> Y"
  shows "map_sum id snd (backtracking_csp vs doms cs s) = Inr (brute_force vs doms cs s)"
proof -
  have cv: "\<forall>(X, Y, p) \<in> set cs. X \<in> set vs \<and> Y \<in> set vs" using assms(2) by blast
  from backtracking_csp_result [OF assms(1) cv, of doms s] obtain a r where
      res: "backtracking_csp vs doms cs s = Inr (a, r)"
    and shape: "(a = Map.empty \<and> r = NegInf) \<or>
       (r = Fin (objective vs s a) \<and> dom a = set vs \<and> (\<forall>v \<in> set vs. the (a v) \<in> set (domain_of doms v))
        \<and> pair_ok cs a)"
    and opt: "\<forall>c. feasible vs doms cs c \<longrightarrow> Fin (objective vs s c) \<le> r"
    by blast
  from result_brute_force [OF assms shape opt] res show ?thesis by simp
qed

text \<open>
  C2: under the same hypotheses the result is either the failure signal (the empty assignment
  with minus infinity) or a complete assignment from the domains that satisfies every
  constraint, returned with its objective as the score.
\<close>

theorem backtracking_csp_sound:
  assumes "distinct vs" and "\<forall>(X, Y, p) \<in> set cs. X \<in> set vs \<and> Y \<in> set vs \<and> X \<noteq> Y"
  shows "case backtracking_csp vs doms cs s of
           Inl e \<Rightarrow> False
         | Inr (a, r) \<Rightarrow> (a = Map.empty \<and> r = NegInf) \<or> (feasible vs doms cs a \<and> r = Fin (objective vs s a))"
proof -
  have cv: "\<forall>(X, Y, p) \<in> set cs. X \<in> set vs \<and> Y \<in> set vs" using assms(2) by blast
  from backtracking_csp_result [OF assms(1) cv, of doms s] obtain a r where
      res: "backtracking_csp vs doms cs s = Inr (a, r)"
    and shape: "(a = Map.empty \<and> r = NegInf) \<or>
       (r = Fin (objective vs s a) \<and> dom a = set vs \<and> (\<forall>v \<in> set vs. the (a v) \<in> set (domain_of doms v))
        \<and> pair_ok cs a)"
    by blast
  from shape have "(a = Map.empty \<and> r = NegInf) \<or> (feasible vs doms cs a \<and> r = Fin (objective vs s a))"
    using constraints_hold_of_pair_ok [of cs a vs] assms(2) by (auto simp: feasible_def)
  with res show ?thesis by simp
qed

text \<open>
  C3: on distinct variables, with constraint endpoints among the variables (self-loops
  allowed), the returned score is at least the objective of every feasible assignment.
\<close>

theorem backtracking_csp_optimal:
  assumes "distinct vs" and "\<forall>(X, Y, p) \<in> set cs. X \<in> set vs \<and> Y \<in> set vs"
    and "feasible vs doms cs c"
  shows "\<exists>a r. backtracking_csp vs doms cs s = Inr (a, r) \<and> Fin (objective vs s c) \<le> r"
  using backtracking_csp_result [OF assms(1,2), of doms s] assms(3) by blast

text \<open>
  C4: when no complete assignment satisfies the constraints, \<open>backtracking_csp\<close> returns the
  failure signal: the empty assignment with score minus infinity.
\<close>

theorem backtracking_csp_infeasible:
  assumes "distinct vs" and "\<forall>(X, Y, p) \<in> set cs. X \<in> set vs \<and> Y \<in> set vs \<and> X \<noteq> Y"
    and "\<forall>c. \<not> feasible vs doms cs c"
  shows "backtracking_csp vs doms cs s = Inr (Map.empty, NegInf)"
proof -
  have cv: "\<forall>(X, Y, p) \<in> set cs. X \<in> set vs \<and> Y \<in> set vs" using assms(2) by blast
  from backtracking_csp_result [OF assms(1) cv, of doms s] obtain a r where
      res: "backtracking_csp vs doms cs s = Inr (a, r)"
    and shape: "(a = Map.empty \<and> r = NegInf) \<or>
       (r = Fin (objective vs s a) \<and> dom a = set vs \<and> (\<forall>v \<in> set vs. the (a v) \<in> set (domain_of doms v))
        \<and> pair_ok cs a)"
    by blast
  from shape have "a = Map.empty \<and> r = NegInf"
  proof
    assume h: "r = Fin (objective vs s a) \<and> dom a = set vs
        \<and> (\<forall>v \<in> set vs. the (a v) \<in> set (domain_of doms v)) \<and> pair_ok cs a"
    then have "feasible vs doms cs a"
      using constraints_hold_of_pair_ok [of cs a vs] assms(2) by (simp add: feasible_def)
    with assms(3) show ?thesis by blast
  qed
  with res show ?thesis by simp
qed

text \<open>
  C5: on distinct variables whose constraints mention only variables of the instance, the
  search terminates and raises no \<open>KeyError\<close> or \<open>ValueError\<close>, whatever the domains
  (missing ones included) and the scores.
\<close>

theorem backtracking_csp_no_error:
  assumes "distinct vs" and "\<forall>(X, Y, p) \<in> set cs. X \<in> set vs \<and> Y \<in> set vs"
  shows "\<exists>a r. backtracking_csp vs doms cs s = Inr (a, r)"
  using backtracking_csp_result [OF assms, of doms s] by blast

text \<open>
  C6: pruning equivalence. On distinct variables with constraint endpoints among them, the
  search with the optimistic bound of lines 35--40 returns exactly what the same search
  without the bound (\<open>solve_nb\<close>) returns, assignment included.
\<close>

theorem pruning_equivalence:
  assumes "distinct vs" and "\<forall>(X, Y, p) \<in> set cs. X \<in> set vs \<and> Y \<in> set vs"
  shows "backtracking_csp vs doms cs s = solve_nb (\<lambda>v. order_values (s v)) vs doms cs s"
proof -
  let ?P = "\<lparr>variables = vs, constraints = cs, soft_score = s\<rparr>"
  have "cons_in_vars ?P" using assms(2) by (simp add: cons_in_vars_def)
  moreover have "search_inv ?P Map.empty (init_domains vs doms) 0"
    using assms(1) by (rule search_inv_root)
  ultimately show ?thesis
    by (simp add: backtracking_csp_def solve_nb_def backtrack_eq_search_nb(1))
qed

section \<open>Properties of the recursion\<close>

text \<open>
  C8: \<open>best_score\<close> never decreases: from any call satisfying the search invariant, the
  call returns without error and the best score after it is at least the best score before.
\<close>

theorem backtrack_best_mono:
  assumes "search_inv P a ds sc" and "cons_in_vars P"
  shows "case backtrack P a ds sc b of Inl e \<Rightarrow> False | Inr b' \<Rightarrow> best_score b \<le> best_score b'"
proof -
  let ?ord = "\<lambda>v. order_values (soft_score P v)"
  from search_nb_total(1) [OF assms, of ?ord b] obtain b' where
    r: "search_nb ?ord P a ds sc b = Inr b'" by blast
  have "\<forall>v d. set (?ord v d) \<subseteq> set d" by simp
  from search_nb_sound(1) [OF assms(1) this r] have "best_score b \<le> best_score b'"
    by (auto simp: improves_def)
  with r backtrack_eq_search_nb(1) [OF assms, of b] show ?thesis by simp
qed

text \<open>
  C9: the optimistic bound is admissible: when \<open>rem_upper\<close> (lines 35--38) succeeds, it is at
  least the accumulated score plus the score of any choice of one value per listed variable
  from its current domain. Negative scores are allowed.
\<close>

theorem bound_admissible:
  assumes "rem_upper s ds acc vs = Inr ru" and "\<forall>v \<in> set vs. \<exists>d. ds v = Some d \<and> g v \<in> set d"
  shows "acc + sum_list (map (\<lambda>v. s v (g v)) vs) \<le> ru"
proof -
  from assms(2) have "set vs \<subseteq> dom ds" by blast
  from rem_upper_sum [OF this, of s acc] assms(1)
  have "ru = acc + sum_list (map (dom_max s ds) vs)" by simp
  with sum_dom_max_ge [OF assms(2), of s] show ?thesis by simp
qed

text \<open>
  C12: the consistency loop of lines 53--58 accepts a value for an unassigned variable exactly
  when extending a pairwise-consistent assignment with it keeps every constraint between two
  different assigned variables satisfied.
\<close>

theorem consistent_iff_pair_ok:
  assumes "pair_ok cs a" and "a var = None"
  shows "consistent cs var val a \<longleftrightarrow> pair_ok cs (a(var \<mapsto> val))"
proof
  assume "consistent cs var val a"
  with assms(1) show "pair_ok cs (a(var \<mapsto> val))" using assms(2) by (rule pair_ok_upd)
next
  assume ok': "pair_ok cs (a(var \<mapsto> val))"
  show "consistent cs var val a"
    unfolding consistent_iff
  proof (intro ballI, clarify, intro conjI impI)
    fix X Y p
    assume con: "(X, Y, p) \<in> set cs"
    {
      assume X: "X = var"
      show "case a Y of None \<Rightarrow> True | Some y \<Rightarrow> p val y"
      proof (cases "a Y")
        case (Some y)
        with assms(2) X have ne: "X \<noteq> Y" by auto
        with X Some have "(a(var \<mapsto> val)) X = Some val" and "(a(var \<mapsto> val)) Y = Some y" by auto
        from pair_okD [OF ok' con ne this] Some show ?thesis by simp
      qed simp
    next
      assume Y: "Y = var"
      show "case a X of None \<Rightarrow> True | Some x \<Rightarrow> p x val"
      proof (cases "a X")
        case (Some x)
        with assms(2) Y have ne: "X \<noteq> Y" by auto
        with Y Some have "(a(var \<mapsto> val)) X = Some x" and "(a(var \<mapsto> val)) Y = Some val" by auto
        from pair_okD [OF ok' con ne this] Some show ?thesis by simp
      qed simp
    }
  qed
qed

section \<open>The spec's scenarios\<close>

text \<open>
  On the example of \<open>tests/Back_CSP.py\<close> (domains \<open>A:[1,2,3], B:[1,2,3], C:[1,2]\<close>,
  all-pairs different), the code returns \<open>A=1, B=3, C=2\<close> with score 20; the instance is
  feasible, not infeasible as the spec's section 8 says.
\<close>

theorem spec_scenario_result:
  "map_sum id (\<lambda>(a, r). (map a ex_vars, r)) (backtracking_csp ex_vars ex_doms hard_cons soft)
     = Inr ([Some 1, Some 3, Some 2], Fin 20)"
  by code_simp

text \<open>
  On the spec's corrected example (\<open>C\<close> may also take 4, scored 0) the code returns
  \<open>A=1, B=3, C=2\<close> with score 20, which beats the spec's expected \<open>A=1, B=2, C=4\<close> with 18.
\<close>

theorem corrected_scenario_result:
  "map_sum id (\<lambda>(a, r). (map a ex_vars, r)) (backtracking_csp ex_vars ex_doms_corrected hard_cons soft)
     = Inr ([Some 1, Some 3, Some 2], Fin 20)"
  by code_simp

text \<open>
  With no constraints, domains \<open>{1, 2}\<close> for two variables and the value as its own
  score, each variable takes its best value independently: \<open>A=2, B=2\<close> with score 4 (a
  concrete case of C40).
\<close>

theorem reuse_scenario_result:
  "map_sum id (\<lambda>(a, r). (map a [0, 1], r))
     (backtracking_csp [0::nat, 1] [0 \<mapsto> [1::nat, 2], 1 \<mapsto> [1, 2]] [] (\<lambda>v x. int x))
     = Inr ([Some 2, Some 2], Fin 4)"
  by code_simp

text \<open>
  Two variables with the singleton domain \<open>{1}\<close> and a constraint \<open>X \<noteq> Y\<close> give
  the failure signal: the empty assignment with score minus infinity.
\<close>

theorem infeasible_scenario_result:
  "map_sum id (\<lambda>(a, r). (map a [0, 1], r))
     (backtracking_csp [0::nat, 1] [0 \<mapsto> [1::nat], 1 \<mapsto> [1]] [(0, 1, \<lambda>x y. x \<noteq> y)] (\<lambda>v x. int x))
     = Inr ([None, None], NegInf)"
  by code_simp

text \<open>
  A constraint whose two endpoints are the same variable is never checked: neither the
  consistency loop nor forward checking looks at it, and the code returns an assignment that
  violates it.
\<close>

theorem self_loop_violation:
  "case backtracking_csp [0::nat] [0 \<mapsto> [1::nat, 2]] [(0, 0, \<lambda>x y. x \<noteq> y)] (\<lambda>v x. (1::int)) of
     Inl e \<Rightarrow> False
   | Inr (a, r) \<Rightarrow> r = Fin 1 \<and> \<not> constraints_hold [(0, 0, \<lambda>x y. x \<noteq> y)] a"
  by code_simp

text \<open>
  A constraint that mentions a variable outside \<open>variables\<close> makes forward checking read
  a missing domain (line 26) and the call raises \<open>KeyError\<close>; the spec says such constraints
  must not raise.
\<close>

theorem foreign_constraint_key_error:
  "case backtracking_csp [0::nat] [0 \<mapsto> [1::nat]] [(0, 1, \<lambda>x y. x \<noteq> y)] (\<lambda>v x. (1::int)) of
     Inl e \<Rightarrow> e = KeyError 1
   | Inr r \<Rightarrow> False"
  by code_simp

text \<open>
  With no variables the code returns the empty assignment with score 0, for any domains,
  constraints and scores.
\<close>

theorem empty_variables_result:
  "backtracking_csp [] doms cs (s :: 'v \<Rightarrow> 'd \<Rightarrow> 'c::linordered_ab_group_add) = Inr (Map.empty, Fin 0)"
  by (simp add: backtracking_csp_def backtrack.simps unassigned_def)

text \<open>
  A variable whose domain is empty or missing from the outset makes the code return the
  failure signal, on distinct variables whose constraints mention only variables of the
  instance.
\<close>

theorem empty_domain_result:
  assumes "distinct vs" and "\<forall>(X, Y, p) \<in> set cs. X \<in> set vs \<and> Y \<in> set vs"
    and "v \<in> set vs" and "domain_of doms v = []"
  shows "backtracking_csp vs doms cs s = Inr (Map.empty, NegInf)"
proof -
  from backtracking_csp_result [OF assms(1,2), of doms s] obtain a r where
      res: "backtracking_csp vs doms cs s = Inr (a, r)"
    and shape: "(a = Map.empty \<and> r = NegInf) \<or>
       (r = Fin (objective vs s a) \<and> dom a = set vs \<and> (\<forall>v \<in> set vs. the (a v) \<in> set (domain_of doms v))
        \<and> pair_ok cs a)"
    by blast
  from shape assms(3,4) have "a = Map.empty \<and> r = NegInf" by auto
  with res show ?thesis by simp
qed


section \<open>The metaheuristics on an example\<close>

lemma ex_fitness:
  "compute_fitness [0] [ex_student] [ex_tutor] default_weights = Inr \<lparr>total_score = 7/10, pct_satisfied = 3/5\<rparr>"
  by (simp add: compute_fitness_def score_pair_def match_col_def col_def weight_def loc_def fleks_of_def
      ex_student_def ex_tutor_def default_weights_def)

text \<open>
  With start temperature 0, the first proposal that does not improve the current score
  makes \<open>delta / T\<close> divide by zero (line 51): one student, one tutor, one step, and
  \<open>run_sa\<close> raises \<open>ZeroDivisionError\<close>.
\<close>

theorem sa_zero_temperature_error:
  "run_sa [ex_student] [ex_tutor] default_weights (F64 0 0) (F64 8962163258467287 (-53)) 1 (\<lambda>k. 0)
     (\<lambda>s. \<lparr>pos = 0, new_tutor = 0, u = 1/2\<rparr>) = Inl ZeroDivisionError"
  by (simp add: run_sa_def sa_step_def metropolis_def ex_fitness)

text \<open>
  \<open>bool(s.get('fleksibilitas_waktu', False))\<close> (line 32) is true of a NaN cell, the
  value pandas reads for an empty cell: a student whose flexibility is missing counts as
  flexible, and the time constraint is satisfied although the times differ, where the same
  student with \<open>False\<close> scores 0.7 and 3 constraints.
\<close>

theorem nan_flexibility_matches:
  "score_pair ex_student ex_tutor default_weights = Inr (7/10, 3)
   \<and> score_pair (ex_student(''fleksibilitas_waktu'' \<mapsto> CNaN)) ex_tutor default_weights = Inr (9/10, 4)"
  by (simp add: score_pair_def match_col_def col_def weight_def fleks_of_def
      ex_student_def ex_tutor_def default_weights_def)

section \<open>The capacity search of the experiments\<close>

text \<open>
  The capacity search of \<open>tests/test.py\<close> lets MRV pick a student it has already
  assigned, overwrites that student's tutor while keeping the capacity it took, and its
  \<open>pop\<close> then drops the student. Two students and one tutor of capacity 2 have the
  feasible assignment of both students to that tutor, but the search returns
  \<open>({}, -1)\<close>; and on two students and two tutors it reports the assignment
  \<open>{0: 0, 1: 1}\<close> with score 9, counting overwritten pairs, where \<open>evaluate\<close> gives that
  assignment the score 5.
\<close>

theorem csp_backtrack_repick_defects:
  "csp_backtrack [0, 1] [0] [(0, 2)] ex_pref_one = Inr ([], -1)
   \<and> cap_wf ([0, 1], [0], [(0, 2)], ex_pref_one)
   \<and> within_caps [0, 1] [0] [(0, 2)] [(0, 0), (1, 0)]
   \<and> csp_backtrack [0, 1] [0, 1] [(0, 3), (1, 1)] ex_pref_two = Inr ([(0, 0), (1, 1)], 9)
   \<and> evaluate [(0, 0), (1, 1)] ex_pref_two = Inr (5, 125 / 2)"
proof -
  have r1: "ex_pref_one = [((0, 0), attr_dict (\<lambda>_. 1)), ((1, 0), attr_dict (\<lambda>_. 1))]"
    by (simp add: ex_pref_one_def ex_row_def attr_names_def attr_dict_def)
  show ?thesis
    by (simp add: r1 ex_pref_two_def ex_row_def csp_backtrack_def score_pairs_def domains_cap_def
        mrv_cap_def forward_cap_def attr_dict_def attr_names_def within_caps_def load_def cap_wf_def
        binary_attrs_def evaluate_def)
qed

text \<open>
  The Conflict-Heavy scenario of \<open>tests/test.py\<close> (15 students, 5 tutors of capacity 1)
  and its asymmetric capacity scenario with 20 students (capacities 5, 5 and eight times 1)
  have less capacity than students, so the capacity search returns \<open>({}, -1)\<close> on them,
  whatever the random preferences.
\<close>

lemma test_scenarios_over_capacity:
  assumes coin: "\<forall>m t a. coin m t a = 0 \<or> coin m t a = 1"
  shows "(case scenario_conflict_heavy 15 5 good of
            Inl e \<Rightarrow> False
          | Inr (murid, tutor, cap, pref) \<Rightarrow> csp_backtrack murid tutor cap pref = Inr ([], -1))
       \<and> (case scenario_capacity 20 10 True coin of
            Inl e \<Rightarrow> False
          | Inr (murid, tutor, cap, pref) \<Rightarrow> csp_backtrack murid tutor cap pref = Inr ([], -1))"
proof
  have zero: "\<forall>m t a. (\<lambda>_ _ _. 0::int) m t a = 0 \<or> (\<lambda>_ _ _. 0::int) m t a = 1" by simp
  have ne: "int_range 5 \<noteq> []" by (simp add: int_range_def)
  from generate_preferences_wf [OF zero, of "''conflict''" "int_range 5" "int_range 15" "[]" good] ne
  obtain p where p: "generate_preferences (int_range 15) (int_range 5) ''conflict'' [] [] good (\<lambda>_ _ _. 0) = Inr p"
    by auto
  let ?cap = "map (\<lambda>t. (t, 1)) (int_range 5)"
  have sc: "scenario_conflict_heavy 15 5 good = Inr (int_range 15, int_range 5, ?cap, p)"
    using p by (simp add: scenario_conflict_heavy_def Let_def)
  have wf: "cap_wf (int_range 15, int_range 5, ?cap, p)"
    using conflict_heavy_wf [where n_m = 15 and n_t = 5 and good = good] sc by simp
  have "sum_list (map (\<lambda>t. the (map_of ?cap t)) (int_range 5)) < int (length (int_range 15))"
    by (simp add: int_range_def upt_rec)
  from csp_backtrack_over_capacity [OF wf this] sc
  show "case scenario_conflict_heavy 15 5 good of
          Inl e \<Rightarrow> False
        | Inr (murid, tutor, cap, pref) \<Rightarrow> csp_backtrack murid tutor cap pref = Inr ([], -1)" by simp
next
  from generate_preferences_wf [OF coin, of "''random''" "int_range 10" "int_range 20" "[]" "\<lambda>_. 0"]
  obtain p where p: "generate_preferences (int_range 20) (int_range 10) ''random'' [] [] (\<lambda>_. 0) coin = Inr p"
    by auto
  let ?cap = "map (\<lambda>t. (t, if t < 2 then 5 else 1)) (int_range 10)"
  have sc: "scenario_capacity 20 10 True coin = Inr (int_range 20, int_range 10, ?cap, p)"
    using p by (simp add: scenario_capacity_def Let_def)
  have wf: "cap_wf (int_range 20, int_range 10, ?cap, p)"
    using capacity_wf [OF coin, where n_m = 20 and n_t = 10 and is_asym = True] sc by simp
  have "sum_list (map (\<lambda>t. the (map_of ?cap t)) (int_range 10)) < int (length (int_range 20))"
    by (simp add: int_range_def upt_rec)
  from csp_backtrack_over_capacity [OF wf this] sc
  show "case scenario_capacity 20 10 True coin of
          Inl e \<Rightarrow> False
        | Inr (murid, tutor, cap, pref) \<Rightarrow> csp_backtrack murid tutor cap pref = Inr ([], -1)" by simp
qed

section \<open>Witnesses\<close>

lemma hard_cons_endpoints: "\<forall>(X, Y, p) \<in> set hard_cons. X \<in> set ex_vars \<and> Y \<in> set ex_vars \<and> X \<noteq> Y"
  by (simp add: hard_cons_def ex_vars_def)

lemma hard_cons_in_vars: "\<forall>(X, Y, p) \<in> set hard_cons. X \<in> set ex_vars \<and> Y \<in> set ex_vars"
  by (simp add: hard_cons_def ex_vars_def)

lemma ex_vars_distinct: "distinct ex_vars"
  by (simp add: ex_vars_def)

theorem backtracking_csp_brute_force_witness:
  "map_sum id snd (backtracking_csp ex_vars ex_doms hard_cons soft) = Inr (brute_force ex_vars ex_doms hard_cons soft)"
  by (rule backtracking_csp_brute_force [OF ex_vars_distinct hard_cons_endpoints])

theorem backtracking_csp_sound_witness:
  "case backtracking_csp ex_vars ex_doms hard_cons soft of
     Inl e \<Rightarrow> False
   | Inr (a, r) \<Rightarrow> (a = Map.empty \<and> r = NegInf) \<or> (feasible ex_vars ex_doms hard_cons a \<and> r = Fin (objective ex_vars soft a))"
  by (rule backtracking_csp_sound [OF ex_vars_distinct hard_cons_endpoints])

theorem backtracking_csp_optimal_witness:
  "\<exists>a r. backtracking_csp ex_vars ex_doms hard_cons soft = Inr (a, r) \<and> Fin 20 \<le> r"
proof -
  let ?c = "[0 \<mapsto> 1, 1 \<mapsto> 3, 2 \<mapsto> (2::nat)] :: (nat, nat) assignment"
  have f: "feasible ex_vars ex_doms hard_cons ?c"
    by (auto simp: feasible_def constraints_hold_def domain_of_def ex_vars_def ex_doms_def hard_cons_def)
  have o: "objective ex_vars soft ?c = 20"
    by (simp add: objective_def ex_vars_def soft_def)
  from backtracking_csp_optimal [OF ex_vars_distinct hard_cons_in_vars f, of soft] o
  show ?thesis by simp
qed

lemma neq_singleton_infeasible:
  "\<forall>c. \<not> feasible [0::nat, 1] [0 \<mapsto> [1::nat], 1 \<mapsto> [1]] [(0, 1, \<lambda>x y. x \<noteq> y)] c"
proof (intro allI notI)
  fix c :: "(nat, nat) assignment"
  assume f: "feasible [0, 1] [0 \<mapsto> [1], 1 \<mapsto> [1]] [(0, 1, \<lambda>x y. x \<noteq> y)] c"
  then have d: "\<forall>v \<in> set [0::nat, 1]. the (c v) \<in> set (domain_of [0 \<mapsto> [1::nat], 1 \<mapsto> [1]] v)"
    and h: "constraints_hold [(0, 1, \<lambda>x y. x \<noteq> y)] c"
    unfolding feasible_def by blast+
  from d have "the (c 0) = 1" and "the (c 1) = 1" by (simp_all add: domain_of_def)
  moreover from h have "the (c 0) \<noteq> the (c 1)" by (simp add: constraints_hold_def)
  ultimately show False by simp
qed

theorem backtracking_csp_infeasible_witness:
  "backtracking_csp [0::nat, 1] [0 \<mapsto> [1::nat], 1 \<mapsto> [1]] [(0, 1, \<lambda>x y. x \<noteq> y)] (\<lambda>v x. int x)
     = Inr (Map.empty, NegInf)"
  by (rule backtracking_csp_infeasible [OF _ _ neq_singleton_infeasible]) simp_all

theorem backtracking_csp_no_error_witness:
  "\<exists>a r. backtracking_csp ex_vars ex_doms hard_cons soft = Inr (a, r)"
  by (rule backtracking_csp_no_error [OF ex_vars_distinct hard_cons_in_vars])

theorem pruning_equivalence_witness:
  "backtracking_csp ex_vars ex_doms hard_cons soft = solve_nb (\<lambda>v. order_values (soft v)) ex_vars ex_doms hard_cons soft"
  by (rule pruning_equivalence [OF ex_vars_distinct hard_cons_in_vars])

theorem reachable_call_inv_witness:
  "search_inv \<lparr>variables = ex_vars, constraints = hard_cons, soft_score = soft\<rparr>
     Map.empty (init_domains ex_vars ex_doms) 0"
  using CSP_Calls.reachable_call_inv [of "\<lparr>variables = ex_vars, constraints = hard_cons, soft_score = soft\<rparr>"
      ex_doms "(Map.empty, init_domains ex_vars ex_doms, 0)"]
  by (simp add: ex_vars_distinct reachable_call.root [of "\<lparr>variables = ex_vars, constraints = hard_cons, soft_score = soft\<rparr>", simplified])

theorem reachable_call_domains_witness:
  "CSP_Calls.domains_exact \<lparr>variables = ex_vars, constraints = hard_cons, soft_score = soft\<rparr>
     ex_doms Map.empty (init_domains ex_vars ex_doms)"
  using CSP_Calls.reachable_call_domains [of "\<lparr>variables = ex_vars, constraints = hard_cons, soft_score = soft\<rparr>"
      ex_doms "(Map.empty, init_domains ex_vars ex_doms, 0)"]
  by (simp add: reachable_call.root [of "\<lparr>variables = ex_vars, constraints = hard_cons, soft_score = soft\<rparr>", simplified])

theorem backtrack_best_mono_witness:
  "case backtrack \<lparr>variables = ex_vars, constraints = hard_cons, soft_score = soft\<rparr> Map.empty
      (init_domains ex_vars ex_doms) 0 \<lparr>best_assignment = [0 \<mapsto> 1, 1 \<mapsto> 3, 2 \<mapsto> 2], best_score = Fin 20\<rparr> of
     Inl e \<Rightarrow> False
   | Inr b' \<Rightarrow> Fin 20 \<le> best_score b'"
proof -
  have cv: "cons_in_vars \<lparr>variables = ex_vars, constraints = hard_cons, soft_score = soft\<rparr>"
    using hard_cons_in_vars by (simp add: cons_in_vars_def)
  have inv: "search_inv \<lparr>variables = ex_vars, constraints = hard_cons, soft_score = soft\<rparr>
      Map.empty (init_domains ex_vars ex_doms) 0"
    by (rule search_inv_root [OF ex_vars_distinct])
  from backtrack_best_mono [OF inv cv,
      of "\<lparr>best_assignment = [0 \<mapsto> 1, 1 \<mapsto> 3, 2 \<mapsto> 2], best_score = Fin 20\<rparr>"]
  show ?thesis by (simp only: best.select_convs)
qed

theorem bound_admissible_witness:
  "0 + sum_list (map (\<lambda>v. soft v ([1, 3, 2] ! v)) ex_vars) \<le> 24"
proof -
  have r: "rem_upper soft ex_doms 0 ex_vars = Inr 24"
    by (simp add: ex_vars_def ex_doms_def soft_def)
  have "\<forall>v \<in> set ex_vars. \<exists>d. ex_doms v = Some d \<and> [1, 3, 2] ! v \<in> set d"
    by (simp add: ex_vars_def ex_doms_def)
  from bound_admissible [OF r this] show ?thesis .
qed

theorem mrv_choice_witness: "mrv ex_vars ex_doms Map.empty = Inr 2"
proof -
  have "set (unassigned ex_vars (Map.empty :: (nat, nat) assignment)) \<subseteq> dom ex_doms" and "unassigned ex_vars (Map.empty :: (nat, nat) assignment) \<noteq> []"
    by (simp_all add: unassigned_def ex_vars_def ex_doms_def)
  from CSP_Ops.mrv_choice [OF this] have "\<exists>v. mrv ex_vars ex_doms Map.empty = Inr v
      \<and> v \<in> set (unassigned ex_vars (Map.empty :: (nat, nat) assignment))
      \<and> (\<forall>w \<in> set (unassigned ex_vars (Map.empty :: (nat, nat) assignment)). length (the (ex_doms v)) \<le> length (the (ex_doms w)))"
    by blast
  then obtain v where
    m: "mrv ex_vars ex_doms Map.empty = Inr v" and v: "v \<in> set (unassigned ex_vars (Map.empty :: (nat, nat) assignment))"
    and le: "\<forall>w \<in> set (unassigned ex_vars (Map.empty :: (nat, nat) assignment)). length (the (ex_doms v)) \<le> length (the (ex_doms w))"
    by blast
  from v le have "v = 2" by (auto simp: unassigned_def ex_vars_def ex_doms_def)
  with m show ?thesis by simp
qed

theorem consistent_iff_pair_ok_witness:
  "consistent hard_cons 1 3 [0 \<mapsto> 1] \<longleftrightarrow> pair_ok hard_cons [0 \<mapsto> 1, 1 \<mapsto> 3]"
proof -
  have "pair_ok hard_cons [0 \<mapsto> 1]" by (simp add: pair_ok_def hard_cons_def)
  from consistent_iff_pair_ok [OF this, of 1 3] show ?thesis by simp
qed

theorem empty_domain_result_witness:
  "backtracking_csp ex_vars [0 \<mapsto> [1], 1 \<mapsto> [2]] hard_cons soft = Inr (Map.empty, NegInf)"
  by (rule empty_domain_result [OF ex_vars_distinct hard_cons_in_vars, of 2])
    (simp_all add: ex_vars_def domain_of_def)

lemma ex_rows_cols: "has_cols ex_student" "has_cols ex_tutor"
  by (simp_all add: has_cols_def criteria_def ex_student_def ex_tutor_def)

lemma default_weights_keys: "has_weights default_weights"
  by (simp add: has_weights_def criteria_def default_weights_def del: not_None_eq)

theorem compute_fitness_correct_witness:
  "compute_fitness [0] [ex_student] [ex_tutor] default_weights =
     Inr \<lparr>total_score = 7/10, pct_satisfied = 3/5\<rparr>"
proof -
  have "compute_fitness [0] [ex_student] [ex_tutor] default_weights = Inr
    \<lparr>total_score = sum_list (map (\<lambda>(j, tid). pair_score ([ex_student] ! j) ([ex_tutor] ! nat tid) default_weights)
                                (enumerate 0 [0])),
     pct_satisfied =
       (if 0 < length [0::int]
        then sum_list (map (\<lambda>(j, tid). real (pair_count ([ex_student] ! j) ([ex_tutor] ! nat tid)) / real (length default_weights))
                           (enumerate 0 [0])) / real (length [0::int])
        else 0)\<rparr>"
    by (rule Fitness.compute_fitness_correct) (simp_all add: ex_rows_cols default_weights_keys)
  then show ?thesis
    by (simp add: pair_score_def pair_count_def criteria_def satisfied_def ex_student_def ex_tutor_def
        default_weights_def fleks_of_def)
qed

theorem compute_fitness_pct_bounds_witness:
  "0 \<le> pct_satisfied \<lparr>total_score = 7/10, pct_satisfied = 3/5\<rparr>
   \<and> pct_satisfied \<lparr>total_score = 7/10, pct_satisfied = (3/5 :: real)\<rparr> \<le> 1"
  using Fitness.compute_fitness_pct_bounds [OF compute_fitness_correct_witness] .

theorem pmx_crossover_perm_witness:
  "\<exists>c. pmx_crossover [1, 2, 3, 4, 5] [3, 5, 1, 2, 4] (1, 3) = Some (Inr c) \<and> mset c = mset [1, 2, 3, 4, 5]"
proof -
  have "\<exists>c. pmx_crossover [1, 2, 3, 4, 5] [3, 5, 1, 2, 4] (1, 3) = Some (Inr c) \<and> mset c = mset [1, 2, 3, 4, 5]
     \<and> (\<forall>k < length [1, 2, 3, 4, 5::int]. min 1 3 \<le> k \<and> k \<le> max 1 3 \<longrightarrow> c ! k = [1, 2, 3, 4, 5::int] ! k)"
    by (rule GA.pmx_crossover_perm) simp_all
  then show ?thesis by blast
qed

lemma ex_run_sa:
  "run_sa [ex_student] [ex_tutor] default_weights (F64 1 0) (F64 8962163258467287 (-53)) 1 (\<lambda>k. 0)
     (\<lambda>s. \<lparr>pos = 0, new_tutor = 0, u = 1/2\<rparr>) = Inr ([0], \<lparr>total_score = 7/10, pct_satisfied = 3/5\<rparr>)"
  by (simp add: run_sa_def sa_step_def metropolis_def ex_fitness)

theorem run_sa_best_witness:
  "compute_fitness [0] [ex_student] [ex_tutor] default_weights = Inr \<lparr>total_score = 7/10, pct_satisfied = 3/5\<rparr>
   \<and> (\<exists>f0. compute_fitness (map (\<lambda>k. int ((\<lambda>k. 0) k)) [0..<length [ex_student]]) [ex_student] [ex_tutor]
             default_weights = Inr f0 \<and> total_score f0 \<le> 7/10)"
  using SA.run_sa_best [OF ex_run_sa] by simp

theorem run_sa_total_witness:
  "\<exists>b bf. run_sa [ex_student] [ex_tutor] default_weights (F64 1 0) (F64 8962163258467287 (-53)) 3 (\<lambda>k. 0)
     (\<lambda>s. \<lparr>pos = 0, new_tutor = 0, u = 1/2\<rparr>) = Inr (b, bf)"
  by (rule SA.run_sa_total) (simp_all add: ex_rows_cols default_weights_keys valid_draw_def f64_real_def)

theorem run_sa_underflow_witness:
  "run_sa [ex_student] [ex_tutor] default_weights (F64 1 0) (F64 1 (-1)) 1076 (\<lambda>k. 0)
     (\<lambda>s. \<lparr>pos = 0, new_tutor = 0, u = 1/2\<rparr>) = Inl ZeroDivisionError"
  by (rule SA.run_sa_underflow) (simp_all add: ex_rows_cols default_weights_keys valid_draw_def)

lemma ex_run_ga:
  "run_ga [ex_student] [ex_tutor] default_weights
     \<lparr>pop_size = 1, generations = 1, crossover_rate = 8/10, mutation_rate = 1/10\<rparr> (\<lambda>k n. [0]) (\<lambda>g c. ex_draw)
   = Some (Inr ([0], \<lparr>total_score = 7/10, pct_satisfied = 3/5\<rparr>))"
  by (simp add: run_ga_def evolve_def init_population_def ga_generation_def best_of_def bind_run_def
      breed.simps ex_fitness)

theorem run_ga_best_witness:
  "compute_fitness [0] [ex_student] [ex_tutor] default_weights = Inr \<lparr>total_score = 7/10, pct_satisfied = 3/5\<rparr>
   \<and> (\<exists>fits. map_result (\<lambda>ch. compute_fitness ch [ex_student] [ex_tutor] default_weights)
               (init_population (\<lambda>k n. [0]) 1 1) = Inr fits
             \<and> (\<forall>f \<in> set fits. total_score f \<le> 7/10))"
  using GA.run_ga_best [OF ex_run_ga] by simp

theorem run_ga_small_population_witness:
  "run_ga [ex_student] [ex_tutor] default_weights
     \<lparr>pop_size = 2, generations = 1, crossover_rate = 8/10, mutation_rate = 1/10\<rparr> (\<lambda>k n. [0]) (\<lambda>g c. ex_draw)
   = Some (Inl ValueError)"
  by (rule GA.run_ga_small_population [where fits = "[\<lparr>total_score = 7/10, pct_satisfied = 3/5\<rparr>,
        \<lparr>total_score = 7/10, pct_satisfied = 3/5\<rparr>]"])
     (simp_all add: ex_fitness init_population_def upt_rec)

theorem run_ga_terminates_witness:
  "\<exists>r. run_ga [ex_student, ex_student] [ex_tutor, ex_tutor] default_weights
     \<lparr>pop_size = 1, generations = 3, crossover_rate = 8/10, mutation_rate = 1/10\<rparr> (\<lambda>k n. [0, 1]) (\<lambda>g c. ex_draw)
   = Some r"
  by (rule GA.run_ga_terminates [where p = "[0, 1]"]) (simp_all add: valid_child_draw_def ex_draw_def)

section \<open>The drivers on the example table\<close>

lemma ex_status_lower: "lower ''Murid'' = ''murid''" "lower ''TUTOR'' = ''tutor''"
  by code_simp+

lemma ex_frame_split:
  "load_preferences ex_frame = Inr ([ex_student(''Status'' := None)], [ex_tutor(''Status'' := None)])"
  by (simp add: load_preferences_def get_column_def str_lower_def select_rows_def ex_frame_def
      ex_status_lower)

theorem path_key_roundtrip_witness:
  "CHR ''/'' \<notin> set ''scenario 2_5_fixed'' \<and> list_ex (\<lambda>c. c \<noteq> CHR ''.'') ''scenario 2_5_fixed''
   \<and> path_key (path_join ''/home/tutas/data'' (''scenario 2_5_fixed'' @ ''.csv'')) = ''scenario 2_5_fixed''"
  using Driver.path_key_roundtrip [of "''scenario 2_5_fixed''" "''/home/tutas/data''"] by simp

theorem run_all_scenarios_reports_witness:
  "run_all_scenarios ''data'' True (\<lambda>_. None) (\<lambda>_ _ _ _. []) (\<lambda>_ _ _ _. ex_draw) (\<lambda>_. 0) = Some ([], None)
   \<and> map (\<lambda>(title, r). (scenario_key r, title)) ([] :: (string \<times> chromosome scenario_report) list)
     = map (\<lambda>k. (k, the (map_of title_map k))) (filter (\<lambda>k. (\<lambda>_. None :: frame option) (path_join ''data'' (k @ ''.csv'')) \<noteq> None) scenario_order)"
proof -
  have r: "run_all_scenarios ''data'' True (\<lambda>_. None) (\<lambda>_ _ _ _. []) (\<lambda>_ _ _ _. ex_draw) (\<lambda>_. 0) = Some ([], None)"
    by (simp add: run_all_scenarios_def scenario_order_def)
  from GA_Main.run_all_scenarios_reports [OF r] r show ?thesis by simp
qed

theorem run_all_scenarios_terminates_witness:
  "\<exists>r. run_all_scenarios ''data'' True ex_files (\<lambda>_ _ _ _. [0, 1]) (\<lambda>_ _ _ _. ex_draw) (\<lambda>_. 0) = Some r"
proof -
  have "\<exists>p. distinct p \<and> 2 \<le> length p
      \<and> (\<forall>i k. k < pop_size main_ga_params \<longrightarrow> mset ((\<lambda>_ _ _. [0, 1 :: int]) i k (Suc 0)) = mset p)
      \<and> (\<forall>i g c. valid_child_draw (pop_size main_ga_params) (length p) ((\<lambda>_ _ _. ex_draw) i g c))"
    by (rule exI [where x = "[0, 1] :: int list"]) (simp add: valid_child_draw_def ex_draw_def main_ga_params_def)
  then have "ga_ready ex_frame (\<lambda>_ _ _. [0, 1]) (\<lambda>_ _ _. ex_draw)"
    by (simp add: ga_ready_def ex_frame_split)
  then have "\<forall>k \<in> set scenario_order. \<forall>df. ex_files (path_join ''data'' (k @ ''.csv'')) = Some df
      \<longrightarrow> ga_ready df ((\<lambda>_ _ _ _. [0, 1]) k) ((\<lambda>_ _ _ _. ex_draw) k)"
    by (simp add: scenario_order_def ex_files_def path_join_def)
  then show ?thesis by (rule GA_Main.run_all_scenarios_terminates)
qed

theorem run_all_scenarios_sa_complete_witness:
  "\<exists>out. run_all_scenarios_sa ''data'' True ex_files (\<lambda>_ _ _. 0) (\<lambda>_ _ _. \<lparr>pos = 0, new_tutor = 0, u = 1/2\<rparr>) (\<lambda>_ _. 0)
      = (out, None)
    \<and> map (\<lambda>(title, r). (scenario_key r, title)) out = [(''scenario1_fixed'', the (map_of title_map ''scenario1_fixed''))]"
proof -
  have ready: "sa_ready ex_frame (\<lambda>_ _. 0) (\<lambda>_ _. \<lparr>pos = 0, new_tutor = 0, u = 1/2\<rparr>)"
    by (simp add: sa_ready_def ex_frame_split has_cols_def criteria_def ex_student_def ex_tutor_def valid_draw_def
        del: not_None_eq)
  have "\<forall>k \<in> set scenario_order_sa. \<forall>df. ex_files (path_join ''data'' (k @ ''.csv'')) = Some df
      \<longrightarrow> sa_ready df ((\<lambda>_ _ _. 0) k) ((\<lambda>_ _ _. \<lparr>pos = 0, new_tutor = 0, u = 1/2\<rparr>) k)"
    using ready by (simp add: scenario_order_sa_def scenario_order_def ex_files_def path_join_def)
  from SA_Main.run_all_scenarios_sa_complete [OF this, of "\<lambda>_ _. 0"] show ?thesis
    by (simp add: scenario_order_def ex_files_def path_join_def)
qed

section \<open>The unconstrained instance of the search driver\<close>

theorem bc_instance_independent_witness:
  "0 < (3::nat) \<and> (case bc_instance 3 3 of (vs, doms, cs) \<Rightarrow>
     \<exists>a. backtracking_csp vs doms cs soft = Inr (a, Fin (\<Sum>v\<leftarrow>[0..<3]. Max (soft v ` {..<3})))
       \<and> (\<forall>v < 3. \<exists>x < 3. a v = Some x \<and> (\<forall>y < 3. soft v y \<le> soft v x)))"
proof -
  have m: "0 < (3::nat)" by simp
  have c: "case bc_instance 3 3 of (vs, doms, cs) \<Rightarrow>
     \<exists>a. backtracking_csp vs doms cs soft = Inr (a, Fin (\<Sum>v\<leftarrow>[0..<3]. Max (soft v ` {..<3})))
       \<and> (\<forall>v < 3. \<exists>x < 3. a v = Some x \<and> (\<forall>y < 3. soft v y \<le> soft v x))"
    by (rule CSP_Main.bc_instance_independent [OF m])
  show ?thesis by (rule conjI [OF m c])
qed

section \<open>The simple variant of \<open>tests/Back_CSP.py\<close>\<close>

theorem simple_variant_brute_force_witness:
  "map_sum id snd (backtracking_csp_simple ex_vars ex_doms hard_cons soft) = Inr (brute_force ex_vars ex_doms hard_cons soft)"
proof -
  have f: "find (\<lambda>v. ex_doms v = None) ex_vars = None" by (simp add: ex_vars_def ex_doms_def)
  from CSP_Simple.simple_variant_brute_force [OF ex_vars_distinct hard_cons_endpoints, of ex_doms soft] f
  show ?thesis by simp
qed

text \<open>Where the two searches differ: a variable without a domain raises \<open>KeyError\<close> in the
  simple variant (line 26 of \<open>tests/Back_CSP.py\<close>) and gives \<open>({}, -inf)\<close> in
  \<open>back_CSP.py\<close>, which reads \<open>domains.get(v, [])\<close>.\<close>

lemma simple_missing_domain:
  "backtracking_csp_simple [0::nat] Map.empty [] (\<lambda>v x. 0::int) = Inl (KeyError 0)"
  by (simp add: backtracking_csp_simple_def)

section \<open>The capacity experiments of \<open>tests/\<close>\<close>

lemma ex_pref_two_wf: "cap_wf ([0, 1], [0, 1], [(0, 3), (1, 1)], ex_pref_two)"
  by (simp add: cap_wf_def ex_pref_two_def ex_row_def binary_attrs_def attr_dict_def attr_names_def)

theorem csp_backtrack_total_witness:
  "cap_wf ([0, 1], [0, 1], [(0, 3), (1, 1)], ex_pref_two)
   \<and> (\<exists>A sc. csp_backtrack [0, 1] [0, 1] [(0, 3), (1, 1)] ex_pref_two = Inr (A, sc))"
  using Cap_CSP.csp_backtrack_total [OF ex_pref_two_wf] ex_pref_two_wf by blast

theorem csp_backtrack_sound_witness:
  "([(0::int, 0::int), (1, 1)], 9::int) = ([], -1)
   \<or> (fst ` set [(0, 0), (1, 1)] = set [0, 1] \<and> snd ` set [(0, 0), (1, 1)] \<subseteq> set [0, 1]
       \<and> (\<forall>t \<in> set [0, 1]. load [(0, 0), (1, 1)] t \<le> the (map_of [(0, 3), (1, 1)] t)))"
proof -
  have run: "csp_backtrack [0, 1] [0, 1] [(0, 3), (1, 1)] ex_pref_two = Inr ([(0, 0), (1, 1)], 9)"
    by (simp add: ex_pref_two_def ex_row_def csp_backtrack_def score_pairs_def domains_cap_def
        mrv_cap_def forward_cap_def attr_dict_def attr_names_def)
  show ?thesis using Cap_CSP.csp_backtrack_sound [OF ex_pref_two_wf run] by simp
qed

theorem scenarios_wf_witness:
  "(case scenario_conflict_heavy 15 5 (\<lambda>_. 0) of
       Inl e \<Rightarrow> e = IndexError \<and> (5::nat) = 0 \<and> 0 < (15::nat)
     | Inr I \<Rightarrow> cap_wf I \<and> \<not> ((5::nat) = 0 \<and> 0 < (15::nat)))
   \<and> (\<exists>I. scenario_capacity 20 10 True (\<lambda>_ _ _. 1) = Inr I \<and> cap_wf I)"
  using Cap_Instance.scenarios_wf [where coin = "\<lambda>_ _ _. 1" and n_m = 15 and n_t = 5 and good = "\<lambda>_. 0"]
    Cap_Instance.scenarios_wf [where coin = "\<lambda>_ _ _. 1" and n_m = 20 and n_t = 10 and is_asym = True]
  by simp

theorem evaluate_bounds_witness:
  "\<exists>ms pct. evaluate [(0, 0), (1, 1)] ex_pref_two = Inr (ms, pct) \<and> 0 \<le> ms
     \<and> ms \<le> 4 * int (length [(0::int, 0::int), (1, 1)]) \<and> 0 \<le> pct \<and> pct \<le> 100"
proof -
  have "\<forall>(m, t) \<in> set [(0::int, 0::int), (1, 1)]. \<exists>a. map_of ex_pref_two (m, t) = Some a \<and> binary_attrs a"
    by (simp add: ex_pref_two_def ex_row_def binary_attrs_def attr_dict_def attr_names_def)
  then show ?thesis by (rule Cap_Instance.evaluate_bounds)
qed

text \<open>The draws of one annealing step of the experiments, used for every step.\<close>

theorem sa_match_best_witness:
  "\<exists>A0 f0 best bf. init_assign [0, 1] (\<lambda>_. 0) [0, 1] [] = Inr A0
     \<and> sa_fitness [0, 1] [0, 1] [(0, 3), (1, 1)] ex_pref_two A0 = Inr f0
     \<and> sa_match [0, 1] [0, 1] [(0, 3), (1, 1)] ex_pref_two (F64 1 0) (F64 8962163258467287 (-53)) 1500 (\<lambda>_. 0)
         (\<lambda>_. \<lparr>pick_m = 1, pick_t = 1, coin_u = 1/2\<rparr>) = Inr (best, bf)
     \<and> sa_fitness [0, 1] [0, 1] [(0, 3), (1, 1)] ex_pref_two best = Inr bf \<and> f0 \<le> bf
     \<and> assign_on [0, 1] [0, 1] best"
  by (rule Cap_SA.sa_match_best [OF ex_pref_two_wf]) (simp_all add: f64_real_def)

theorem sa_match_v1_overstates_witness:
  "sa_match_v1 [0, 1] [0] [(0, 1)] [((0, 0), attr_dict (\<lambda>_. 1)), ((1, 0), attr_dict (\<lambda>_. 1))]
       (F64 1 0) (F64 8962163258467287 (-53)) 1500 (\<lambda>_. 0) (\<lambda>_. \<lparr>pick_m = 0, pick_t = 0, coin_u = 1/2\<rparr>) = Inr ([(0, 0), (1, 0)], 8)
   \<and> sa_fitness [0, 1] [0] [(0, 1)] [((0, 0), attr_dict (\<lambda>_. 1)), ((1, 0), attr_dict (\<lambda>_. 1))]
       [(0, 0), (1, 0)] = Inr 0
   \<and> sa_match [0, 1] [0] [(0, 1)] [((0, 0), attr_dict (\<lambda>_. 1)), ((1, 0), attr_dict (\<lambda>_. 1))]
       (F64 1 0) (F64 8962163258467287 (-53)) 1500 (\<lambda>_. 0) (\<lambda>_. \<lparr>pick_m = 0, pick_t = 0, coin_u = 1/2\<rparr>) = Inr ([(0, 0), (1, 0)], 0)"
  by (rule Cap_SA.sa_match_v1_overstates) (simp_all add: f64_real_def)

end
